(* ===== verification/Prelude.thy ===== *)
theory Prelude
  imports Main "HOL-Library.Char_ord" "HOL-Library.List_Lexorder" "HOL-Library.AList"
begin

text \<open>
  Shared vocabulary of the development: the Python values, exceptions and
  observable events of \<^verbatim>\<open>src/transcribe.py\<close>, the world the script acts on (a
  file table, a directory list and the trace of observable actions), the
  external collaborators (the \<^verbatim>\<open>ffmpeg\<close> process and the HTTP endpoint) as
  parameters of an environment record, and the exception-and-state monad
  \<open>'a pyio\<close> in which every function of the script is written.  An uncaught Python
  exception is \<open>Inl\<close>; the world returned with it is the world at the point of
  the raise, so effects done before the exception stay visible, as in Python.
\<close>

named_theorems pyio_simps "evaluation rules of the monad and the Python runtime model"

type_synonym path = string

subsection \<open>Python values and exceptions\<close>

text \<open>A JSON document as \<^verbatim>\<open>response.json()\<close> decodes it.\<close>

datatype jval =
    JStr string
  | JNum int
  | JBool bool
  | JNull
  | JArr "jval list"
  | JObj "(string \<times> jval) list"

text \<open>The exceptions the script can raise (none of them is caught).\<close>

datatype py_error =
    FileNotFoundError path
  | FileExistsError path
  | IsADirectoryError path
  | NotADirectoryError path
  | CalledProcessError int "string list"
  | HTTPError nat
  | ConnectionError
  | JSONDecodeError
  | KeyError string
  | TypeError string

subsection \<open>The world\<close>

text \<open>
  File contents: an audio file is known by its size in bytes and its duration in
  whole seconds (the audio itself is opaque to the script); a text file by its
  characters.
\<close>

datatype fdata = Audio nat nat | Text string

text \<open>
  Size in bytes of a file, as \<^verbatim>\<open>os.stat\<close> reports it.  Text is written UTF-8
  encoded; characters are read as code points below 256, which take one byte
  below 128 and two bytes above.
\<close>

fun utf8_len :: "string \<Rightarrow> nat" where
  "utf8_len [] = 0"
| "utf8_len (c # cs) = (if of_char c < (128::nat) then 1 else 2) + utf8_len cs"

fun fdata_size :: "fdata \<Rightarrow> nat" where
  "fdata_size (Audio n _) = n"
| "fdata_size (Text s) = utf8_len s"

record fsys =
  files :: "(path \<times> fdata) list"
  dirs :: "path list"

text \<open>What an HTTP response carries for the script: its status and its body
  decoded as JSON (\<open>None\<close> when the body is not JSON).\<close>

record response =
  status_code :: nat
  resp_json :: "jval option"

text \<open>The messages the script prints (their Ukrainian text is not modelled, only
  which message and its argument).\<close>

datatype msg =
    MsgTrimming string
  | MsgNoSilence
  | MsgSending path
  | MsgTooBig
  | MsgSmall
  | MsgDone path

text \<open>Observable actions, in the order they happen.\<close>

datatype event =
    Print msg
  | Exec "string list"
  | Posted path response
  | Opened path
  | Wrote path string

record world =
  fsys :: fsys
  trace :: "event list"

subsection \<open>External collaborators\<close>

text \<open>
  \<open>run_proc argv fs\<close> is \<^verbatim>\<open>subprocess.run(argv)\<close>: either the process cannot be
  started (an exception), or it runs to completion with an exit code and the text
  it wrote to stderr, leaving the file system \<open>fs'\<close>.  \<open>http_post url headers
  files data\<close> is \<^verbatim>\<open>requests.post\<close>: a transport exception or a response.
  \<open>api_key\<close> is \<^verbatim>\<open>config.OPENAI_API_KEY\<close>.
\<close>

record env =
  run_proc :: "string list \<Rightarrow> fsys \<Rightarrow> py_error + (int \<times> string \<times> fsys)"
  http_post :: "string \<Rightarrow> (string \<times> string) list \<Rightarrow> (string \<times> path \<times> fdata) list \<Rightarrow>
                (string \<times> string) list \<Rightarrow> py_error + response"
  api_key :: string

text \<open>A fixed environment, for instantiating the theorems at concrete inputs: every
  process exits with code \<open>rc\<close> and stderr \<open>err\<close> and leaves the file system
  as it was; every request gets the answer \<open>r\<close>.\<close>

definition fixed_env :: "int \<Rightarrow> string \<Rightarrow> py_error + response \<Rightarrow> env" where
  "fixed_env rc err r = \<lparr>run_proc = (\<lambda>_ fs. Inr (rc, err, fs)), http_post = (\<lambda>_ _ _ _. r),
                         api_key = ''sk-test''\<rparr>"

definition empty_world :: world where
  "empty_world = \<lparr>fsys = \<lparr>files = [], dirs = []\<rparr>, trace = []\<rparr>"

subsection \<open>The exception-and-state monad\<close>

type_synonym 'a pyio = "world \<Rightarrow> (py_error + 'a) \<times> world"

definition ret :: "'a \<Rightarrow> 'a pyio" where
  "ret x w = (Inr x, w)"

definition py_raise :: "py_error \<Rightarrow> 'a pyio" where
  "py_raise e w = (Inl e, w)"

definition pbind :: "'a pyio \<Rightarrow> ('a \<Rightarrow> 'b pyio) \<Rightarrow> 'b pyio" where
  "pbind m f w = (case m w of (Inl e, w') \<Rightarrow> (Inl e, w') | (Inr a, w') \<Rightarrow> f a w')"

definition pthen :: "unit pyio \<Rightarrow> 'b pyio \<Rightarrow> 'b pyio" where
  "pthen m k = pbind m (\<lambda>_. k)"

definition emit :: "event \<Rightarrow> unit pyio" where
  "emit e w = (Inr (), w\<lparr>trace := trace w @ [e]\<rparr>)"

definition of_sum :: "py_error + 'a \<Rightarrow> 'a pyio" where
  "of_sum r = (case r of Inl e \<Rightarrow> py_raise e | Inr a \<Rightarrow> ret a)"

text \<open>\<open>appends P m\<close>: running \<open>m\<close> only appends events to the trace, each
  satisfying \<open>P\<close>, whatever its outcome.\<close>

definition appends :: "(event \<Rightarrow> bool) \<Rightarrow> 'a pyio \<Rightarrow> bool" where
  "appends P m \<longleftrightarrow> (\<forall>w. \<exists>es. trace (snd (m w)) = trace w @ es \<and> list_all P es)"

named_theorems appends_intros "steps that append only events of a given kind"

text \<open>The monad laws and the evaluation of each operation on a world.\<close>

lemma pbind_ret [simp]: "pbind (ret x) f = f x"
  by (simp add: pbind_def ret_def fun_eq_iff)

lemma pbind_raise [simp]: "pbind (py_raise e) f = py_raise e"
  by (simp add: pbind_def py_raise_def fun_eq_iff)

lemma ret_pbind [simp]: "pbind m ret = m"
  by (simp add: pbind_def ret_def fun_eq_iff split: prod.splits sum.splits)

lemma pbind_assoc [simp]: "pbind (pbind m f) g = pbind m (\<lambda>x. pbind (f x) g)"
  by (simp add: pbind_def fun_eq_iff split: prod.splits sum.splits)

lemma pbind_apply [pyio_simps]:
  "pbind m f w = (case m w of (Inl e, w') \<Rightarrow> (Inl e, w') | (Inr a, w') \<Rightarrow> f a w')"
  by (rule pbind_def)

lemma ret_apply [pyio_simps]: "ret x w = (Inr x, w)"
  and raise_apply [pyio_simps]: "py_raise e w = (Inl e, w)"
  and emit_apply [pyio_simps]: "emit ev w = (Inr (), w\<lparr>trace := trace w @ [ev]\<rparr>)"
  by (simp_all add: ret_def py_raise_def emit_def)

lemma pthen_apply [pyio_simps]: "pthen m k = pbind m (\<lambda>_. k)"
  by (rule pthen_def)

lemma of_sum_simps [simp, pyio_simps]:
  "of_sum (Inl e) = py_raise e" "of_sum (Inr a) = ret a"
  by (simp_all add: of_sum_def)

lemma of_sum_apply [pyio_simps]: "of_sum r w = (r, w)"
  by (cases r) (simp_all add: ret_def py_raise_def)

text \<open>Shapes of a bind's outcome, for reasoning about a composed handler.\<close>

lemma pbind_Inr_E:
  assumes "pbind m f w = (Inr b, w'')"
  obtains a w' where "m w = (Inr a, w')" and "f a w' = (Inr b, w'')"
  using assms by (auto simp: pbind_def split: prod.splits sum.splits)

lemma pbind_Inl_cases:
  assumes "pbind m f w = (Inl e, w'')"
  obtains "m w = (Inl e, w'')"
  | a w' where "m w = (Inr a, w')" and "f a w' = (Inl e, w'')"
  using assms by (auto simp: pbind_def split: prod.splits sum.splits)

lemma pbind_cases:
  assumes "pbind m f w = (r, w'')"
  obtains e where "m w = (Inl e, w'')" and "r = Inl e"
  | a w' where "m w = (Inr a, w')" and "f a w' = (r, w'')"
  using assms by (auto simp: pbind_def split: prod.splits sum.splits)

subsection \<open>Generic lemmas on lists and association lists\<close>

lemma distinct_keys_update [simp]:
  "distinct (map fst xs) \<Longrightarrow> distinct (map fst (AList.update k v xs))"
  by (simp add: distinct_update)

lemma map_of_update_same [simp]: "map_of (AList.update k v xs) k = Some v"
  by (simp add: update_conv')

lemma map_of_update_other [simp]: "k' \<noteq> k \<Longrightarrow> map_of (AList.update k v xs) k' = map_of xs k'"
  by (simp add: update_conv')

subsection \<open>Appended events\<close>

lemma appends_I:
  "(\<And>w r w'. m w = (r, w') \<Longrightarrow> \<exists>es. trace w' = trace w @ es \<and> list_all P es) \<Longrightarrow> appends P m"
  by (simp add: appends_def) (metis prod.collapse)

lemma appends_E:
  assumes "appends P m" and "m w = (r, w')"
  obtains es where "trace w' = trace w @ es" and "list_all P es"
  using assms unfolding appends_def by (metis snd_conv)

lemma appends_same: "(\<And>w. trace (snd (m w)) = trace w) \<Longrightarrow> appends P m"
  by (simp add: appends_def)

lemma appends_ret [appends_intros]: "appends P (ret x)"
  and appends_raise [appends_intros]: "appends P (py_raise e)"
  and appends_of_sum [appends_intros]: "appends P (of_sum v)"
  by (rule appends_same; simp add: pyio_simps)+

lemma appends_emit [appends_intros]: "P ev \<Longrightarrow> appends P (emit ev)"
  by (simp add: appends_def pyio_simps)

lemma appends_pbind [appends_intros]:
  assumes "appends P m" and "\<And>a. appends P (f a)"
  shows "appends P (pbind m f)"
proof (rule appends_I)
  fix w r w''
  assume run: "pbind m f w = (r, w'')"
  show "\<exists>es. trace w'' = trace w @ es \<and> list_all P es"
  proof (cases rule: pbind_cases [OF run])
    case (1 e)
    with assms(1) show ?thesis by (blast elim: appends_E)
  next
    case (2 a w')
    from appends_E [OF assms(1) 2(1)] obtain es1 where "trace w' = trace w @ es1" "list_all P es1" .
    moreover from appends_E [OF assms(2) 2(2)] obtain es2 where
      "trace w'' = trace w' @ es2" "list_all P es2" .
    ultimately show ?thesis by (intro exI [of _ "es1 @ es2"]) simp
  qed
qed

lemma appends_pthen [appends_intros]: "appends P m \<Longrightarrow> appends P k \<Longrightarrow> appends P (pthen m k)"
  by (simp add: pthen_def appends_pbind)

lemma appends_if [appends_intros]: "appends P a \<Longrightarrow> appends P b \<Longrightarrow> appends P (if c then a else b)"
  by simp

lemma appends_case_option [appends_intros]:
  "appends P a \<Longrightarrow> (\<And>t. appends P (b t)) \<Longrightarrow> appends P (case x of None \<Rightarrow> a | Some t \<Rightarrow> b t)"
  by (cases x) simp_all

lemma appends_case_prod [appends_intros]:
  "(\<And>a b. appends P (f a b)) \<Longrightarrow> appends P (case x of (a, b) \<Rightarrow> f a b)"
  by (cases x) simp

lemma appends_case_sum [appends_intros]:
  "(\<And>e. appends P (a e)) \<Longrightarrow> (\<And>v. appends P (b v)) \<Longrightarrow> appends P (case x of Inl e \<Rightarrow> a e | Inr v \<Rightarrow> b v)"
  by (cases x) simp_all

end
