(* ===== verification/PyOs.thy ===== *)
theory PyOs
  imports Prelude
begin

text \<open>
  The part of the Python runtime the script calls, over the world of
  \<^theory_text>\<open>Prelude\<close>: \<^verbatim>\<open>os.path.join\<close>, \<^verbatim>\<open>str.endswith\<close>, \<^verbatim>\<open>str(int)\<close>,
  \<^verbatim>\<open>str.join\<close>, \<^verbatim>\<open>os.path.getsize\<close>, \<^verbatim>\<open>os.makedirs(exist_ok=True)\<close>,
  \<^verbatim>\<open>os.listdir\<close>, \<^verbatim>\<open>open\<close> for reading and for writing, \<^verbatim>\<open>f.write\<close>,
  \<^verbatim>\<open>print\<close> and \<^verbatim>\<open>subprocess.run\<close> with and without \<^verbatim>\<open>check=True\<close>.  Each
  follows the CPython library's documented behaviour on the cases the script
  can meet, raising the exception the library raises.
\<close>

subsection \<open>Strings and paths\<close>

text \<open>\<^verbatim>\<open>posixpath.join(a, b)\<close>: an absolute \<open>b\<close> replaces \<open>a\<close>; otherwise a
  separator is inserted unless \<open>a\<close> is empty or already ends with one.\<close>

definition py_join :: "path \<Rightarrow> path \<Rightarrow> path" where
  "py_join a b =
     (if take 1 b = ''/'' then b
      else if a = [] \<or> last a = CHR ''/'' then a @ b
      else a @ ''/'' @ b)"

definition endswith :: "string \<Rightarrow> string \<Rightarrow> bool" where
  "endswith s suf \<longleftrightarrow> length suf \<le> length s \<and> drop (length s - length suf) s = suf"

text \<open>\<^verbatim>\<open>str(n)\<close> for a non-negative integer: its decimal digits.\<close>

definition digit_char :: "nat \<Rightarrow> char" where
  "digit_char d = ''0123456789'' ! d"

fun nat_str :: "nat \<Rightarrow> string" where
  "nat_str n =
     (if n < 10 then [digit_char n]
      else nat_str (n div 10) @ [digit_char (n mod 10)])"

declare nat_str.simps [simp del]

text \<open>\<^verbatim>\<open>sep.join(xs)\<close>: every item must be a \<^verbatim>\<open>str\<close>, else \<^verbatim>\<open>TypeError\<close>.\<close>

fun strs_of :: "jval list \<Rightarrow> string list option" where
  "strs_of [] = Some []"
| "strs_of (JStr s # vs) = map_option (Cons s) (strs_of vs)"
| "strs_of (_ # vs) = None"

fun join_with :: "string \<Rightarrow> string list \<Rightarrow> string" where
  "join_with sep [] = []"
| "join_with sep [s] = s"
| "join_with sep (s # ss) = s @ sep @ join_with sep ss"

definition py_str_join :: "string \<Rightarrow> jval list \<Rightarrow> py_error + string" where
  "py_str_join sep vs =
     (case strs_of vs of
        None \<Rightarrow> Inl (TypeError ''sequence item: expected str instance'')
      | Some ss \<Rightarrow> Inr (join_with sep ss))"

text \<open>The proper ancestors of a path: its prefixes that end before a separator.\<close>

definition ancestors :: "path \<Rightarrow> path list" where
  "ancestors p = [take i p. i \<leftarrow> [1..<length p], p ! i = CHR ''/'']"

text \<open>\<open>child_name d q\<close>: the entry name of \<open>q\<close> when \<open>q\<close> lies directly in \<open>d\<close>.\<close>

definition child_name :: "path \<Rightarrow> path \<Rightarrow> string option" where
  "child_name d q =
     (let pre = d @ ''/''; n = drop (length pre) q in
      if take (length pre) q = pre \<and> n \<noteq> [] \<and> CHR ''/'' \<notin> set n then Some n else None)"

subsection \<open>The file system\<close>

definition is_file :: "fsys \<Rightarrow> path \<Rightarrow> bool" where
  "is_file fs p \<longleftrightarrow> map_of (files fs) p \<noteq> None"

definition is_dir :: "fsys \<Rightarrow> path \<Rightarrow> bool" where
  "is_dir fs p \<longleftrightarrow> p \<in> set (dirs fs)"

text \<open>\<^verbatim>\<open>os.path.getsize\<close>.  A directory reports the size of its inode's single
  block, 4096 bytes.\<close>

definition getsize :: "path \<Rightarrow> nat pyio" where
  "getsize p w =
     (case map_of (files (fsys w)) p of
        Some d \<Rightarrow> ret (fdata_size d) w
      | None \<Rightarrow> if is_dir (fsys w) p then ret 4096 w else py_raise (FileNotFoundError p) w)"

text \<open>\<^verbatim>\<open>os.makedirs(p, exist_ok=True)\<close>: creates the missing ancestors and \<open>p\<close>;
  an existing directory is accepted, an existing file is an error.\<close>

definition makedirs :: "path \<Rightarrow> unit pyio" where
  "makedirs p w =
     (let fs = fsys w in
      if is_file fs p then py_raise (FileExistsError p) w
      else if (\<exists>a \<in> set (ancestors p). is_file fs a) then py_raise (NotADirectoryError p) w
      else ret () (w\<lparr>fsys := fs\<lparr>dirs := dirs fs @
                     filter (\<lambda>a. \<not> is_dir fs a) (remdups (ancestors p @ [p]))\<rparr>\<rparr>))"

text \<open>The names of the files and directories directly in \<open>d\<close>, in the order
  the file table holds them (the OS gives no order).\<close>

definition dir_entries :: "fsys \<Rightarrow> path \<Rightarrow> string list" where
  "dir_entries fs d = remdups (List.map_filter (child_name d) (map fst (files fs) @ dirs fs))"

text \<open>\<^verbatim>\<open>os.listdir(d)\<close>.\<close>

definition listdir :: "path \<Rightarrow> string list pyio" where
  "listdir d w =
     (let fs = fsys w in
      if is_dir fs d then ret (dir_entries fs d) w
      else if is_file fs d then py_raise (NotADirectoryError d) w
      else py_raise (FileNotFoundError d) w)"

text \<open>\<^verbatim>\<open>open(p, "rb")\<close> followed by reading: the file's content.\<close>

definition open_read :: "path \<Rightarrow> fdata pyio" where
  "open_read p w =
     (case map_of (files (fsys w)) p of
        Some d \<Rightarrow> ret d w
      | None \<Rightarrow> if is_dir (fsys w) p then py_raise (IsADirectoryError p) w
                else py_raise (FileNotFoundError p) w)"

text \<open>\<^verbatim>\<open>open(p, "w")\<close>: creates or truncates the file; its parent directory must
  exist.\<close>

definition open_write :: "path \<Rightarrow> unit pyio" where
  "open_write p w =
     (let fs = fsys w in
      if is_dir fs p then py_raise (IsADirectoryError p) w
      else if ancestors p \<noteq> [] \<and> \<not> is_dir fs (last (ancestors p))
      then py_raise (FileNotFoundError p) w
      else emit (Opened p) (w\<lparr>fsys := fs\<lparr>files := AList.update p (Text []) (files fs)\<rparr>\<rparr>))"

text \<open>\<^verbatim>\<open>f.write(v)\<close> on the file just opened: \<open>v\<close> must be a \<^verbatim>\<open>str\<close>.\<close>

fun write_text :: "path \<Rightarrow> jval \<Rightarrow> unit pyio" where
  "write_text p (JStr s) =
     (\<lambda>w. emit (Wrote p s)
            (w\<lparr>fsys := (fsys w)\<lparr>files := AList.update p (Text s) (files (fsys w))\<rparr>\<rparr>))"
| "write_text p _ = py_raise (TypeError ''write() argument must be str'')"

definition py_print :: "msg \<Rightarrow> unit pyio" where
  "py_print m = emit (Print m)"

subsection \<open>Processes\<close>

text \<open>\<^verbatim>\<open>subprocess.run(argv)\<close>: the exit code and the stderr text; the code is
  not checked.\<close>

definition proc_run :: "env \<Rightarrow> string list \<Rightarrow> (int \<times> string) pyio" where
  "proc_run en argv =
     pthen (emit (Exec argv))
       (\<lambda>w. case run_proc en argv (fsys w) of
               Inl e \<Rightarrow> (Inl e, w)
             | Inr (rc, err, fs') \<Rightarrow> (Inr (rc, err), w\<lparr>fsys := fs'\<rparr>))"

text \<open>\<^verbatim>\<open>subprocess.run(argv, check=True)\<close>: a non-zero exit code raises
  \<^verbatim>\<open>CalledProcessError\<close>.\<close>

definition run_check :: "env \<Rightarrow> string list \<Rightarrow> unit pyio" where
  "run_check en argv =
     pbind (proc_run en argv)
       (\<lambda>(rc, _). if rc \<noteq> 0 then py_raise (CalledProcessError rc argv) else ret ())"

subsection \<open>Lemmas\<close>

lemma nat_str_digits: "set (nat_str n) \<subseteq> set ''0123456789''"
proof (induction n rule: nat_str.induct)
  case (1 n)
  have d: "digit_char k \<in> set ''0123456789''" if "k < 10" for k
  proof -
    have "k < length ''0123456789''" using that by simp
    then show ?thesis unfolding digit_char_def by (rule nth_mem)
  qed
  show ?case
  proof (cases "n < 10")
    case True
    then show ?thesis using d [OF True] by (auto simp: nat_str.simps [of n])
  next
    case False
    with "1.IH" show ?thesis using d [of "n mod 10"] by (auto simp: nat_str.simps [of n])
  qed
qed

lemma nat_str_small [simp]: "n < 10 \<Longrightarrow> nat_str n = [digit_char n]"
  by (simp add: nat_str.simps [of n])

lemma nat_str_large [simp]: "\<not> n < 10 \<Longrightarrow> nat_str n = nat_str (n div 10) @ [digit_char (n mod 10)]"
  by (simp add: nat_str.simps [of n])

lemma nat_str_300 [simp]: "nat_str 300 = ''300''"
  by (simp add: digit_char_def)

lemma strs_of_map_JStr [simp]: "strs_of (map JStr ss) = Some ss"
  by (induction ss) auto

lemma py_str_join_strs [simp]: "py_str_join sep (map JStr ss) = Inr (join_with sep ss)"
  by (simp add: py_str_join_def)

lemma child_name_join:
  assumes "d \<noteq> []" "last d \<noteq> CHR ''/''" "n \<noteq> []" "CHR ''/'' \<notin> set n"
  shows "child_name d (py_join d n) = Some n"
proof -
  have "take 1 n \<noteq> ''/''" using assms(3,4) by (cases n) auto
  then show ?thesis using assms by (simp add: child_name_def py_join_def Let_def)
qed

lemma child_name_SomeD:
  assumes "child_name d q = Some n"
  shows "q = d @ ''/'' @ n \<and> n \<noteq> [] \<and> CHR ''/'' \<notin> set n"
proof -
  let ?k = "length (d @ ''/'')"
  from assms have t: "take ?k q = d @ ''/''" and n: "n = drop ?k q"
    and "n \<noteq> []" "CHR ''/'' \<notin> set n"
    by (auto simp: child_name_def Let_def split: if_splits)
  have "q = take ?k q @ drop ?k q" by simp
  with t n have "q = d @ ''/'' @ n" by simp
  with \<open>n \<noteq> []\<close> \<open>CHR ''/'' \<notin> set n\<close> show ?thesis by simp
qed

lemma list_comp_filter: "[f x. x \<leftarrow> xs, P x] = map f (filter P xs)"
  by (induction xs) auto

lemma ancestors_conv:
  "ancestors p = map (\<lambda>i. take i p) (filter (\<lambda>i. p ! i = CHR ''/'') [1..<length p])"
  by (simp add: ancestors_def list_comp_filter)

lemma mem_ancestors:
  "a \<in> set (ancestors p) \<longleftrightarrow> (\<exists>i. 1 \<le> i \<and> i < length p \<and> p ! i = CHR ''/'' \<and> a = take i p)"
  by (auto simp: ancestors_conv)

lemma ancestors_no_slash: "CHR ''/'' \<notin> set p \<Longrightarrow> ancestors p = []"
  by (auto simp: ancestors_conv filter_empty_conv) (metis nth_mem)

text \<open>The events each operation appends.\<close>

lemma appends_getsize [appends_intros]: "appends P (getsize p)"
  and appends_makedirs [appends_intros]: "appends P (makedirs p)"
  and appends_listdir [appends_intros]: "appends P (listdir p)"
  and appends_open_read [appends_intros]: "appends P (open_read p)"
  by (rule appends_same; simp add: getsize_def makedirs_def listdir_def open_read_def Let_def
      pyio_simps split: option.split)+

lemma appends_print [appends_intros]: "P (Print m) \<Longrightarrow> appends P (py_print m)"
  by (simp add: py_print_def appends_emit)

lemma appends_proc_run [appends_intros]: "P (Exec argv) \<Longrightarrow> appends P (proc_run en argv)"
  by (rule appends_I) (auto simp: proc_run_def pyio_simps split: sum.splits prod.splits)

lemma appends_run_check [appends_intros]: "P (Exec argv) \<Longrightarrow> appends P (run_check en argv)"
  unfolding run_check_def by (intro appends_intros)

lemma appends_open_write [appends_intros]: "P (Opened p) \<Longrightarrow> appends P (open_write p)"
  by (rule appends_I) (auto simp: open_write_def Let_def pyio_simps split: if_splits)

lemma appends_write_text [appends_intros]: "(\<And>s. P (Wrote p s)) \<Longrightarrow> appends P (write_text p v)"
  by (cases v) (simp_all add: appends_def pyio_simps)

end
