(* ===== verification/SilenceDetect.thy ===== *)
theory SilenceDetect
  imports PyOs
begin

text \<open>
  \<^verbatim>\<open>detect_voice_start\<close> (\<^verbatim>\<open>src/transcribe.py\<close>, lines 17--33): runs
  \<^verbatim>\<open>ffmpeg\<close> with the \<^verbatim>\<open>silencedetect\<close> filter and scans its stderr with
  \<^verbatim>\<open>re.search(r"silence_end:\s*([\d\.]+)", ...)\<close>.  The scan is \<open>re_search\<close>:
  at each position from the left, \<open>match_at\<close> tries the pattern the way the
  backtracking engine does (greedy \<^verbatim>\<open>\s*\<close>, then a greedy non-empty run of
  \<^verbatim>\<open>[\d.]\<close>).  \<open>regex_at\<close> is the pattern's meaning stated declaratively, and
  \<open>re_search_spec\<close> proves the scan returns the group of the leftmost match.
  Characters are code points below 256: \<^verbatim>\<open>\s\<close> is what \<^verbatim>\<open>str.isspace\<close>
  accepts there, \<^verbatim>\<open>\d\<close> the ASCII digits (the only decimal digits below 256).
\<close>

subsection \<open>The pattern\<close>

definition is_py_space :: "char \<Rightarrow> bool" where
  "is_py_space c \<longleftrightarrow>
     (let n = of_char c :: nat in (9 \<le> n \<and> n \<le> 13) \<or> (28 \<le> n \<and> n \<le> 32) \<or> n = 133 \<or> n = 160)"

definition is_re_digit :: "char \<Rightarrow> bool" where
  "is_re_digit c \<longleftrightarrow> (let n = of_char c :: nat in 48 \<le> n \<and> n \<le> 57)"

text \<open>The character class \<^verbatim>\<open>[\d\.]\<close>.\<close>

definition is_num_char :: "char \<Rightarrow> bool" where
  "is_num_char c \<longleftrightarrow> is_re_digit c \<or> c = CHR ''.''"

definition silence_key :: string where
  "silence_key = ''silence_end:''"

text \<open>One attempt of the engine at the start of \<open>s\<close>: the literal, then all
  the whitespace (giving whitespace back cannot help, as no whitespace is in
  \<^verbatim>\<open>[\d.]\<close>), then the longest run of the class, which must be non-empty.\<close>

definition match_at :: "string \<Rightarrow> string option" where
  "match_at s =
     (if take (length silence_key) s = silence_key then
        (let g = takeWhile is_num_char (dropWhile is_py_space (drop (length silence_key) s))
         in if g = [] then None else Some g)
      else None)"

text \<open>\<^verbatim>\<open>re.search\<close>: the first position from the left where an attempt succeeds;
  \<^verbatim>\<open>match.group(1)\<close> is the group of that attempt.\<close>

fun re_search :: "string \<Rightarrow> string option" where
  "re_search [] = match_at []"
| "re_search (c # t) = (case match_at (c # t) of Some g \<Rightarrow> Some g | None \<Rightarrow> re_search t)"

text \<open>The meaning of the pattern at the start of \<open>s\<close> with group \<open>g\<close>: the
  literal, whitespace, the group of class characters, and nothing of the class
  after it (the group is greedy).\<close>

definition regex_at :: "string \<Rightarrow> string \<Rightarrow> bool" where
  "regex_at s g \<longleftrightarrow>
     (\<exists>ws rest. s = silence_key @ ws @ g @ rest \<and> list_all is_py_space ws \<and> g \<noteq> [] \<and>
                list_all is_num_char g \<and> takeWhile is_num_char rest = [])"

subsection \<open>The process\<close>

definition silencedetect_cmd :: "path \<Rightarrow> string list" where
  "silencedetect_cmd fp =
     [''ffmpeg'', ''-i'', fp, ''-af'', ''silencedetect=noise=-40dB:d=0.5'', ''-f'', ''null'', ''-'']"

definition detect_voice_start :: "env \<Rightarrow> path \<Rightarrow> string option pyio" where
  "detect_voice_start en fp =
     pbind (proc_run en (silencedetect_cmd fp)) (\<lambda>(_, err). ret (re_search err))"

subsection \<open>The stderr of the silencedetect filter\<close>

text \<open>
  What \<^verbatim>\<open>ffmpeg\<close> writes for each silence it detects (an interval with its
  start, end and duration, printed as decimal numbers): a \<^verbatim>\<open>silence_start\<close>
  line and a \<^verbatim>\<open>silence_end\<close> line, each tagged with the filter instance's
  address.  This is the tool's documented output, not code of the repository.
\<close>

definition sd_start_line :: "string \<Rightarrow> string \<Rightarrow> string" where
  "sd_start_line addr st = ''[silencedetect @ '' @ addr @ ''] silence_start: '' @ st @ ''\<newline>''"

definition sd_end_line :: "string \<Rightarrow> string \<Rightarrow> string \<Rightarrow> string" where
  "sd_end_line addr en du =
     ''[silencedetect @ '' @ addr @ ''] silence_end: '' @ en @ '' | silence_duration: '' @ du @ ''\<newline>''"

fun sd_log :: "string \<Rightarrow> (string \<times> string \<times> string) list \<Rightarrow> string" where
  "sd_log addr [] = []"
| "sd_log addr ((st, en, du) # ivs) = sd_start_line addr st @ sd_end_line addr en du @ sd_log addr ivs"

text \<open>A printed number: a non-empty run of \<^verbatim>\<open>[\d.]\<close>.\<close>

definition is_num_text :: "string \<Rightarrow> bool" where
  "is_num_text t \<longleftrightarrow> t \<noteq> [] \<and> list_all is_num_char t"

text \<open>A character at which no attempt can extend: not in the literal, not
  whitespace, not of the class.\<close>

definition stop_char :: "char \<Rightarrow> bool" where
  "stop_char c \<longleftrightarrow> c \<notin> set silence_key \<and> \<not> is_py_space c \<and> \<not> is_num_char c"

subsection \<open>Character classes\<close>

lemma num_not_space [simp]: "is_num_char c \<Longrightarrow> \<not> is_py_space c"
  by (auto simp: is_num_char_def is_re_digit_def is_py_space_def Let_def)

lemma silence_key_length [simp]: "length silence_key = 12"
  by (simp add: silence_key_def)

lemma s_not_num [simp]: "\<not> is_num_char (CHR ''s'')"
  by (simp add: is_num_char_def is_re_digit_def)

lemma match_at_not_s: "c \<noteq> CHR ''s'' \<Longrightarrow> match_at (c # t) = None"
  by (simp add: match_at_def silence_key_def)

lemma match_at_Nil [simp]: "match_at [] = None"
  by (simp add: match_at_def silence_key_def)

subsection \<open>The attempt at one position against the pattern's meaning\<close>

lemma takeWhile_dropWhile_Nil [simp]: "takeWhile P (dropWhile P xs) = []"
  by (induction xs) auto

lemma match_at_regex_at: "match_at s = Some g \<Longrightarrow> regex_at s g"
proof -
  assume m: "match_at s = Some g"
  let ?r = "drop 12 s"
  let ?ws = "takeWhile is_py_space ?r"
  let ?r' = "dropWhile is_py_space ?r"
  have key: "take 12 s = silence_key" and g: "g = takeWhile is_num_char ?r'" and "g \<noteq> []"
    using m by (auto simp: match_at_def Let_def split: if_splits)
  have "s = silence_key @ ?ws @ g @ dropWhile is_num_char ?r'"
    using key g by (metis append_take_drop_id takeWhile_dropWhile_id)
  moreover have "list_all is_py_space ?ws" and "list_all is_num_char g"
    using g by (auto simp: list_all_iff dest: set_takeWhileD)
  ultimately show "regex_at s g"
    unfolding regex_at_def using \<open>g \<noteq> []\<close>
    by (intro exI [of _ ?ws] exI [of _ "dropWhile is_num_char ?r'"]) simp
qed

lemma regex_at_match_at: "regex_at s g \<Longrightarrow> match_at s = Some g"
proof -
  assume "regex_at s g"
  then obtain ws rest where s: "s = silence_key @ ws @ g @ rest"
    and ws: "list_all is_py_space ws" and "g \<noteq> []" and g: "list_all is_num_char g"
    and rest: "takeWhile is_num_char rest = []"
    by (auto simp: regex_at_def)
  from \<open>g \<noteq> []\<close> g have "\<not> is_py_space (hd g)"
    by (cases g) auto
  with ws \<open>g \<noteq> []\<close> have "dropWhile is_py_space (ws @ g @ rest) = g @ rest"
    by (cases g) (auto simp: list_all_iff dropWhile_append2)
  moreover from g rest have "takeWhile is_num_char (g @ rest) = g"
    by (simp add: list_all_iff takeWhile_append2)
  ultimately show "match_at s = Some g"
    using s \<open>g \<noteq> []\<close> by (simp add: match_at_def Let_def)
qed

lemma match_at_iff: "match_at s = Some g \<longleftrightarrow> regex_at s g"
  using match_at_regex_at regex_at_match_at by blast

lemma match_at_nonempty: "match_at s = Some g \<Longrightarrow> g \<noteq> [] \<and> list_all is_num_char g"
  by (auto simp: match_at_iff regex_at_def)

subsection \<open>The scan\<close>

lemma re_search_Some_iff:
  "re_search s = Some g \<longleftrightarrow>
     (\<exists>i. match_at (drop i s) = Some g \<and> (\<forall>k<i. match_at (drop k s) = None))"
proof (induction s)
  case Nil
  show ?case by simp
next
  case (Cons c t)
  show ?case
  proof (cases "match_at (c # t)")
    case None
    have "(\<exists>i. match_at (drop i (c # t)) = Some g \<and> (\<forall>k<i. match_at (drop k (c # t)) = None))
        \<longleftrightarrow> (\<exists>i. match_at (drop i t) = Some g \<and> (\<forall>k<i. match_at (drop k t) = None))"
    proof
      assume "\<exists>i. match_at (drop i (c # t)) = Some g \<and> (\<forall>k<i. match_at (drop k (c # t)) = None)"
      then obtain i where i: "match_at (drop i (c # t)) = Some g"
        and before: "\<forall>k<i. match_at (drop k (c # t)) = None" by blast
      with None obtain j where "i = Suc j" by (cases i) auto
      with i before show "\<exists>i. match_at (drop i t) = Some g \<and> (\<forall>k<i. match_at (drop k t) = None)"
        by (metis Suc_mono drop_Suc_Cons)
    next
      assume "\<exists>i. match_at (drop i t) = Some g \<and> (\<forall>k<i. match_at (drop k t) = None)"
      then obtain i where i: "match_at (drop i t) = Some g"
        and before: "\<forall>k<i. match_at (drop k t) = None" by blast
      have "\<forall>k<Suc i. match_at (drop k (c # t)) = None"
      proof (intro allI impI)
        fix k assume "k < Suc i"
        with None before show "match_at (drop k (c # t)) = None"
          by (cases k) auto
      qed
      with i show "\<exists>i. match_at (drop i (c # t)) = Some g \<and> (\<forall>k<i. match_at (drop k (c # t)) = None)"
        by (metis drop_Suc_Cons)
    qed
    with None Cons.IH show ?thesis by simp
  next
    case (Some g')
    have "g' = g" if "match_at (drop i (c # t)) = Some g"
      and "\<forall>k<i. match_at (drop k (c # t)) = None" for i
    proof (cases i)
      case 0
      with that Some show ?thesis by simp
    next
      case (Suc j)
      with that(2) Some show ?thesis by (metis drop0 option.distinct(1) zero_less_Suc)
    qed
    with Some show ?thesis by (auto intro: exI [where x = 0])
  qed
qed

lemma re_search_None_iff: "re_search s = None \<longleftrightarrow> (\<forall>k. match_at (drop k s) = None)"
proof (induction s)
  case Nil
  then show ?case by simp
next
  case (Cons c t)
  show ?case
  proof
    assume "re_search (c # t) = None"
    with Cons.IH have "match_at (c # t) = None" and "\<forall>k. match_at (drop k t) = None"
      by (auto split: option.splits)
    then show "\<forall>k. match_at (drop k (c # t)) = None"
      by (metis drop0 drop_Suc_Cons not0_implies_Suc)
  next
    assume a: "\<forall>k. match_at (drop k (c # t)) = None"
    then have "\<forall>k. match_at (drop k t) = None"
      by (metis drop_Suc_Cons)
    with a [THEN spec [of _ 0]] Cons.IH show "re_search (c # t) = None" by simp
  qed
qed

lemma re_search_nonempty: "re_search s = Some g \<Longrightarrow> g \<noteq> [] \<and> list_all is_num_char g"
  using re_search_Some_iff match_at_nonempty by blast

subsection \<open>The scan on the filter's output\<close>

lemma re_search_skip: "CHR ''s'' \<notin> set xs \<Longrightarrow> re_search (xs @ ys) = re_search ys"
  by (induction xs) (auto simp: match_at_not_s)

lemma takeWhile_stop: "\<not> P c \<Longrightarrow> takeWhile P (v @ c # r) = takeWhile P v"
  by (induction v) auto

lemma dropWhile_stop: "\<not> P c \<Longrightarrow> dropWhile P (v @ c # r) = dropWhile P v @ c # r"
  by (induction v) auto

lemma num_text_no_s: "is_num_text t \<Longrightarrow> CHR ''s'' \<notin> set t"
  by (auto simp: is_num_text_def list_all_iff)

lemma dropWhile_space_num_text: "is_num_text g \<Longrightarrow> dropWhile is_py_space (g @ x) = g @ x"
  by (cases g) (auto simp: is_num_text_def)

lemma takeWhile_num_text: "is_num_text g \<Longrightarrow> takeWhile is_num_char (g @ x) = g @ takeWhile is_num_char x"
  by (simp add: is_num_text_def list_all_iff takeWhile_append2)

lemma first_lines:
  assumes "CHR ''s'' \<notin> set addr" "is_num_text st" "is_num_text en"
  shows "re_search (sd_start_line addr st @ sd_end_line addr en du @ rest) = Some en"
proof -
  have st: "CHR ''s'' \<notin> set st" using assms(2) by (rule num_text_no_s)
  have m: "match_at (''silence_end: '' @ en @ '' | silence_duration: '' @ du @ ''\<newline>'' @ rest) = Some en"
    using assms(3) by (simp add: is_num_text_def match_at_def silence_key_def is_py_space_def dropWhile_space_num_text takeWhile_num_text is_num_char_def is_re_digit_def)
  show ?thesis
    using assms st m by (simp add: sd_start_line_def sd_end_line_def re_search_skip match_at_def silence_key_def)
qed

lemma take_stop: "length u < n \<Longrightarrow> c \<in> set (take n (u @ c # r))"
  by (cases "n - length u") (auto simp: take_append)

lemma match_at_stop:
  assumes "stop_char c"
  shows "match_at (u @ c # r) = match_at (u @ [c])"
proof (cases "length u < 12")
  case True
  then have "c \<in> set (take 12 (u @ c # r))" "c \<in> set (take 12 (u @ [c]))"
    using take_stop [of u 12 c r] take_stop [of u 12 c "[]"] by simp_all
  moreover have "c \<notin> set silence_key" using assms by (simp add: stop_char_def)
  ultimately have "take 12 (u @ c # r) \<noteq> silence_key" "take 12 (u @ [c]) \<noteq> silence_key"
    by metis+
  then show ?thesis by (simp add: match_at_def)
next
  case False
  with assms show ?thesis
    by (simp add: match_at_def stop_char_def dropWhile_stop takeWhile_stop)
qed

lemma stop_bracket: "stop_char (CHR ''['')"
  by (simp add: stop_char_def silence_key_def is_py_space_def is_num_char_def is_re_digit_def)

lemma re_search_banner:
  assumes "stop_char c" "re_search (b @ [c]) = None"
  shows "re_search (b @ c # r) = re_search (c # r)"
  using assms(2)
proof (induction b)
  case Nil
  then show ?case by simp
next
  case (Cons x b)
  from Cons.prems have m: "match_at (x # b @ [c]) = None" and "re_search (b @ [c]) = None"
    by (auto split: option.splits)
  moreover have "match_at (x # b @ c # r) = match_at (x # b @ [c])"
    using match_at_stop [OF assms(1), of "x # b" r] by simp
  ultimately show ?case using Cons.IH by simp
qed

subsection \<open>Properties\<close>

text \<open>
  C10 (equivalence).  The scan of \<^verbatim>\<open>detect_voice_start\<close> returns the group
  \<open>g\<close> exactly when the pattern matches with group \<open>g\<close> at some position
  and at no earlier position: it implements \<^verbatim>\<open>re.search\<close> of the pattern.
\<close>

theorem re_search_spec:
  "re_search s = Some g \<longleftrightarrow>
     (\<exists>i. regex_at (drop i s) g \<and> (\<forall>k<i. \<forall>g'. \<not> regex_at (drop k s) g'))"
proof -
  have "(\<forall>k<i. match_at (drop k s) = None) \<longleftrightarrow> (\<forall>k<i. \<forall>g'. \<not> regex_at (drop k s) g')" for i
    by (metis match_at_iff not_Some_eq)
  then show ?thesis by (simp add: re_search_Some_iff match_at_iff)
qed

theorem re_search_spec_witness:
  "\<exists>i. regex_at (drop i ''x silence_end: 2.5 |'') ''2.5'' \<and>
       (\<forall>k<i. \<forall>g'. \<not> regex_at (drop k ''x silence_end: 2.5 |'') g')"
proof -
  have "re_search ''x silence_end: 2.5 |'' = Some ''2.5''"
    by (simp add: match_at_def silence_key_def is_py_space_def is_num_char_def is_re_digit_def)
  then show ?thesis using re_search_spec by blast
qed

text \<open>The scan on the filter's output finds the first silence's end.\<close>

lemma re_search_sd_log:
  assumes "re_search (banner @ ''['') = None" and "CHR ''s'' \<notin> set addr"
    and "is_num_text st" and "is_num_text en"
  shows "re_search (banner @ sd_log addr ((st, en, du) # ivs) @ tail) = Some en"
proof -
  have "banner @ sd_log addr ((st, en, du) # ivs) @ tail =
        banner @ CHR ''['' # drop 1 (sd_start_line addr st @ sd_end_line addr en du @ sd_log addr ivs @ tail)"
    by (simp add: sd_start_line_def)
  also have "re_search \<dots> = re_search (sd_start_line addr st @ sd_end_line addr en du @ (sd_log addr ivs @ tail))"
    using re_search_banner [OF stop_bracket assms(1)] by (simp add: sd_start_line_def)
  also have "\<dots> = Some en"
    using assms(2-4) by (rule first_lines)
  finally show ?thesis .
qed

text \<open>
  C11 (roundtrip).  On the stderr of the \<^verbatim>\<open>silencedetect\<close> run (any banner
  without a match, then the filter's lines for the detected silences, then
  anything), the scan returns the end of the first detected silence, printed
  as \<^verbatim>\<open>ffmpeg\<close> printed it, wherever that silence lies in the recording.
\<close>

theorem detect_log_first_end:
  assumes "re_search (banner @ ''['') = None" and "CHR ''s'' \<notin> set addr"
    and "is_num_text st" and "is_num_text en"
  shows "re_search (banner @ sd_log addr ((st, en, du) # ivs) @ tail) = Some en"
  using assms by (rule re_search_sd_log)

theorem detect_log_first_end_witness:
  "re_search (''ffmpeg version 6'' @ sd_log ''0x5f'' [(''12.5'', ''14.25'', ''1.75''), (''0'', ''3'', ''3'')] @ ''size=N/A'')
     = Some ''14.25''"
proof -
  have "re_search (''ffmpeg version 6'' @ ''['') = None"
    by (simp add: match_at_def silence_key_def)
  moreover have "CHR ''s'' \<notin> set ''0x5f''" by simp
  moreover have "is_num_text ''12.5''" "is_num_text ''14.25''"
    by (simp_all add: is_num_text_def is_num_char_def is_re_digit_def)
  ultimately show ?thesis by (rule detect_log_first_end)
qed

end
