(* ===== verification/Trim.thy ===== *)
theory Trim
  imports SilenceDetect
begin

text \<open>
  \<^verbatim>\<open>trim_silence\<close> (\<^verbatim>\<open>src/transcribe.py\<close>, lines 35--50): asks
  \<^verbatim>\<open>detect_voice_start\<close> for the end of the first detected silence; if there is
  one (a non-empty string: Python's \<^verbatim>\<open>if start_time:\<close>), re-encodes the input
  from that time on into \<open>output_path\<close> with \<^verbatim>\<open>check=True\<close> and returns
  \<open>output_path\<close>, otherwise returns the input path unchanged.
\<close>

definition trim_cmd :: "path \<Rightarrow> string \<Rightarrow> path \<Rightarrow> string list" where
  "trim_cmd fp st op = [''ffmpeg'', ''-i'', fp, ''-ss'', st, ''-c:a'', ''aac'', ''-b:a'', ''128k'', op]"

definition trim_silence :: "env \<Rightarrow> path \<Rightarrow> path \<Rightarrow> path pyio" where
  "trim_silence en fp op =
     pbind (detect_voice_start en fp) (\<lambda>start_time.
       case start_time of
         Some t \<Rightarrow>
           if t \<noteq> [] then
             pthen (py_print (MsgTrimming t)) (pthen (run_check en (trim_cmd fp t op)) (ret op))
           else pthen (py_print MsgNoSilence) (ret fp)
       | None \<Rightarrow> pthen (py_print MsgNoSilence) (ret fp))"

subsection \<open>Characteristic equations\<close>

lemma proc_run_apply:
  "proc_run en argv w =
     (case run_proc en argv (fsys w) of
        Inl e \<Rightarrow> (Inl e, w\<lparr>trace := trace w @ [Exec argv]\<rparr>)
      | Inr (rc, err, fs') \<Rightarrow> (Inr (rc, err), w\<lparr>fsys := fs', trace := trace w @ [Exec argv]\<rparr>))"
  by (simp add: proc_run_def pyio_simps split: sum.splits prod.splits)

lemma run_check_apply:
  "run_check en argv w =
     (case run_proc en argv (fsys w) of
        Inl e \<Rightarrow> (Inl e, w\<lparr>trace := trace w @ [Exec argv]\<rparr>)
      | Inr (rc, err, fs') \<Rightarrow>
          ((if rc \<noteq> 0 then Inl (CalledProcessError rc argv) else Inr ()),
           w\<lparr>fsys := fs', trace := trace w @ [Exec argv]\<rparr>))"
  by (simp add: run_check_def proc_run_apply pyio_simps split: sum.splits prod.splits)

lemma detect_voice_start_apply:
  "detect_voice_start en fp w =
     (case run_proc en (silencedetect_cmd fp) (fsys w) of
        Inl e \<Rightarrow> (Inl e, w\<lparr>trace := trace w @ [Exec (silencedetect_cmd fp)]\<rparr>)
      | Inr (rc, err, fs') \<Rightarrow>
          (Inr (re_search err), w\<lparr>fsys := fs', trace := trace w @ [Exec (silencedetect_cmd fp)]\<rparr>))"
  by (simp add: detect_voice_start_def proc_run_apply pyio_simps split: sum.splits prod.splits)

lemmas trim_simps = trim_silence_def detect_voice_start_apply run_check_apply py_print_def pyio_simps

text \<open>\<^verbatim>\<open>trim_silence\<close> returns either of its two paths.\<close>

lemma trim_silence_result: "trim_silence en fp op w = (Inr a, w') \<Longrightarrow> a = fp \<or> a = op"
  by (auto simp: trim_simps split: sum.splits prod.splits option.splits if_splits)

subsection \<open>Properties\<close>

text \<open>
  C24 (functional).  When the detection run's stderr holds no marker,
  \<^verbatim>\<open>trim_silence\<close> never fails: it prints the no-silence message and returns
  the original path itself, with no re-encoding run.
\<close>

theorem trim_silence_no_marker:
  assumes "run_proc en (silencedetect_cmd fp) (fsys w) = Inr (rc, err, fs')"
    and "re_search err = None"
  shows "trim_silence en fp op w =
           (Inr fp, w\<lparr>fsys := fs', trace := trace w @ [Exec (silencedetect_cmd fp), Print MsgNoSilence]\<rparr>)"
  using assms by (simp add: trim_simps)

theorem trim_silence_no_marker_witness:
  "trim_silence (fixed_env 1 ''No such file'' (Inl ConnectionError)) ''in.mp4'' ''out.mp4'' empty_world =
     (Inr ''in.mp4'', empty_world\<lparr>trace := [Exec (silencedetect_cmd ''in.mp4''), Print MsgNoSilence]\<rparr>)"
proof -
  have h1: "run_proc (fixed_env 1 ''No such file'' (Inl ConnectionError)) (silencedetect_cmd ''in.mp4'')
              (fsys empty_world) = Inr (1, ''No such file'', fsys empty_world)"
    by (simp add: fixed_env_def)
  have h2: "re_search ''No such file'' = None"
    by (simp add: match_at_def silence_key_def)
  from trim_silence_no_marker [OF h1 h2, of "''out.mp4''"] show ?thesis
    by (simp add: empty_world_def)
qed

text \<open>
  C23 (functional).  When a marker \<open>t\<close> is found (including \<^verbatim>\<open>"0"\<close>: a
  found marker is never taken for "not found"), \<^verbatim>\<open>trim_silence\<close> re-encodes
  from \<open>t\<close> into the output path with exactly the source's arguments, returns the
  output path on exit code 0 and raises \<^verbatim>\<open>CalledProcessError\<close> otherwise.
\<close>

theorem trim_silence_marker:
  assumes "run_proc en (silencedetect_cmd fp) (fsys w) = Inr (rc, err, fs')"
    and "re_search err = Some t"
    and "run_proc en (trim_cmd fp t op) fs' = Inr (rc', err', fs'')"
  shows "trim_silence en fp op w =
           ((if rc' \<noteq> 0 then Inl (CalledProcessError rc' (trim_cmd fp t op)) else Inr op),
            w\<lparr>fsys := fs'', trace := trace w @
               [Exec (silencedetect_cmd fp), Print (MsgTrimming t), Exec (trim_cmd fp t op)]\<rparr>)"
proof -
  from assms(2) have "t \<noteq> []" by (simp add: re_search_nonempty)
  with assms show ?thesis by (simp add: trim_simps)
qed

theorem trim_silence_marker_witness:
  "trim_silence (fixed_env 0 ''x silence_end: 0 | y'' (Inl ConnectionError)) ''in.mp4'' ''out.mp4''
      empty_world =
     (Inr ''out.mp4'', empty_world\<lparr>trace := [Exec (silencedetect_cmd ''in.mp4''),
        Print (MsgTrimming ''0''), Exec (trim_cmd ''in.mp4'' ''0'' ''out.mp4'')]\<rparr>)"
proof -
  let ?en = "fixed_env 0 ''x silence_end: 0 | y'' (Inl ConnectionError)"
  have h1: "run_proc ?en (silencedetect_cmd ''in.mp4'') (fsys empty_world)
              = Inr (0, ''x silence_end: 0 | y'', fsys empty_world)"
    and h3: "run_proc ?en (trim_cmd ''in.mp4'' ''0'' ''out.mp4'') (fsys empty_world)
              = Inr (0, ''x silence_end: 0 | y'', fsys empty_world)"
    by (simp_all add: fixed_env_def)
  have h2: "re_search ''x silence_end: 0 | y'' = Some ''0''"
    by (simp add: match_at_def silence_key_def is_py_space_def is_num_char_def is_re_digit_def)
  from trim_silence_marker [OF h1 h2 h3] show ?thesis
    by (simp add: empty_world_def)
qed

text \<open>
  C29 (error).  If the detection process cannot be started, the exception
  propagates out of \<^verbatim>\<open>trim_silence\<close> (the run's exit code is otherwise never
  looked at).
\<close>

theorem trim_silence_spawn_error:
  assumes "run_proc en (silencedetect_cmd fp) (fsys w) = Inl e"
  shows "trim_silence en fp op w = (Inl e, w\<lparr>trace := trace w @ [Exec (silencedetect_cmd fp)]\<rparr>)"
  using assms by (simp add: trim_simps)

theorem trim_silence_spawn_error_witness:
  "trim_silence \<lparr>run_proc = (\<lambda>_ _. Inl (FileNotFoundError ''ffmpeg'')),
                  http_post = (\<lambda>_ _ _ _. Inl ConnectionError), api_key = ''k''\<rparr>
      ''in.mp4'' ''out.mp4'' empty_world =
     (Inl (FileNotFoundError ''ffmpeg''), empty_world\<lparr>trace := [Exec (silencedetect_cmd ''in.mp4'')]\<rparr>)"
proof -
  have h: "run_proc \<lparr>run_proc = (\<lambda>_ _. Inl (FileNotFoundError ''ffmpeg'')),
                  http_post = (\<lambda>_ _ _ _. Inl ConnectionError), api_key = ''k''\<rparr>
             (silencedetect_cmd ''in.mp4'') (fsys empty_world) = Inl (FileNotFoundError ''ffmpeg'')"
    by simp
  from trim_silence_spawn_error [OF h, of "''out.mp4''"] show ?thesis
    by (simp add: empty_world_def)
qed

end
