(* ===== verification/FileSize.thy ===== *)
theory FileSize
  imports Complex_Main PyOs
begin

text \<open>
  The module constants of \<^verbatim>\<open>src/transcribe.py\<close> (lines 7--12) and
  \<^verbatim>\<open>get_file_size\<close> (lines 14--15).  Python's true division of the byte count
  by \<open>1024 * 1024\<close> is modelled exactly in \<open>rat\<close>: the float the code computes is
  the correctly rounded quotient, rounding is monotone and 25 is a float, so the
  comparison with the limit has the same outcome on the float and on the exact
  quotient.
\<close>

definition AUDIO_FILE :: path where
  "AUDIO_FILE = ''audio/2025-03-08-audio.mp4''"

definition TRIMMED_AUDIO_FILE :: path where
  "TRIMMED_AUDIO_FILE = ''audio/trimmed_lecture.mp4''"

definition FILE_SIZE_LIMIT_MB :: nat where
  "FILE_SIZE_LIMIT_MB = 25"

definition get_file_size :: "path \<Rightarrow> rat pyio" where
  "get_file_size p = pbind (getsize p) (\<lambda>n. ret (of_nat n / of_nat (1024 * 1024)))"

text \<open>The script's test \<^verbatim>\<open>get_file_size(AUDIO_FILE) > FILE_SIZE_LIMIT_MB\<close>.\<close>

definition over_limit :: "rat \<Rightarrow> bool" where
  "over_limit mb \<longleftrightarrow> mb > of_nat FILE_SIZE_LIMIT_MB"

lemma over_limit_bytes: "over_limit (of_nat n / of_nat (1024 * 1024)) \<longleftrightarrow> 26214400 < n"
proof -
  have "(of_nat n / 1048576 > (25::rat)) \<longleftrightarrow> of_nat n > (26214400::rat)"
    by (simp add: pos_less_divide_eq)
  also have "\<dots> \<longleftrightarrow> 26214400 < n" by (metis of_nat_less_iff of_nat_numeral)
  finally show ?thesis by (simp add: over_limit_def FILE_SIZE_LIMIT_MB_def)
qed

text \<open>
  C26 (bounds).  For an existing file, \<^verbatim>\<open>get_file_size\<close> succeeds without
  changing the world, and the script's limit test holds exactly when the file
  has more than 26214400 bytes (25 MiB): a file of exactly 25 MiB is not split.
\<close>

theorem get_file_size_limit:
  assumes "map_of (files (fsys w)) p = Some d"
  shows "\<exists>mb. get_file_size p w = (Inr mb, w) \<and> (over_limit mb \<longleftrightarrow> 26214400 < fdata_size d)"
proof -
  have "get_file_size p w = (Inr (of_nat (fdata_size d) / of_nat (1024 * 1024)), w)"
    using assms by (simp add: get_file_size_def getsize_def pyio_simps)
  then show ?thesis using over_limit_bytes by blast
qed

theorem get_file_size_limit_witness:
  "\<exists>mb. get_file_size ''a.mp4'' \<lparr>fsys = \<lparr>files = [(''a.mp4'', Audio 26214400 1800)], dirs = []\<rparr>,
                                 trace = []\<rparr> =
          (Inr mb, \<lparr>fsys = \<lparr>files = [(''a.mp4'', Audio 26214400 1800)], dirs = []\<rparr>, trace = []\<rparr>) \<and>
        \<not> over_limit mb"
  using get_file_size_limit [of "\<lparr>fsys = \<lparr>files = [(''a.mp4'', Audio 26214400 1800)], dirs = []\<rparr>,
                                 trace = []\<rparr>" "''a.mp4''" "Audio 26214400 1800"]
  by simp

end
