(* ===== verification/Split.thy ===== *)
theory Split
  imports PyOs Trim "HOL-Library.Multiset"
begin

text \<open>
  \<^verbatim>\<open>split_audio\<close> (\<^verbatim>\<open>src/transcribe.py\<close>, lines 52--67): creates the output
  folder, runs the \<^verbatim>\<open>ffmpeg\<close> segment muxer with \<^verbatim>\<open>check=True\<close>, lists the
  folder and returns the sorted paths of its \<^verbatim>\<open>.mp3\<close> entries.  Python's
  \<^verbatim>\<open>sorted\<close> on \<^verbatim>\<open>str\<close> is \<open>sort\<close> under the lexicographic order of
  \<^theory_text>\<open>List_Lexorder\<close> over code points (\<^theory_text>\<open>Char_ord\<close>).  The names
  the muxer gives to segment \<open>i\<close> (\<^verbatim>\<open>part_%03d.mp3\<close>) are \<open>seg_name i\<close>.
\<close>

definition segment_cmd :: "path \<Rightarrow> nat \<Rightarrow> path \<Rightarrow> string list" where
  "segment_cmd fp segment_length pat =
     [''ffmpeg'', ''-i'', fp, ''-f'', ''segment'', ''-segment_time'', nat_str segment_length,
      ''-c:a'', ''libmp3lame'', ''-b:a'', ''128k'', pat]"

text \<open>The returned list: \<^verbatim>\<open>sorted([os.path.join(output_folder, f) for f in
  os.listdir(output_folder) if f.endswith(".mp3")])\<close>.\<close>

definition split_listing :: "path \<Rightarrow> string list \<Rightarrow> path list" where
  "split_listing output_folder names =
     sort (map (py_join output_folder) (filter (\<lambda>f. endswith f ''.mp3'') names))"

definition split_audio :: "env \<Rightarrow> path \<Rightarrow> path \<Rightarrow> nat \<Rightarrow> path list pyio" where
  "split_audio en fp output_folder segment_length =
     pthen (makedirs output_folder)
       (let output_pattern = py_join output_folder ''part_%03d.mp3'' in
        pthen (run_check en (segment_cmd fp segment_length output_pattern))
          (pbind (listdir output_folder) (\<lambda>names. ret (split_listing output_folder names))))"

text \<open>The segment muxer's file names: \<^verbatim>\<open>printf("part_%03d.mp3", i)\<close>, the
  decimal digits of \<open>i\<close> padded with zeros to width three.\<close>

definition pad3 :: "string \<Rightarrow> string" where
  "pad3 s = replicate (3 - length s) (CHR ''0'') @ s"

definition seg_name :: "nat \<Rightarrow> string" where
  "seg_name i = ''part_'' @ pad3 (nat_str i) @ ''.mp3''"

text \<open>The prefix \<^verbatim>\<open>os.path.join(d, n)\<close> puts before a relative name.\<close>

definition join_prefix :: "path \<Rightarrow> path" where
  "join_prefix d = (if d = [] \<or> last d = CHR ''/'' then d else d @ ''/'')"

text \<open>A stand-in for \<^verbatim>\<open>ffmpeg\<close> that writes \<open>k\<close> parts of five minutes
  (128 kbit/s) into \<open>d\<close>, for instantiating the theorems at concrete runs.\<close>

definition parts_env :: "path \<Rightarrow> nat \<Rightarrow> env" where
  "parts_env d k =
     \<lparr>run_proc = (\<lambda>_ fs. Inr (0, [], fs\<lparr>files :=
        foldr (\<lambda>i. AList.update (py_join d (seg_name i)) (Audio 4800000 300)) [0..<k] (files fs)\<rparr>)),
      http_post = (\<lambda>_ _ _ _. Inl ConnectionError), api_key = ''sk-test''\<rparr>"

subsection \<open>Part names and their order\<close>

lemma of_char_digit_char: "a < 10 \<Longrightarrow> of_char (digit_char a) = (48 + a :: nat)"
  by (simp add: digit_char_def less_Suc_eq numeral_eq_Suc, elim disjE) simp_all

lemma digit_char_less: "a < 10 \<Longrightarrow> b < 10 \<Longrightarrow> digit_char a < digit_char b \<longleftrightarrow> a < b"
  by (simp add: less_char_def of_char_digit_char)

lemma digit_char_eq: "a < 10 \<Longrightarrow> b < 10 \<Longrightarrow> digit_char a = digit_char b \<longleftrightarrow> a = b"
  by (metis add_left_cancel of_char_digit_char)

lemma digit_char_0: "digit_char 0 = CHR ''0''"
  by (simp add: digit_char_def)

lemma replicate_1_2: "replicate 1 c = [c]" "replicate 2 c = [c, c]"
  by (simp_all add: numeral_2_eq_2)

lemma pad3_nat_str:
  assumes "i < 1000"
  shows "pad3 (nat_str i) = [digit_char (i div 100), digit_char (i div 10 mod 10), digit_char (i mod 10)]"
proof (cases "i < 10")
  case True
  then have "i div 100 = 0" "i div 10 mod 10 = 0" "i mod 10 = i" by simp_all
  with True show ?thesis by (simp add: pad3_def digit_char_0 replicate_1_2)
next
  case False
  note ge10 = this
  show ?thesis
  proof (cases "i < 100")
    case True
    then have "i div 10 < 10" "i div 100 = 0" "i div 10 mod 10 = i div 10" by simp_all
    with ge10 show ?thesis by (simp add: pad3_def digit_char_0 replicate_1_2)
  next
    case False
    with assms have "\<not> i div 10 < 10" "i div 10 div 10 < 10" "i div 10 div 10 = i div 100"
      by (simp_all add: div_mult2_eq)
    with ge10 show ?thesis by (simp add: pad3_def)
  qed
qed

lemma append_less_append_iff [simp]: "(c @ x < c @ y) \<longleftrightarrow> x < (y :: 'a :: linorder list)"
  by (induction c) auto

lemma lex3_less:
  fixes a b c a' b' c' :: nat
  assumes "b < 10" "c < 10" "b' < 10" "c' < 10"
  shows "(a < a' \<or> a = a' \<and> (b < b' \<or> b = b' \<and> c < c')) \<longleftrightarrow>
         100 * a + 10 * b + c < 100 * a' + 10 * b' + c'"
  using assms by arith

lemma digits3_sum: "(i::nat) = 100 * (i div 100) + 10 * (i div 10 mod 10) + i mod 10"
proof -
  have "i = 10 * (i div 10) + i mod 10" by simp
  moreover have "i div 10 = 10 * (i div 10 div 10) + i div 10 mod 10" by simp
  moreover have "i div 10 div 10 = i div 100" by (simp add: div_mult2_eq)
  ultimately show ?thesis by arith
qed

lemma digits3_less:
  assumes "i < 1000" "j < 1000"
  shows "digit_char (i div 100) # digit_char (i div 10 mod 10) # digit_char (i mod 10) # s <
         digit_char (j div 100) # digit_char (j div 10 mod 10) # digit_char (j mod 10) # s \<longleftrightarrow> i < j"
proof -
  have d: "i div 100 < 10" "j div 100 < 10" using assms by auto
  have "(i div 100 < j div 100 \<or> i div 100 = j div 100 \<and>
        (i div 10 mod 10 < j div 10 mod 10 \<or> i div 10 mod 10 = j div 10 mod 10 \<and> i mod 10 < j mod 10))
        \<longleftrightarrow> i < j"
    using lex3_less [of "i div 10 mod 10" "i mod 10" "j div 10 mod 10" "j mod 10" "i div 100" "j div 100"]
      digits3_sum [of i] digits3_sum [of j] by simp
  moreover have b: "i div 10 mod 10 < 10" "i mod 10 < 10" "j div 10 mod 10 < 10" "j mod 10 < 10"
    by simp_all
  ultimately show ?thesis using d
    by (simp only: Cons_less_Cons digit_char_less digit_char_eq less_irrefl simp_thms)
qed

lemma seg_name_digits:
  "i < 1000 \<Longrightarrow>
   seg_name i = ''part_'' @ digit_char (i div 100) # digit_char (i div 10 mod 10) # digit_char (i mod 10) # ''.mp3''"
  by (simp add: seg_name_def pad3_nat_str)

lemma seg_name_less: "i < 1000 \<Longrightarrow> j < 1000 \<Longrightarrow> seg_name i < seg_name j \<longleftrightarrow> i < j"
  by (simp only: seg_name_digits append_less_append_iff digits3_less)

lemma seg_name_999_1000: "seg_name 1000 < seg_name 999"
  by (simp add: seg_name_def pad3_def digit_char_def)


lemma append_le_append_iff [simp]: "(c @ x \<le> c @ y) \<longleftrightarrow> x \<le> (y :: 'a :: linorder list)"
  by (induction c) auto

lemma seg_names_sorted: "k \<le> 1000 \<Longrightarrow> sorted (map seg_name [0..<k])"
proof (induction k)
  case 0
  then show ?case by simp
next
  case (Suc k)
  have "\<forall>i<k. seg_name i \<le> seg_name k"
    using Suc.prems seg_name_less by (auto intro: less_imp_le)
  with Suc show ?case by (auto simp: sorted_append)
qed

lemma seg_names_sorted_iff: "sorted (map seg_name [0..<k]) \<longleftrightarrow> k \<le> 1000"
proof
  assume s: "sorted (map seg_name [0..<k])"
  show "k \<le> 1000"
  proof (rule ccontr)
    assume "\<not> k \<le> 1000"
    then have "seg_name 999 \<le> seg_name 1000"
      using sorted_nth_mono [OF s, of 999 1000] by simp
    with seg_name_999_1000 show False by simp
  qed
qed (rule seg_names_sorted)

subsection \<open>Paths in the folder\<close>

lemma py_join_relative: "n \<noteq> [] \<Longrightarrow> hd n \<noteq> CHR ''/'' \<Longrightarrow> py_join d n = join_prefix d @ n"
  by (cases n) (auto simp: py_join_def join_prefix_def)

lemma child_name_names:
  assumes "n \<in> set (dir_entries fs d)"
  shows "n \<noteq> [] \<and> hd n \<noteq> CHR ''/''"
proof -
  from assms obtain q where "child_name d q = Some n"
    by (auto simp: dir_entries_def List.map_filter_def)
  then have "n \<noteq> [] \<and> CHR ''/'' \<notin> set n" by (simp add: child_name_SomeD)
  then show ?thesis by (metis hd_in_set)
qed

lemma seg_name_relative: "seg_name i \<noteq> [] \<and> hd (seg_name i) \<noteq> CHR ''/''"
  by (simp add: seg_name_def)

lemma distinct_dir_entries: "distinct (dir_entries fs d)"
  by (simp add: dir_entries_def)

lemma sort_eq_of_mset: "mset xs = mset ys \<Longrightarrow> sort xs = sort (ys :: 'a :: linorder list)"
  by (metis mset_sort properties_for_sort sorted_sort)

subsection \<open>The run\<close>

lemma split_audio_Inr:
  assumes "split_audio en fp d n w = (Inr ps, w')"
  shows "ps = split_listing d (dir_entries (fsys w') d)"
  using assms
  by (auto simp: split_audio_def pthen_def listdir_def Let_def ret_def py_raise_def
           elim!: pbind_Inr_E split: if_splits)

lemma split_audio_sorted_distinct:
  assumes "split_audio en fp d n w = (Inr ps, w')"
  shows "sorted ps \<and> distinct ps \<and> ps = split_listing d (dir_entries (fsys w') d)"
proof -
  let ?E = "dir_entries (fsys w') d"
  have ps: "ps = split_listing d ?E" using assms by (rule split_audio_Inr)
  have "inj_on (py_join d) (set ?E)"
    by (rule inj_onI) (simp add: py_join_relative child_name_names)
  then have "distinct (map (py_join d) (filter (\<lambda>f. endswith f ''.mp3'') ?E))"
    by (simp add: distinct_map distinct_dir_entries inj_on_subset [of _ "set ?E"])
  then show ?thesis by (simp add: ps split_listing_def)
qed

text \<open>When the \<^verbatim>\<open>.mp3\<close> entries are exactly the muxer's first \<open>k\<close> names,
  the listing is chronological exactly up to 1000 parts.\<close>

lemma split_listing_seg_names:
  assumes "mset (filter (\<lambda>f. endswith f ''.mp3'') E) = mset (map seg_name [0..<k])"
  shows "split_listing d E = map (py_join d) (map seg_name [0..<k]) \<longleftrightarrow> k \<le> 1000"
proof -
  let ?L = "map (py_join d) (map seg_name [0..<k])"
  have L: "?L = map (\<lambda>x. join_prefix d @ x) (map seg_name [0..<k])"
    by (simp add: py_join_relative seg_name_relative)
  have "split_listing d E = sort ?L"
    unfolding split_listing_def by (rule sort_eq_of_mset) (metis assms mset_map)
  then have "split_listing d E = ?L \<longleftrightarrow> sorted ?L"
    by (metis sorted_sort sorted_sort_id)
  also have "\<dots> \<longleftrightarrow> sorted (map seg_name [0..<k])"
    by (simp only: L sorted_map append_le_append_iff)
  finally show ?thesis by (simp add: seg_names_sorted_iff)
qed

text \<open>The rules that evaluate a run of \<^verbatim>\<open>split_audio\<close> on a concrete world.\<close>

lemmas split_eval = split_audio_def makedirs_def listdir_def dir_entries_def child_name_def
  split_listing_def endswith_def py_join_def ancestors_def is_file_def is_dir_def
  run_check_apply parts_env_def fixed_env_def empty_world_def pyio_simps List.map_filter_simps
  seg_name_def pad3_def digit_char_def replicate_1_2 upt_rec

subsection \<open>Properties\<close>

text \<open>
  C14 (safety).  Whatever the segmenter leaves in the folder, a successful
  \<^verbatim>\<open>split_audio\<close> returns a sorted list without duplicates whose elements are
  exactly the joined paths of the folder's \<^verbatim>\<open>.mp3\<close> entries after the run.
\<close>

theorem split_audio_result:
  assumes "split_audio en fp d n w = (Inr ps, w')"
  shows "sorted ps \<and> distinct ps \<and>
         set ps = py_join d ` {f \<in> set (dir_entries (fsys w') d). endswith f ''.mp3''}"
  using split_audio_sorted_distinct [OF assms] by (auto simp: split_listing_def)

theorem split_audio_result_witness:
  "sorted [''parts/part_000.mp3'', ''parts/part_001.mp3''] \<and>
   distinct [''parts/part_000.mp3'', ''parts/part_001.mp3''] \<and>
   set [''parts/part_000.mp3'', ''parts/part_001.mp3''] =
     py_join ''parts'' ` {f \<in> set (dir_entries \<lparr>files = [(''parts/part_001.mp3'', Audio 1 1),
        (''parts/notes.txt'', Text []), (''parts/part_000.mp3'', Audio 1 1)], dirs = [''parts'']\<rparr> ''parts'').
        endswith f ''.mp3''}"
proof -
  let ?fs = "\<lparr>files = [(''parts/part_001.mp3'', Audio 1 1), (''parts/notes.txt'', Text []),
              (''parts/part_000.mp3'', Audio 1 1)], dirs = [''parts'']\<rparr>"
  have "split_audio (fixed_env 0 [] (Inl ConnectionError)) ''in.mp4'' ''parts'' 300
          \<lparr>fsys = ?fs, trace = []\<rparr> =
        (Inr [''parts/part_000.mp3'', ''parts/part_001.mp3''],
         \<lparr>fsys = ?fs, trace = [Exec (segment_cmd ''in.mp4'' 300 ''parts/part_%03d.mp3'')]\<rparr>)"
    by (simp add: split_audio_def makedirs_def listdir_def dir_entries_def child_name_def
        split_listing_def endswith_def py_join_def ancestors_def is_file_def is_dir_def
        run_check_apply fixed_env_def pyio_simps List.map_filter_def)
  from split_audio_result [OF this] show ?thesis by simp
qed

text \<open>
  C12 (functional).  If after the run the folder's \<^verbatim>\<open>.mp3\<close> entries are
  exactly the muxer's \<open>k\<close> part names (in any listing order), the returned
  list is the parts in chronological order exactly when \<open>k \<le> 1000\<close>: from
  \<^verbatim>\<open>part_1000.mp3\<close> on, the name sorts before \<^verbatim>\<open>part_101.mp3\<close>.
\<close>

theorem split_audio_chronological:
  assumes "split_audio en fp d n w = (Inr ps, w')"
    and "mset (filter (\<lambda>f. endswith f ''.mp3'') (dir_entries (fsys w') d)) = mset (map seg_name [0..<k])"
  shows "ps = map (py_join d) (map seg_name [0..<k]) \<longleftrightarrow> k \<le> 1000"
  using split_audio_Inr [OF assms(1)] split_listing_seg_names [OF assms(2)] by simp

theorem split_audio_chronological_witness:
  "[''audio_parts/part_000.mp3'', ''audio_parts/part_001.mp3'', ''audio_parts/part_002.mp3'']
     = map (py_join ''audio_parts'') (map seg_name [0..<3])"
proof -
  let ?W = "\<lparr>fsys = \<lparr>files = [(''audio_parts/part_002.mp3'', Audio 4800000 300),
              (''audio_parts/part_001.mp3'', Audio 4800000 300),
              (''audio_parts/part_000.mp3'', Audio 4800000 300)], dirs = [''audio_parts'']\<rparr>,
            trace = [Exec (segment_cmd ''audio/trimmed_lecture.mp4'' 300 ''audio_parts/part_%03d.mp3'')]\<rparr>"
  have h: "split_audio (parts_env ''audio_parts'' 3) ''audio/trimmed_lecture.mp4'' ''audio_parts'' 300
             empty_world =
           (Inr [''audio_parts/part_000.mp3'', ''audio_parts/part_001.mp3'', ''audio_parts/part_002.mp3''], ?W)"
    by (simp add: split_eval)
  have h2: "mset (filter (\<lambda>f. endswith f ''.mp3'') (dir_entries (fsys ?W) ''audio_parts''))
              = mset (map seg_name [0..<3])"
    by (simp add: split_eval)
  from split_audio_chronological [OF h h2] show ?thesis by simp
qed

text \<open>
  C19 (error).  A failing segmentation is fatal: when the muxer exits with a
  non-zero code, \<^verbatim>\<open>split_audio\<close> raises \<^verbatim>\<open>CalledProcessError\<close> with that
  code and command, right after the run, without listing the folder.
\<close>

theorem split_audio_segment_failure:
  assumes "makedirs d w = (Inr (), w1)"
    and "run_proc en (segment_cmd fp n (py_join d ''part_%03d.mp3'')) (fsys w1) = Inr (rc, err, fs')"
    and "rc \<noteq> 0"
  shows "split_audio en fp d n w =
           (Inl (CalledProcessError rc (segment_cmd fp n (py_join d ''part_%03d.mp3''))),
            w1\<lparr>fsys := fs', trace := trace w1 @ [Exec (segment_cmd fp n (py_join d ''part_%03d.mp3''))]\<rparr>)"
  using assms by (simp add: split_audio_def run_check_apply pyio_simps)

theorem split_audio_segment_failure_witness:
  "split_audio (fixed_env 1 [] (Inl ConnectionError)) ''in.mp4'' ''audio_parts'' 300 empty_world =
     (Inl (CalledProcessError 1 (segment_cmd ''in.mp4'' 300 ''audio_parts/part_%03d.mp3'')),
      \<lparr>fsys = \<lparr>files = [], dirs = [''audio_parts'']\<rparr>,
       trace = [Exec (segment_cmd ''in.mp4'' 300 ''audio_parts/part_%03d.mp3'')]\<rparr>)"
proof -
  let ?w1 = "\<lparr>fsys = \<lparr>files = [], dirs = [''audio_parts'']\<rparr>, trace = []\<rparr>"
  have h1: "makedirs ''audio_parts'' empty_world = (Inr (), ?w1)"
    by (simp add: makedirs_def empty_world_def is_file_def is_dir_def ancestors_def pyio_simps)
  have h2: "run_proc (fixed_env 1 [] (Inl ConnectionError))
              (segment_cmd ''in.mp4'' 300 (py_join ''audio_parts'' ''part_%03d.mp3'')) (fsys ?w1)
            = Inr (1, [], fsys ?w1)"
    by (simp add: fixed_env_def)
  have j: "py_join ''audio_parts'' ''part_%03d.mp3'' = ''audio_parts/part_%03d.mp3''"
    by (simp add: py_join_def)
  from split_audio_segment_failure [OF h1 h2] show ?thesis by (simp add: j)
qed

end
