(* ===== verification/Transcribe.thy ===== *)
theory Transcribe
  imports PyOs
begin

text \<open>
  \<^verbatim>\<open>transcribe_audio\<close> (\<^verbatim>\<open>src/transcribe.py\<close>, lines 70--85): opens the file,
  prints a message, posts it with fixed form fields to the transcription
  endpoint, calls \<^verbatim>\<open>raise_for_status\<close> and returns \<^verbatim>\<open>response.json()["text"]\<close>.
  The POST is the \<open>http_post\<close> collaborator; the request and its response are
  recorded in the trace as one \<open>Posted\<close> event.  \<^verbatim>\<open>raise_for_status\<close> raises
  for status codes 400 to 599 only, as the \<^verbatim>\<open>requests\<close> library does.
  \<^verbatim>\<open>json.loads\<close> keeps the last of duplicated keys; subscripting any JSON value
  but an object with a string raises \<^verbatim>\<open>TypeError\<close>.
\<close>

definition whisper_url :: string where
  "whisper_url = ''https://api.openai.com/v1/audio/transcriptions''"

definition auth_headers :: "env \<Rightarrow> (string \<times> string) list" where
  "auth_headers en = [(''Authorization'', ''Bearer '' @ api_key en)]"

text \<open>The form fields; \<^verbatim>\<open>requests\<close> sends the integer \<^verbatim>\<open>0\<close> as \<^verbatim>\<open>"0"\<close>.\<close>

definition whisper_form :: "(string \<times> string) list" where
  "whisper_form =
     [(''model'', ''whisper-1''), (''language'', ''uk''), (''temperature'', ''0''),
      (''prompt'', []), (''response_format'', ''json'')]"

definition requests_post ::
  "env \<Rightarrow> string \<Rightarrow> (string \<times> string) list \<Rightarrow> path \<Rightarrow> fdata \<Rightarrow> (string \<times> string) list \<Rightarrow> response pyio" where
  "requests_post en url headers fp content data w =
     (case http_post en url headers [(''file'', fp, content)] data of
        Inl e \<Rightarrow> (Inl e, w)
      | Inr r \<Rightarrow> (Inr r, w\<lparr>trace := trace w @ [Posted fp r]\<rparr>))"

definition raise_for_status :: "response \<Rightarrow> unit pyio" where
  "raise_for_status r =
     (if 400 \<le> status_code r \<and> status_code r < 600 then py_raise (HTTPError (status_code r))
      else ret ())"

text \<open>\<^verbatim>\<open>response.json()["text"]\<close>.\<close>

fun json_text :: "jval option \<Rightarrow> py_error + jval" where
  "json_text None = Inl JSONDecodeError"
| "json_text (Some (JObj kvs)) =
     (case map_of (rev kvs) ''text'' of None \<Rightarrow> Inl (KeyError ''text'') | Some v \<Rightarrow> Inr v)"
| "json_text (Some _) = Inl (TypeError ''indices must be integers'')"

definition transcribe_audio :: "env \<Rightarrow> path \<Rightarrow> jval pyio" where
  "transcribe_audio en fp =
     pbind (open_read fp) (\<lambda>file.
       pthen (py_print (MsgSending fp))
         (pbind (requests_post en whisper_url (auth_headers en) fp file whisper_form) (\<lambda>response.
            pthen (raise_for_status response) (of_sum (json_text (resp_json response))))))"

text \<open>What the code makes of a response: the outcome of \<^verbatim>\<open>raise_for_status\<close>
  followed by \<^verbatim>\<open>.json()["text"]\<close>.\<close>

definition response_value :: "response \<Rightarrow> py_error + jval" where
  "response_value r =
     (if 400 \<le> status_code r \<and> status_code r < 600 then Inl (HTTPError (status_code r))
      else json_text (resp_json r))"

subsection \<open>Characteristic equation\<close>

lemma transcribe_audio_apply:
  "transcribe_audio en fp w =
     (case map_of (files (fsys w)) fp of
        None \<Rightarrow> (Inl (if is_dir (fsys w) fp then IsADirectoryError fp else FileNotFoundError fp), w)
      | Some d \<Rightarrow>
          (case http_post en whisper_url (auth_headers en) [(''file'', fp, d)] whisper_form of
             Inl e \<Rightarrow> (Inl e, w\<lparr>trace := trace w @ [Print (MsgSending fp)]\<rparr>)
           | Inr r \<Rightarrow> (response_value r,
                        w\<lparr>trace := trace w @ [Print (MsgSending fp), Posted fp r]\<rparr>)))"
  by (auto simp: transcribe_audio_def open_read_def requests_post_def raise_for_status_def
        response_value_def py_print_def pyio_simps split: option.splits sum.splits)

lemma appends_transcribe_audio [appends_intros]:
  "P (Print (MsgSending p)) \<Longrightarrow> (\<And>r. P (Posted p r)) \<Longrightarrow> appends P (transcribe_audio en p)"
  by (rule appends_I) (auto simp: transcribe_audio_apply split: option.splits sum.splits)

subsection \<open>Properties\<close>

text \<open>
  C20 (functional).  For an existing file and a response whose status is not
  in 400--599 and whose JSON body is an object with a \<^verbatim>\<open>"text"\<close> entry,
  \<^verbatim>\<open>transcribe_audio\<close> returns that entry, after printing its message and
  making exactly one request with the file and the fixed form fields.  This
  holds for every such status, including the non-success codes 1xx and 3xx.
\<close>

theorem transcribe_audio_text:
  assumes "map_of (files (fsys w)) fp = Some d"
    and "http_post en whisper_url (auth_headers en) [(''file'', fp, d)] whisper_form = Inr r"
    and "\<not> (400 \<le> status_code r \<and> status_code r < 600)"
    and "resp_json r = Some (JObj kvs)" and "map_of (rev kvs) ''text'' = Some v"
  shows "transcribe_audio en fp w = (Inr v, w\<lparr>trace := trace w @ [Print (MsgSending fp), Posted fp r]\<rparr>)"
  using assms by (simp add: transcribe_audio_apply response_value_def)

theorem transcribe_audio_text_witness:
  "transcribe_audio (fixed_env 0 [] (Inr \<lparr>status_code = 302, resp_json = Some (JObj [(''text'', JStr ''ok'')])\<rparr>))
      ''a.mp3'' \<lparr>fsys = \<lparr>files = [(''a.mp3'', Audio 1 1)], dirs = []\<rparr>, trace = []\<rparr> =
   (Inr (JStr ''ok''), \<lparr>fsys = \<lparr>files = [(''a.mp3'', Audio 1 1)], dirs = []\<rparr>, trace = []\<rparr>\<lparr>trace := [Print (MsgSending ''a.mp3''),
      Posted ''a.mp3'' \<lparr>status_code = 302, resp_json = Some (JObj [(''text'', JStr ''ok'')])\<rparr>]\<rparr>)"
  using transcribe_audio_text [of "\<lparr>fsys = \<lparr>files = [(''a.mp3'', Audio 1 1)], dirs = []\<rparr>, trace = []\<rparr>" "''a.mp3''" "Audio 1 1"
      "fixed_env 0 [] (Inr \<lparr>status_code = 302, resp_json = Some (JObj [(''text'', JStr ''ok'')])\<rparr>)"
      "\<lparr>status_code = 302, resp_json = Some (JObj [(''text'', JStr ''ok'')])\<rparr>"
      "[(''text'', JStr ''ok'')]" "JStr ''ok''"]
  by (simp add: fixed_env_def)

text \<open>
  C22 (error).  A response with a status in 400--599 makes
  \<^verbatim>\<open>transcribe_audio\<close> raise \<^verbatim>\<open>HTTPError\<close> with that status, whatever the body.
\<close>

theorem transcribe_audio_http_error:
  assumes "map_of (files (fsys w)) fp = Some d"
    and "http_post en whisper_url (auth_headers en) [(''file'', fp, d)] whisper_form = Inr r"
    and "400 \<le> status_code r" and "status_code r < 600"
  shows "transcribe_audio en fp w =
           (Inl (HTTPError (status_code r)), w\<lparr>trace := trace w @ [Print (MsgSending fp), Posted fp r]\<rparr>)"
  using assms by (simp add: transcribe_audio_apply response_value_def)

theorem transcribe_audio_http_error_witness:
  "transcribe_audio (fixed_env 0 [] (Inr \<lparr>status_code = 429, resp_json = Some (JObj [(''text'', JStr ''ok'')])\<rparr>))
      ''a.mp3'' \<lparr>fsys = \<lparr>files = [(''a.mp3'', Audio 1 1)], dirs = []\<rparr>, trace = []\<rparr> =
   (Inl (HTTPError 429), \<lparr>fsys = \<lparr>files = [(''a.mp3'', Audio 1 1)], dirs = []\<rparr>, trace = []\<rparr>\<lparr>trace := [Print (MsgSending ''a.mp3''),
      Posted ''a.mp3'' \<lparr>status_code = 429, resp_json = Some (JObj [(''text'', JStr ''ok'')])\<rparr>]\<rparr>)"
  using transcribe_audio_http_error [of "\<lparr>fsys = \<lparr>files = [(''a.mp3'', Audio 1 1)], dirs = []\<rparr>, trace = []\<rparr>" "''a.mp3''" "Audio 1 1"
      "fixed_env 0 [] (Inr \<lparr>status_code = 429, resp_json = Some (JObj [(''text'', JStr ''ok'')])\<rparr>)"
      "\<lparr>status_code = 429, resp_json = Some (JObj [(''text'', JStr ''ok'')])\<rparr>"]
  by (simp add: fixed_env_def)

text \<open>
  C28 (error).  A missing file raises \<^verbatim>\<open>FileNotFoundError\<close> before anything
  is printed or sent: the world is unchanged.
\<close>

theorem transcribe_audio_missing:
  assumes "map_of (files (fsys w)) fp = None" and "\<not> is_dir (fsys w) fp"
  shows "transcribe_audio en fp w = (Inl (FileNotFoundError fp), w)"
  using assms by (simp add: transcribe_audio_apply)

theorem transcribe_audio_missing_witness:
  "transcribe_audio (fixed_env 0 [] (Inl ConnectionError)) ''b.mp3'' \<lparr>fsys = \<lparr>files = [(''a.mp3'', Audio 1 1)], dirs = []\<rparr>, trace = []\<rparr> =
     (Inl (FileNotFoundError ''b.mp3''), \<lparr>fsys = \<lparr>files = [(''a.mp3'', Audio 1 1)], dirs = []\<rparr>, trace = []\<rparr>)"
  using transcribe_audio_missing [of "\<lparr>fsys = \<lparr>files = [(''a.mp3'', Audio 1 1)], dirs = []\<rparr>, trace = []\<rparr>" "''b.mp3''"] by (simp add: is_dir_def)

text \<open>
  C27 (error).  With a status outside 400--599, a body that is not JSON raises
  the decode error, a JSON object without \<^verbatim>\<open>"text"\<close> raises
  \<^verbatim>\<open>KeyError\<close>, and any other JSON value raises \<^verbatim>\<open>TypeError\<close>.
\<close>

theorem transcribe_audio_body_errors:
  assumes "map_of (files (fsys w)) fp = Some d"
    and "http_post en whisper_url (auth_headers en) [(''file'', fp, d)] whisper_form = Inr r"
    and "\<not> (400 \<le> status_code r \<and> status_code r < 600)"
  shows "fst (transcribe_audio en fp w) =
           (case resp_json r of
              None \<Rightarrow> Inl JSONDecodeError
            | Some (JObj kvs) \<Rightarrow>
                (case map_of (rev kvs) ''text'' of None \<Rightarrow> Inl (KeyError ''text'') | Some v \<Rightarrow> Inr v)
            | Some _ \<Rightarrow> Inl (TypeError ''indices must be integers''))"
  using assms by (simp add: transcribe_audio_apply response_value_def split: option.split jval.split)

theorem transcribe_audio_body_errors_witness:
  "fst (transcribe_audio (fixed_env 0 [] (Inr \<lparr>status_code = 200, resp_json = Some (JObj [(''error'', JNull)])\<rparr>))
      ''a.mp3'' \<lparr>fsys = \<lparr>files = [(''a.mp3'', Audio 1 1)], dirs = []\<rparr>, trace = []\<rparr>) = Inl (KeyError ''text'')"
  using transcribe_audio_body_errors [of "\<lparr>fsys = \<lparr>files = [(''a.mp3'', Audio 1 1)], dirs = []\<rparr>, trace = []\<rparr>" "''a.mp3''" "Audio 1 1"
      "fixed_env 0 [] (Inr \<lparr>status_code = 200, resp_json = Some (JObj [(''error'', JNull)])\<rparr>)"
      "\<lparr>status_code = 200, resp_json = Some (JObj [(''error'', JNull)])\<rparr>"]
  by (simp add: fixed_env_def)

end
