(* ===== verification/Pipeline.thy ===== *)
theory Pipeline
  imports Trim FileSize Split Transcribe
begin

text \<open>
  The module-level script of \<^verbatim>\<open>src/transcribe.py\<close> (lines 87--109): trim the
  input, measure it, either split it and transcribe the parts in order (joining
  the texts with newlines) or transcribe it whole (\<open>transcribe_branch\<close>), then
  create \<^verbatim>\<open>output\<close>, open \<^verbatim>\<open>output/lecture.txt\<close> for writing and write
  the text (\<open>write_output\<close>).  The \<^verbatim>\<open>for\<close> loop over the parts is
  \<open>transcribe_parts\<close>, which stops at the first exception as the loop does.

  The lemmas account for the trace of a run: \<open>quiet m\<close> says that \<open>m\<close> only
  appends prints and process runs (every step but the transcription and the
  output step is quiet); \<open>posted\<close> lists the requests of a trace with their
  responses; \<open>branch_outcome\<close> relates the requests of the transcription
  step to its result; \<open>transcribe_script_cases\<close> splits a run into "stopped
  before the output step" and "reached the output step".
\<close>

definition OUTPUT_FILE :: path where
  "OUTPUT_FILE = ''output/lecture.txt''"

fun transcribe_parts :: "env \<Rightarrow> path list \<Rightarrow> jval list \<Rightarrow> jval list pyio" where
  "transcribe_parts en [] transcriptions = ret transcriptions"
| "transcribe_parts en (part # parts) transcriptions =
     pbind (transcribe_audio en part) (\<lambda>transcription.
       transcribe_parts en parts (transcriptions @ [transcription]))"

text \<open>\<^verbatim>\<open>"\n".join(transcriptions)\<close>.\<close>

definition join_transcriptions :: "jval list \<Rightarrow> jval pyio" where
  "join_transcriptions ts =
     (case py_str_join ''\<newline>'' ts of Inl e \<Rightarrow> py_raise e | Inr s \<Rightarrow> ret (JStr s))"

text \<open>The \<^verbatim>\<open>if\<close> of the script (lines 92--101): split and transcribe the parts in
  order, or transcribe the whole file.\<close>

definition transcribe_branch :: "env \<Rightarrow> path \<Rightarrow> rat \<Rightarrow> jval pyio" where
  "transcribe_branch en audio_file file_size =
     (if over_limit file_size then
        pthen (py_print MsgTooBig)
          (pbind (split_audio en audio_file ''audio_parts'' 300) (\<lambda>parts.
           pbind (transcribe_parts en parts []) (\<lambda>transcriptions.
           join_transcriptions transcriptions)))
      else pthen (py_print MsgSmall) (transcribe_audio en audio_file))"

text \<open>Saving the text (lines 103--107).\<close>

definition write_output :: "jval \<Rightarrow> unit pyio" where
  "write_output full_transcription =
     pthen (makedirs ''output'')
       (pthen (open_write OUTPUT_FILE)
         (pthen (write_text OUTPUT_FILE full_transcription) (py_print (MsgDone OUTPUT_FILE))))"

definition transcribe_script :: "env \<Rightarrow> unit pyio" where
  "transcribe_script en =
     pbind (trim_silence en AUDIO_FILE TRIMMED_AUDIO_FILE) (\<lambda>audio_file.
     pbind (get_file_size audio_file) (\<lambda>size.
     pbind (transcribe_branch en audio_file size) (\<lambda>full_transcription.
     write_output full_transcription)))"

text \<open>The requests of a trace, in order, with their responses.\<close>

fun posted :: "event list \<Rightarrow> (path \<times> response) list" where
  "posted [] = []"
| "posted (Posted p r # es) = (p, r) # posted es"
| "posted (_ # es) = posted es"

text \<open>Events that neither make a request nor touch the output file.\<close>

fun quiet_event :: "event \<Rightarrow> bool" where
  "quiet_event (Print _) = True"
| "quiet_event (Exec _) = True"
| "quiet_event _ = False"

fun output_event :: "event \<Rightarrow> bool" where
  "output_event (Opened _) = True"
| "output_event (Wrote _ _) = True"
| "output_event _ = False"

abbreviation quiet :: "'a pyio \<Rightarrow> bool" where
  "quiet \<equiv> appends quiet_event"

text \<open>A response the code accepts (\<^verbatim>\<open>raise_for_status\<close> and \<^verbatim>\<open>["text"]\<close>
  succeed), and a request list of a loop that stopped with \<open>e\<close>: every request
  but the last was accepted, and a rejected last one raised \<open>e\<close>.\<close>

definition accepted :: "path \<times> response \<Rightarrow> bool" where
  "accepted x \<longleftrightarrow> \<not> isl (response_value (snd x))"

definition fail_last :: "(path \<times> response) list \<Rightarrow> py_error \<Rightarrow> bool" where
  "fail_last rs e \<longleftrightarrow>
     list_all accepted (butlast rs) \<and> (rs \<noteq> [] \<longrightarrow> \<not> accepted (last rs) \<longrightarrow> response_value (snd (last rs)) = Inl e)"

text \<open>What the requests of the transcription branch come to: on success every
  response was accepted, and a \<^verbatim>\<open>str\<close> result is their texts joined by
  newlines; on an exception only the last request can have been rejected.\<close>

definition branch_outcome :: "event list \<Rightarrow> py_error + jval \<Rightarrow> bool" where
  "branch_outcome es r \<longleftrightarrow> \<not> list_ex output_event es \<and>
     (case r of
        Inr full \<Rightarrow> \<exists>vs. map (response_value \<circ> snd) (posted es) = map Inr vs \<and>
                      (\<forall>s. full = JStr s \<longrightarrow> (\<exists>ss. vs = map JStr ss \<and> s = join_with ''\<newline>'' ss))
      | Inl e \<Rightarrow> fail_last (posted es) e)"

text \<open>Fixtures for instantiating the theorems at concrete runs: a recording of
  30000000 bytes (over the limit), and an environment whose \<^verbatim>\<open>ffmpeg\<close>
  writes two parts and whose endpoint answers each request with the status
  \<open>st p\<close> and the part's own path as its text.\<close>

definition big_world :: world where
  "big_world = \<lparr>fsys = \<lparr>files = [(AUDIO_FILE, Audio 30000000 1900)], dirs = [''audio'']\<rparr>,
                 trace = []\<rparr>"

definition chunk_env :: "(path \<Rightarrow> nat) \<Rightarrow> env" where
  "chunk_env st =
     \<lparr>run_proc = run_proc (parts_env ''audio_parts'' 2),
      http_post = (\<lambda>_ _ fl _. let p = fst (snd (hd fl)) in
                    Inr \<lparr>status_code = st p, resp_json = Some (JObj [(''text'', JStr p)])\<rparr>),
      api_key = ''sk-test''\<rparr>"

text \<open>A small recording and the transcript of an earlier run.\<close>

definition small_world :: world where
  "small_world = \<lparr>fsys = \<lparr>files = [(AUDIO_FILE, Audio 1000 60), (OUTPUT_FILE, Text ''old'')],
                   dirs = [''audio'', ''output'']\<rparr>, trace = []\<rparr>"

subsection \<open>Steps that make no request\<close>

lemma posted_append [simp]: "posted (xs @ ys) = posted xs @ posted ys"
  by (induction xs rule: posted.induct) auto

lemma quiet_trim_silence: "quiet (trim_silence en fp op)"
  unfolding trim_silence_def detect_voice_start_def by (intro appends_intros) simp_all

lemma quiet_get_file_size: "quiet (get_file_size p)"
  unfolding get_file_size_def by (intro appends_intros)

lemma quiet_split_audio: "quiet (split_audio en fp d n)"
  unfolding split_audio_def Let_def by (intro appends_intros) simp_all

lemma quiet_join: "quiet (join_transcriptions ts)"
  unfolding join_transcriptions_def by (intro appends_intros)

lemma appends_transcribe_parts [appends_intros]:
  "(\<And>p. P (Print (MsgSending p))) \<Longrightarrow> (\<And>p r. P (Posted p r)) \<Longrightarrow>
   appends P (transcribe_parts en ps acc)"
  by (induction ps arbitrary: acc) (simp_all add: appends_intros)

lemma quiet_step:
  assumes "quiet m" and "m w = (r, w')"
  obtains es where "trace w' = trace w @ es" "posted es = []" "\<not> list_ex output_event es"
proof -
  from assms obtain es where "trace w' = trace w @ es" "list_all quiet_event es"
    by (rule appends_E)
  moreover from \<open>list_all quiet_event es\<close> have "posted es = [] \<and> \<not> list_ex output_event es"
    by (induction es rule: posted.induct) auto
  ultimately show ?thesis using that by blast
qed

subsection \<open>Requests of the transcription steps\<close>

lemma transcribe_audio_trace:
  assumes "transcribe_audio en p w = (r, w')"
  shows "\<exists>es. trace w' = trace w @ es \<and> \<not> list_ex output_event es \<and>
           (case r of
              Inr v \<Rightarrow> \<exists>resp. posted es = [(p, resp)] \<and> response_value resp = Inr v
            | Inl e \<Rightarrow> posted es = [] \<or> (\<exists>resp. posted es = [(p, resp)] \<and> response_value resp = Inl e))"
  using assms by (auto simp: transcribe_audio_apply split: option.splits sum.splits)

lemma fail_last_single: "response_value (snd x) = Inl e \<Longrightarrow> fail_last [x] e"
  by (simp add: fail_last_def)

lemma fail_last_Cons: "accepted x \<Longrightarrow> fail_last rs e \<Longrightarrow> fail_last (x # rs) e"
  by (cases rs) (auto simp: fail_last_def)

lemma transcribe_parts_trace:
  assumes "transcribe_parts en ps acc w = (r, w')"
  shows "\<exists>es. trace w' = trace w @ es \<and> \<not> list_ex output_event es \<and>
           (case r of
              Inr vs \<Rightarrow> \<exists>vs'. vs = acc @ vs' \<and> map fst (posted es) = ps \<and>
                                map (response_value \<circ> snd) (posted es) = map Inr vs'
            | Inl e \<Rightarrow> fail_last (posted es) e)"
  using assms
proof (induction ps arbitrary: acc w r)
  case Nil
  then show ?case by (intro exI [of _ "[]"]) (auto simp: pyio_simps)
next
  case (Cons p ps)
  from Cons.prems show ?case
  proof (cases rule: pbind_cases [OF Cons.prems [simplified]])
    case (1 e)
    with transcribe_audio_trace [OF 1(1)] show ?thesis
      by (auto simp: fail_last_def)
  next
    case (2 t w1)
    from transcribe_audio_trace [OF 2(1)] obtain es1 resp where
      es1: "trace w1 = trace w @ es1" "\<not> list_ex output_event es1"
      "posted es1 = [(p, resp)]" "response_value resp = Inr t"
      by auto
    from Cons.IH [OF 2(2)] obtain es2 where es2: "trace w' = trace w1 @ es2" "\<not> list_ex output_event es2"
      and rest: "case r of Inr vs \<Rightarrow> \<exists>vs'. vs = (acc @ [t]) @ vs' \<and> map fst (posted es2) = ps \<and>
                   map (response_value \<circ> snd) (posted es2) = map Inr vs'
                 | Inl e \<Rightarrow> fail_last (posted es2) e"
      by blast
    have acc: "accepted (p, resp)" using es1(4) by (simp add: accepted_def)
    show ?thesis
    proof (cases r)
      case (Inl e)
      with rest acc have "fail_last (posted (es1 @ es2)) e"
        by (simp add: es1(3) fail_last_Cons)
      with es1 es2 Inl show ?thesis by (intro exI [of _ "es1 @ es2"]) simp
    next
      case (Inr vs)
      with rest obtain vs' where "vs = (acc @ [t]) @ vs'" "map fst (posted es2) = ps"
        "map (response_value \<circ> snd) (posted es2) = map Inr vs'" by auto
      with es1 es2 Inr show ?thesis by (intro exI [of _ "es1 @ es2"]) (simp add: es1(3))
    qed
  qed
qed

lemma all_accepted:
  "map (response_value \<circ> snd) rs = map Inr vs \<Longrightarrow> list_all accepted rs"
proof (induction rs arbitrary: vs)
  case (Cons x rs)
  then show ?case by (cases vs) (auto simp: accepted_def)
qed simp

lemma fail_last_accepted:
  "map (response_value \<circ> snd) rs = map Inr vs \<Longrightarrow> fail_last rs e"
  by (drule all_accepted, cases rs rule: rev_cases) (auto simp: fail_last_def)

lemma fail_last_mem:
  assumes "fail_last rs e" and "x \<in> set rs" and "\<not> accepted x"
  shows "response_value (snd x) = Inl e"
proof -
  from assms(2) have "x \<in> set (butlast rs) \<or> x = last rs"
    by (induction rs rule: rev_induct) auto
  with assms show ?thesis by (auto simp: fail_last_def list_all_iff)
qed

lemma join_transcriptions_Inr:
  assumes "join_transcriptions ts w = (Inr full, w')"
  obtains ss where "ts = map JStr ss" and "full = JStr (join_with ''\<newline>'' ss)"
proof -
  from assms obtain s where "py_str_join ''\<newline>'' ts = Inr s" "full = JStr s"
    by (auto simp: join_transcriptions_def pyio_simps split: sum.splits)
  moreover from this(1) obtain ss where "strs_of ts = Some ss" "s = join_with ''\<newline>'' ss"
    by (auto simp: py_str_join_def split: option.splits)
  moreover from this(1) have "ts = map JStr ss"
    by (induction ts arbitrary: ss rule: strs_of.induct) auto
  ultimately show ?thesis using that by blast
qed

lemma branch_outcome_quiet_fail:
  "posted es = [] \<Longrightarrow> \<not> list_ex output_event es \<Longrightarrow> branch_outcome es (Inl e)"
  by (simp add: branch_outcome_def fail_last_def)

lemma branch_outcome_prefix:
  "posted es0 = [] \<Longrightarrow> \<not> list_ex output_event es0 \<Longrightarrow> branch_outcome es r \<Longrightarrow>
   branch_outcome (es0 @ es) r"
  by (cases r) (simp_all add: branch_outcome_def)

lemma split_branch_trace:
  assumes "pbind (transcribe_parts en parts []) join_transcriptions w = (r, w')"
  shows "\<exists>es. trace w' = trace w @ es \<and> branch_outcome es r"
proof (cases rule: pbind_cases [OF assms])
  case (1 e)
  with transcribe_parts_trace [OF 1(1)] show ?thesis by (auto simp: branch_outcome_def)
next
  case (2 ts w1)
  from transcribe_parts_trace [OF 2(1)] obtain es1 where es1: "trace w1 = trace w @ es1"
    "\<not> list_ex output_event es1" "map (response_value \<circ> snd) (posted es1) = map Inr ts"
    by auto
  from quiet_step [OF quiet_join 2(2)] obtain es2 where es2: "trace w' = trace w1 @ es2"
    "posted es2 = []" "\<not> list_ex output_event es2" .
  have "branch_outcome (es1 @ es2) r"
  proof (cases r)
    case (Inl e)
    with es1 es2 show ?thesis by (simp add: branch_outcome_def fail_last_accepted)
  next
    case (Inr full)
    with 2(2) obtain ss where "ts = map JStr ss" "full = JStr (join_with ''\<newline>'' ss)"
      by (auto elim: join_transcriptions_Inr)
    with es1 es2 Inr show ?thesis
      unfolding branch_outcome_def by (auto intro!: exI [of _ "map JStr ss"])
  qed
  with es1 es2 show ?thesis by auto
qed

lemma transcribe_branch_trace:
  assumes "transcribe_branch en a sz w = (r, w')"
  shows "\<exists>es. trace w' = trace w @ es \<and> branch_outcome es r"
proof (cases "over_limit sz")
  case True
  let ?w0 = "w\<lparr>trace := trace w @ [Print MsgTooBig]\<rparr>"
  from assms True have run: "pbind (split_audio en a ''audio_parts'' 300)
      (\<lambda>parts. pbind (transcribe_parts en parts []) join_transcriptions) ?w0 = (r, w')"
    by (simp add: transcribe_branch_def py_print_def pyio_simps)
  show ?thesis
  proof (cases rule: pbind_cases [OF run])
    case (1 e)
    from quiet_step [OF quiet_split_audio 1(1)] obtain es where
      "trace w' = trace ?w0 @ es" "posted es = []" "\<not> list_ex output_event es" .
    with 1(2) show ?thesis
      by (intro exI [of _ "Print MsgTooBig # es"]) (simp add: branch_outcome_quiet_fail)
  next
    case (2 parts w1)
    from quiet_step [OF quiet_split_audio 2(1)] obtain es1 where
      es1: "trace w1 = trace ?w0 @ es1" "posted es1 = []" "\<not> list_ex output_event es1" .
    from split_branch_trace [OF 2(2)] obtain es2 where
      "trace w' = trace w1 @ es2" "branch_outcome es2 r" by blast
    moreover from es1 this(2) have "branch_outcome ((Print MsgTooBig # es1) @ es2) r"
      by (intro branch_outcome_prefix) simp_all
    ultimately show ?thesis using es1 by (intro exI [of _ "(Print MsgTooBig # es1) @ es2"]) simp
  qed
next
  case False
  let ?w0 = "w\<lparr>trace := trace w @ [Print MsgSmall]\<rparr>"
  from assms False have run: "transcribe_audio en a ?w0 = (r, w')"
    by (simp add: transcribe_branch_def py_print_def pyio_simps)
  from transcribe_audio_trace [OF run] obtain es where es: "trace w' = trace ?w0 @ es"
    "\<not> list_ex output_event es"
    and out: "case r of Inr v \<Rightarrow> \<exists>resp. posted es = [(a, resp)] \<and> response_value resp = Inr v
              | Inl e \<Rightarrow> posted es = [] \<or> (\<exists>resp. posted es = [(a, resp)] \<and> response_value resp = Inl e)"
    by blast
  have "branch_outcome es r"
  proof (cases r)
    case (Inl e)
    with out es(2) show ?thesis by (auto simp: branch_outcome_def fail_last_def)
  next
    case (Inr v)
    with out es(2) show ?thesis
      by (auto simp: branch_outcome_def intro!: exI [of _ "[v]"] exI [of _ "[s]" for s])
  qed
  then have "branch_outcome ([Print MsgSmall] @ es) r"
    by (intro branch_outcome_prefix) simp_all
  with es show ?thesis by (intro exI [of _ "Print MsgSmall # es"]) simp
qed

lemma write_output_trace:
  assumes "write_output full w = (r, w')"
  shows "\<exists>es. trace w' = trace w @ es \<and> posted es = [] \<and>
           (r = Inr () \<longrightarrow> (\<exists>s. full = JStr s \<and> map_of (files (fsys w')) OUTPUT_FILE = Some (Text s)))"
  using assms
  by (cases full) (auto simp: write_output_def makedirs_def open_write_def py_print_def
      Let_def pyio_simps split: if_splits)

lemma write_output_Inl:
  assumes "write_output full w = (Inl e, w')" and "trace w' = trace w @ es"
    and "list_ex output_event es"
  shows "e = TypeError ''write() argument must be str'' \<and>
         map_of (files (fsys w')) OUTPUT_FILE = Some (Text [])"
  using assms
  by (cases full) (auto simp: write_output_def makedirs_def open_write_def py_print_def
      Let_def pyio_simps split: if_splits)

text \<open>The phases of a run: it stops while trimming or measuring (quietly), or it
  reaches the transcription step with the trimmed path, one of the two
  configured ones.\<close>

lemma transcribe_script_phases:
  assumes "transcribe_script en w = (r, w')"
  obtains (early) e es where "r = Inl e" "trace w' = trace w @ es" "posted es = []"
      "\<not> list_ex output_event es"
  | (main) a sz w2 es where "a = AUDIO_FILE \<or> a = TRIMMED_AUDIO_FILE" "trace w2 = trace w @ es"
      "posted es = []" "\<not> list_ex output_event es"
      "pbind (transcribe_branch en a sz) write_output w2 = (r, w')"
proof (cases rule: pbind_cases [OF assms [unfolded transcribe_script_def]])
  case (1 e)
  from quiet_step [OF quiet_trim_silence 1(1)] obtain es1 where
    "trace w' = trace w @ es1" "posted es1 = []" "\<not> list_ex output_event es1" .
  with 1(2) show ?thesis by (rule early)
next
  case (2 a w1)
  note a = trim_silence_result [OF 2(1)]
  from quiet_step [OF quiet_trim_silence 2(1)] obtain es1 where
    es1: "trace w1 = trace w @ es1" "posted es1 = []" "\<not> list_ex output_event es1" .
  show ?thesis
  proof (cases rule: pbind_cases [OF 2(2)])
    case (1 e)
    from quiet_step [OF quiet_get_file_size 1(1)] obtain es2 where
      "trace w' = trace w1 @ es2" "posted es2 = []" "\<not> list_ex output_event es2" .
    with es1 have "trace w' = trace w @ (es1 @ es2)" "posted (es1 @ es2) = []"
      "\<not> list_ex output_event (es1 @ es2)" by simp_all
    with 1(2) show ?thesis by (rule early)
  next
    case (2 sz w2)
    from quiet_step [OF quiet_get_file_size 2(1)] obtain es2 where
      "trace w2 = trace w1 @ es2" "posted es2 = []" "\<not> list_ex output_event es2" .
    with es1 have "trace w2 = trace w @ (es1 @ es2)" "posted (es1 @ es2) = []"
      "\<not> list_ex output_event (es1 @ es2)" by simp_all
    from a this 2(2) show ?thesis by (rule main)
  qed
qed

text \<open>The two ways a run of the script ends: stopped before the output step
  (by an exception of trimming, measuring or transcribing), or in the output step
  after the transcription succeeded.\<close>

lemma transcribe_script_cases:
  assumes "transcribe_script en w = (r, w')"
  obtains (stopped) e es where "r = Inl e" "trace w' = trace w @ es" "branch_outcome es (Inl e)"
  | (written) full w3 es where "trace w3 = trace w @ es" "branch_outcome es (Inr full)"
      "write_output full w3 = (r, w')"
  using assms
proof (cases rule: transcribe_script_phases)
  case (early e es)
  then show ?thesis by (intro stopped [of e es]) (simp_all add: branch_outcome_quiet_fail)
next
  case (main a sz w2 es)
  have pre: "branch_outcome (es @ es3) r'" if "branch_outcome es3 r'" for es3 r'
    using main that by (intro branch_outcome_prefix) simp_all
  show ?thesis
  proof (cases rule: pbind_cases [OF main(5)])
    case (1 e)
    from transcribe_branch_trace [OF 1(1)] obtain es3 where
      "trace w' = trace w2 @ es3" "branch_outcome es3 (Inl e)" by blast
    with main(2) 1(2) pre show ?thesis by (intro stopped [of e "es @ es3"]) simp_all
  next
    case (2 full w3)
    from transcribe_branch_trace [OF 2(1)] obtain es3 where
      "trace w3 = trace w2 @ es3" "branch_outcome es3 (Inr full)" by blast
    with main(2) 2(2) pre show ?thesis by (intro written [of w3 "es @ es3" full]) simp_all
  qed
qed

subsection \<open>Runs that succeed\<close>

text \<open>When every part exists and the service answers its upload with status
  200 and a text, the loop sends every part and returns the texts in order,
  leaving the file system as it was.\<close>

lemma transcribe_parts_ok:
  assumes "\<forall>p \<in> set ps. \<exists>dt. map_of (files (fsys w)) p = Some dt \<and>
             http_post en whisper_url (auth_headers en) [(''file'', p, dt)] whisper_form =
               Inr \<lparr>status_code = 200, resp_json = Some (JObj [(''text'', JStr (txt p))])\<rparr>"
  shows "\<exists>w'. transcribe_parts en ps acc w = (Inr (acc @ map (JStr \<circ> txt) ps), w') \<and> fsys w' = fsys w"
  using assms
proof (induction ps arbitrary: acc w)
  case Nil
  then show ?case by (simp add: pyio_simps)
next
  case (Cons p ps)
  then obtain dt where dt: "map_of (files (fsys w)) p = Some dt"
    and api: "http_post en whisper_url (auth_headers en) [(''file'', p, dt)] whisper_form =
               Inr \<lparr>status_code = 200, resp_json = Some (JObj [(''text'', JStr (txt p))])\<rparr>"
    by auto
  let ?r = "\<lparr>status_code = 200, resp_json = Some (JObj [(''text'', JStr (txt p))])\<rparr>"
  let ?w1 = "w\<lparr>trace := trace w @ [Print (MsgSending p), Posted p ?r]\<rparr>"
  have step: "transcribe_audio en p w = (Inr (JStr (txt p)), ?w1)"
    using dt api by (simp add: transcribe_audio_apply response_value_def)
  from Cons.prems have "\<forall>q \<in> set ps. \<exists>dt. map_of (files (fsys ?w1)) q = Some dt \<and>
      http_post en whisper_url (auth_headers en) [(''file'', q, dt)] whisper_form =
        Inr \<lparr>status_code = 200, resp_json = Some (JObj [(''text'', JStr (txt q))])\<rparr>" by simp
  from Cons.IH [OF this, of "acc @ [JStr (txt p)]"] obtain w' where
    "transcribe_parts en ps (acc @ [JStr (txt p)]) ?w1 = (Inr ((acc @ [JStr (txt p)]) @ map (JStr \<circ> txt) ps), w')"
    "fsys w' = fsys ?w1" by blast
  then show ?case by (simp add: pyio_simps step)
qed

text \<open>The output step when \<^verbatim>\<open>output\<close> can be created and
  \<^verbatim>\<open>output/lecture.txt\<close> opened: \<^verbatim>\<open>f.write\<close> accepts only a
  \<^verbatim>\<open>str\<close>; any other JSON value raises \<^verbatim>\<open>TypeError\<close> after the open
  has emptied the file.\<close>

lemma write_output_typed:
  assumes "\<not> is_file (fsys w) ''output''" "\<not> is_dir (fsys w) OUTPUT_FILE"
  shows "\<exists>w'. write_output v w =
      ((case v of JStr _ \<Rightarrow> Inr () | _ \<Rightarrow> Inl (TypeError ''write() argument must be str'')), w') \<and>
    map_of (files (fsys w')) OUTPUT_FILE = Some (Text (case v of JStr s \<Rightarrow> s | _ \<Rightarrow> []))"
proof -
  have a1: "ancestors ''output'' = []" and a2: "ancestors ''output/lecture.txt'' = [''output'']"
    by (simp_all add: ancestors_def upt_rec)
  show ?thesis
    using assms by (cases v) (simp_all add: write_output_def makedirs_def open_write_def Let_def
        OUTPUT_FILE_def a1 a2 is_dir_def py_print_def pyio_simps)
qed

lemma write_output_ok:
  assumes "\<not> is_file (fsys w) ''output''" "\<not> is_dir (fsys w) OUTPUT_FILE"
  shows "\<exists>w'. write_output (JStr s) w = (Inr (), w') \<and> map_of (files (fsys w')) OUTPUT_FILE = Some (Text s)"
  using write_output_typed [OF assms, of "JStr s"] by simp

lemmas script_eval = transcribe_script_def transcribe_branch_def write_output_def trim_simps
  get_file_size_def getsize_def over_limit_def FILE_SIZE_LIMIT_MB_def split_eval
  transcribe_audio_apply response_value_def open_write_def OUTPUT_FILE_def AUDIO_FILE_def
  TRIMMED_AUDIO_FILE_def chunk_env_def big_world_def join_transcriptions_def py_str_join_def
  silencedetect_cmd_def match_at_def silence_key_def

subsection \<open>Properties\<close>

text \<open>
  C16 (functional).  The loop over the parts sends exactly one request per part,
  in the order of the list it is given, and on success returns the texts of the
  responses in that same order.
\<close>

theorem transcribe_parts_in_order:
  assumes "transcribe_parts en ps [] w = (Inr vs, w')"
  shows "\<exists>es. trace w' = trace w @ es \<and> map fst (posted es) = ps \<and>
           map (response_value \<circ> snd) (posted es) = map Inr vs"
  using transcribe_parts_trace [OF assms] by auto

theorem transcribe_parts_in_order_witness:
  "\<exists>es. trace (snd (transcribe_parts (chunk_env (\<lambda>_. 200)) [''b.mp3'', ''a.mp3''] []
            \<lparr>fsys = \<lparr>files = [(''a.mp3'', Audio 1 1), (''b.mp3'', Audio 1 1)], dirs = []\<rparr>, trace = []\<rparr>)) = es \<and>
     map fst (posted es) = [''b.mp3'', ''a.mp3''] \<and>
     map (response_value \<circ> snd) (posted es) = [Inr (JStr ''b.mp3''), Inr (JStr ''a.mp3'')]"
proof -
  let ?w = "\<lparr>fsys = \<lparr>files = [(''a.mp3'', Audio 1 1), (''b.mp3'', Audio 1 1)], dirs = []\<rparr>, trace = []\<rparr>"
  obtain r w' where run: "transcribe_parts (chunk_env (\<lambda>_. 200)) [''b.mp3'', ''a.mp3''] [] ?w = (r, w')"
    by fastforce
  moreover from run have "r = Inr [JStr ''b.mp3'', JStr ''a.mp3'']"
    by (simp add: script_eval)
  ultimately show ?thesis using transcribe_parts_in_order [of "chunk_env (\<lambda>_. 200)" "[''b.mp3'', ''a.mp3'']" ?w] by auto
qed

end
