(* ===== verification/PipelineSpec.thy ===== *)
theory PipelineSpec
  imports FileSize "HOL-Library.Sublist"
begin

text \<open>
  The pipeline as the specification describes it (section 4.4), as an abstract
  machine: trim the configured input (keeping it or producing the trimmed file),
  decide on the audio units (the whole file, or an ordered list of segments),
  transcribe the units one at a time in order, then write the fragments joined by
  newlines.  Every step may instead halt the pipeline with an exception; a halted
  state records the units submitted to the service so far.  The machine is
  nondeterministic: it leaves open what the external tool and the service answer.
  The script of \<^verbatim>\<open>src/transcribe.py\<close> is shown to refine it in theory
  \<^theory_text>\<open>Refinement\<close>.

  A unit list is admissible when it is one file or a sorted list without
  duplicates (the lexicographic order the specification relies on to recover the
  segment order).  A fragment is the JSON value the service returned for a unit;
  the text can only be written when every fragment is a string.
\<close>

datatype astate =
    AStart
  | ATrimmed path
  | ARun "path list" "(path \<times> jval) list"
  | AWritten "path list" "(path \<times> jval) list" string
  | AHalted "path list" py_error

inductive astep :: "astate \<Rightarrow> astate \<Rightarrow> bool" where
  trim: "a = AUDIO_FILE \<or> a = TRIMMED_AUDIO_FILE \<Longrightarrow> astep AStart (ATrimmed a)"
| trim_fail: "astep AStart (AHalted [] e)"
| whole: "astep (ATrimmed a) (ARun [a] [])"
| chunk: "sorted us \<Longrightarrow> distinct us \<Longrightarrow> astep (ATrimmed a) (ARun us [])"
| plan_fail: "astep (ATrimmed a) (AHalted [] e)"
| unit_ok: "length ds < length us \<Longrightarrow>
     astep (ARun us ds) (ARun us (ds @ [(us ! length ds, t)]))"
| unit_fail: "length ds < length us \<Longrightarrow>
     astep (ARun us ds) (AHalted (map fst ds @ [us ! length ds]) e)"
| unit_unsent: "length ds < length us \<Longrightarrow> astep (ARun us ds) (AHalted (map fst ds) e)"
| finish: "length ds = length us \<Longrightarrow> map snd ds = map JStr ss \<Longrightarrow>
     astep (ARun us ds) (AWritten us ds (join_with ''\<newline>'' ss))"
| finish_fail: "length ds = length us \<Longrightarrow> astep (ARun us ds) (AHalted (map fst ds) e)"

abbreviation areach :: "astate \<Rightarrow> bool" where
  "areach s \<equiv> astep\<^sup>*\<^sup>* AStart s"

definition admissible_units :: "path list \<Rightarrow> bool" where
  "admissible_units us \<longleftrightarrow> length us = 1 \<or> (sorted us \<and> distinct us)"

text \<open>What holds in every reachable state: the trimmed file is one of the two
  configured paths; the fragments so far belong to the first units, in order; a
  written text is the newline join of one string fragment per unit, in unit
  order (the invariant of section 3 of the specification); a halted run
  submitted a prefix of an admissible unit list.\<close>

fun ainv :: "astate \<Rightarrow> bool" where
  "ainv AStart = True"
| "ainv (ATrimmed a) = (a = AUDIO_FILE \<or> a = TRIMMED_AUDIO_FILE)"
| "ainv (ARun us ds) =
     (admissible_units us \<and> length ds \<le> length us \<and> map fst ds = take (length ds) us)"
| "ainv (AWritten us ds txt) =
     (admissible_units us \<and> map fst ds = us \<and>
      (\<exists>ss. map snd ds = map JStr ss \<and> txt = join_with ''\<newline>'' ss))"
| "ainv (AHalted sub e) = (\<exists>us. admissible_units us \<and> prefix sub us)"

text \<open>The rank decreases in the lexicographic order at every step: the phase
  first, then the number of units still to transcribe.\<close>

fun arank :: "astate \<Rightarrow> nat \<times> nat" where
  "arank AStart = (3, 0)"
| "arank (ATrimmed _) = (2, 0)"
| "arank (ARun us ds) = (1, length us - length ds)"
| "arank (AWritten _ _ _) = (0, 0)"
| "arank (AHalted _ _) = (0, 0)"

inductive_cases astep_StartE: "astep AStart t"
inductive_cases astep_TrimmedE: "astep (ATrimmed a) t"
inductive_cases astep_RunE: "astep (ARun us ds) t"
inductive_cases astep_WrittenE: "astep (AWritten us ds txt) t"
inductive_cases astep_HaltedE: "astep (AHalted sub e) t"

subsection \<open>The invariant\<close>

lemma admissible_single [simp]: "admissible_units [a]"
  by (simp add: admissible_units_def)

lemma take_Suc_nth_prefix:
  "map fst ds = take (length ds) us \<Longrightarrow> length ds < length us \<Longrightarrow>
   map fst ds @ [us ! length ds] = take (Suc (length ds)) us"
  by (simp add: take_Suc_conv_app_nth)

lemma prefix_take: "prefix (take n us) us"
  by (metis append_take_drop_id prefixI)

lemma astep_ainv: "astep s t \<Longrightarrow> ainv s \<Longrightarrow> ainv t"
proof (induction rule: astep.induct)
  case (unit_ok ds us t)
  then show ?case by (simp add: take_Suc_conv_app_nth)
next
  case (unit_fail ds us e)
  then show ?case by (metis ainv.simps(3,5) prefix_take take_Suc_nth_prefix)
next
  case (unit_unsent ds us e)
  then show ?case using prefix_take by auto
next
  case (finish ds us ss)
  then show ?case by auto
next
  case (finish_fail ds us e)
  then show ?case using prefix_take by auto
qed (auto simp: admissible_units_def intro: exI [of _ "[]"])

lemma areach_ainv: "areach s \<Longrightarrow> ainv s"
proof (induction rule: rtranclp_induct)
  case base
  then show ?case by simp
next
  case (step s t)
  then show ?case by (blast intro: astep_ainv)
qed

subsection \<open>Termination\<close>

lemma astep_arank: "astep s t \<Longrightarrow> (arank t, arank s) \<in> less_than <*lex*> less_than"
  by (induction rule: astep.induct) auto

lemma astep_wf: "wf {(t, s). astep s t}"
proof (rule wf_subset)
  show "wf (inv_image (less_than <*lex*> less_than) arank)"
    by (intro wf_inv_image wf_lex_prod wf_less_than)
  show "{(t, s). astep s t} \<subseteq> inv_image (less_than <*lex*> less_than) arank"
    by (auto dest: astep_arank)
qed

lemma astep_final: "astep (AWritten us ds txt) t \<Longrightarrow> False" "astep (AHalted sub e) t \<Longrightarrow> False"
  by (auto elim: astep_WrittenE astep_HaltedE)

end
