(* ===== verification/Refinement.thy ===== *)
theory Refinement
  imports Pipeline PipelineSpec
begin

text \<open>
  The script refines the abstract pipeline of theory \<^theory_text>\<open>PipelineSpec\<close>: every
  run of \<open>transcribe_script\<close> ends in a state the abstract machine can reach, and
  the run's observable behaviour matches that state (\<open>run_matches\<close>): the
  units the abstract run submitted are the files the script posted, in order;
  the fragments are what the code made of the responses; a written text is the
  content of \<^verbatim>\<open>output/lecture.txt\<close>; a halted run raised the same exception.
  The simulation is built bottom-up: the loop over the parts
  (\<open>transcribe_parts_refines\<close>), the transcription branch
  (\<open>transcribe_branch_refines\<close>) and the whole script.
\<close>

fun run_matches :: "astate \<Rightarrow> py_error + unit \<Rightarrow> (path \<times> response) list \<Rightarrow> fsys \<Rightarrow> bool" where
  "run_matches (AWritten us ds txt) r rs fs \<longleftrightarrow>
     r = Inr () \<and> map fst rs = us \<and> map (response_value \<circ> snd) rs = map (Inr \<circ> snd) ds \<and>
     map_of (files fs) OUTPUT_FILE = Some (Text txt)"
| "run_matches (AHalted sub e) r rs fs \<longleftrightarrow> r = Inl e \<and> map fst rs = sub"
| "run_matches _ _ _ _ \<longleftrightarrow> False"

subsection \<open>The loop over the parts\<close>

lemma drop_Cons_nth:
  assumes "p # ps = drop n us"
  shows "n < length us \<and> us ! n = p \<and> ps = drop (Suc n) us"
proof -
  have lt: "n < length us"
  proof (rule ccontr)
    assume "\<not> n < length us"
    then have "drop n us = []" by simp
    with assms show False by simp
  qed
  from lt have "drop n us = us ! n # drop (Suc n) us" by (rule Cons_nth_drop_Suc [symmetric])
  with assms lt show ?thesis by simp
qed

lemma transcribe_parts_refines:
  assumes "transcribe_parts en ps (map snd ds) w = (r, w')"
    and "ps = drop (length ds) us" and "length ds \<le> length us"
  shows "\<exists>es s. trace w' = trace w @ es \<and> \<not> list_ex output_event es \<and> astep\<^sup>*\<^sup>* (ARun us ds) s \<and>
           (case r of
              Inr vs \<Rightarrow> \<exists>ds'. s = ARun us (ds @ ds') \<and> length (ds @ ds') = length us \<and>
                          vs = map snd (ds @ ds') \<and> map fst ds' = ps \<and> map fst (posted es) = ps \<and>
                          map (response_value \<circ> snd) (posted es) = map (Inr \<circ> snd) ds'
            | Inl e \<Rightarrow> s = AHalted (map fst ds @ map fst (posted es)) e)"
  using assms
proof (induction ps arbitrary: ds w r)
  case Nil
  then have "length ds = length us" by simp
  with Nil show ?case
    by (intro exI [of _ "[]"] exI [of _ "ARun us ds"]) (auto simp: pyio_simps)
next
  case (Cons p ps)
  from drop_Cons_nth [OF Cons.prems(2)] have
    lt: "length ds < length us" and p: "us ! length ds = p" and ps: "ps = drop (Suc (length ds)) us"
    by auto
  show ?case
  proof (cases rule: pbind_cases [OF Cons.prems(1) [simplified]])
    case (1 e)
    from transcribe_audio_trace [OF 1(1)] obtain es where es: "trace w' = trace w @ es"
      "\<not> list_ex output_event es" "posted es = [] \<or> (\<exists>resp. posted es = [(p, resp)])"
      by auto
    from es(3) have "astep (ARun us ds) (AHalted (map fst ds @ map fst (posted es)) e)"
      using lt p by (auto intro: astep.unit_unsent astep.unit_fail)
    with es 1(2) show ?thesis by (intro exI [of _ es]) auto
  next
    case (2 t w1)
    from transcribe_audio_trace [OF 2(1)] obtain es1 resp where
      es1: "trace w1 = trace w @ es1" "\<not> list_ex output_event es1"
      "posted es1 = [(p, resp)]" "response_value resp = Inr t"
      by auto
    let ?ds1 = "ds @ [(p, t)]"
    have step: "astep (ARun us ds) (ARun us ?ds1)"
      using astep.unit_ok [OF lt, of t] p by simp
    have "transcribe_parts en ps (map snd ?ds1) w1 = (r, w')" using 2(2) by simp
    from Cons.IH [OF this] ps lt obtain es2 s where
      es2: "trace w' = trace w1 @ es2" "\<not> list_ex output_event es2"
      and run: "astep\<^sup>*\<^sup>* (ARun us ?ds1) s"
      and res: "case r of
              Inr vs \<Rightarrow> \<exists>ds'. s = ARun us (?ds1 @ ds') \<and> length (?ds1 @ ds') = length us \<and>
                          vs = map snd (?ds1 @ ds') \<and> map fst ds' = ps \<and> map fst (posted es2) = ps \<and>
                          map (response_value \<circ> snd) (posted es2) = map (Inr \<circ> snd) ds'
            | Inl e \<Rightarrow> s = AHalted (map fst ?ds1 @ map fst (posted es2)) e"
      by auto
    from step run have run': "astep\<^sup>*\<^sup>* (ARun us ds) s" by (rule converse_rtranclp_into_rtranclp)
    show ?thesis
    proof (cases r)
      case (Inl e)
      with res es1 es2 run' show ?thesis by (intro exI [of _ "es1 @ es2"] exI [of _ s]) simp
    next
      case (Inr vs)
      with res obtain ds' where "s = ARun us (?ds1 @ ds')" "length (?ds1 @ ds') = length us"
        "vs = map snd (?ds1 @ ds')" "map fst ds' = ps" "map fst (posted es2) = ps"
        "map (response_value \<circ> snd) (posted es2) = map (Inr \<circ> snd) ds'"
        by auto
      with es1 es2 run' Inr show ?thesis
        by (intro exI [of _ "es1 @ es2"] exI [of _ s]) (auto intro!: exI [of _ "(p, t) # ds'"])
    qed
  qed
qed

subsection \<open>The transcription branch\<close>

text \<open>A transcription branch that returns has left the abstract run at the end of
  its unit list, with the fragments it returned; one that raised has halted it.\<close>

definition branch_matches :: "event list \<Rightarrow> astate \<Rightarrow> py_error + jval \<Rightarrow> bool" where
  "branch_matches es s r \<longleftrightarrow>
     (case r of
        Inr full \<Rightarrow> \<exists>us ds. s = ARun us ds \<and> length ds = length us \<and> map fst ds = us \<and>
           map fst (posted es) = us \<and> map (response_value \<circ> snd) (posted es) = map (Inr \<circ> snd) ds \<and>
           (\<forall>x. full = JStr x \<longrightarrow> (\<exists>ss. map snd ds = map JStr ss \<and> x = join_with ''\<newline>'' ss))
      | Inl e \<Rightarrow> s = AHalted (map fst (posted es)) e)"

lemma branch_matches_prefix:
  "posted es0 = [] \<Longrightarrow> branch_matches es s r \<Longrightarrow> branch_matches (es0 @ es) s r"
  by (cases r) (simp_all add: branch_matches_def)

lemma whole_branch_refines:
  assumes "transcribe_audio en a w = (r, w')"
  shows "\<exists>es s. trace w' = trace w @ es \<and> \<not> list_ex output_event es \<and>
           astep\<^sup>*\<^sup>* (ATrimmed a) s \<and> branch_matches es s r"
proof -
  have start: "astep (ATrimmed a) (ARun [a] [])" by (rule astep.whole)
  from transcribe_audio_trace [OF assms] obtain es where es: "trace w' = trace w @ es"
    "\<not> list_ex output_event es"
    and out: "case r of Inr v \<Rightarrow> \<exists>resp. posted es = [(a, resp)] \<and> response_value resp = Inr v
              | Inl e \<Rightarrow> posted es = [] \<or> (\<exists>resp. posted es = [(a, resp)] \<and> response_value resp = Inl e)"
    by blast
  show ?thesis
  proof (cases r)
    case (Inl e)
    have "astep (ARun [a] []) (AHalted (map fst (posted es)) e)"
      using out Inl astep.unit_unsent [of "[]" "[a]" e] astep.unit_fail [of "[]" "[a]" e] by auto
    with start es Inl show ?thesis
      by (intro exI [of _ es] exI [of _ "AHalted (map fst (posted es)) e"])
        (auto simp: branch_matches_def)
  next
    case (Inr v)
    have "astep (ARun [a] []) (ARun [a] [(a, v)])"
      using astep.unit_ok [of "[]" "[a]" v] by simp
    with start es out Inr show ?thesis
      by (intro exI [of _ es] exI [of _ "ARun [a] [(a, v)]"])
        (auto simp: branch_matches_def intro!: exI [of _ "[x]" for x])
  qed
qed

lemma split_branch_refines:
  assumes "pbind (split_audio en a ''audio_parts'' 300)
             (\<lambda>parts. pbind (transcribe_parts en parts []) join_transcriptions) w = (r, w')"
  shows "\<exists>es s. trace w' = trace w @ es \<and> \<not> list_ex output_event es \<and>
           astep\<^sup>*\<^sup>* (ATrimmed a) s \<and> branch_matches es s r"
proof (cases rule: pbind_cases [OF assms])
  case (1 e)
  from quiet_step [OF quiet_split_audio 1(1)] obtain es where
    "trace w' = trace w @ es" "posted es = []" "\<not> list_ex output_event es" .
  with 1(2) astep.plan_fail [of a e] show ?thesis
    by (intro exI [of _ es] exI [of _ "AHalted [] e"]) (auto simp: branch_matches_def)
next
  case (2 ps w1)
  from quiet_step [OF quiet_split_audio 2(1)] obtain es1 where
    es1: "trace w1 = trace w @ es1" "posted es1 = []" "\<not> list_ex output_event es1" .
  from split_audio_sorted_distinct [OF 2(1)] have "astep (ATrimmed a) (ARun ps [])"
    by (auto intro: astep.chunk)
  note start = r_into_rtranclp [of astep, OF this]
  show ?thesis
  proof (cases rule: pbind_cases [OF 2(2)])
    case (1 e)
    from transcribe_parts_refines [of en ps "[]" w1 "Inl e" w' ps] 1(1) obtain es2 s where
      "trace w' = trace w1 @ es2" "\<not> list_ex output_event es2" "astep\<^sup>*\<^sup>* (ARun ps []) s"
      "s = AHalted (map fst (posted es2)) e"
      by auto
    with es1 1(2) start show ?thesis
      by (intro exI [of _ "es1 @ es2"] exI [of _ s]) (auto simp: branch_matches_def)
  next
    case (2 vs w2)
    from transcribe_parts_refines [of en ps "[]" w1 "Inr vs" w2 ps] 2(1) obtain es2 ds where
      es2: "trace w2 = trace w1 @ es2" "\<not> list_ex output_event es2"
      and run: "astep\<^sup>*\<^sup>* (ARun ps []) (ARun ps ds)"
      and ds: "length ds = length ps" "vs = map snd ds" "map fst ds = ps" "map fst (posted es2) = ps"
        "map (response_value \<circ> snd) (posted es2) = map (Inr \<circ> snd) ds"
      by auto
    from quiet_step [OF quiet_join 2(2)] obtain es3 where
      es3: "trace w' = trace w2 @ es3" "posted es3 = []" "\<not> list_ex output_event es3" .
    show ?thesis
    proof (cases r)
      case (Inl e)
      have "astep (ARun ps ds) (AHalted (map fst ds) e)" using ds(1) by (rule astep.finish_fail)
      with start run have "astep\<^sup>*\<^sup>* (ATrimmed a) (AHalted (map fst ds) e)" by simp
      with es1 es2 es3 ds Inl show ?thesis
        by (intro exI [of _ "es1 @ es2 @ es3"] exI [of _ "AHalted (map fst ds) e"])
          (simp add: branch_matches_def)
    next
      case (Inr full)
      with 2(2) obtain ss where "vs = map JStr ss" "full = JStr (join_with ''\<newline>'' ss)"
        by (auto elim: join_transcriptions_Inr)
      moreover from this(1) ds(2) have "map snd ds = map JStr ss" by simp
      ultimately have "\<forall>x. full = JStr x \<longrightarrow> (\<exists>ss. map snd ds = map JStr ss \<and> x = join_with ''\<newline>'' ss)"
        by blast
      with start run es1 es2 es3 ds Inr show ?thesis
        by (intro exI [of _ "es1 @ es2 @ es3"] exI [of _ "ARun ps ds"])
          (auto simp: branch_matches_def)
    qed
  qed
qed

lemma transcribe_branch_refines:
  assumes "transcribe_branch en a sz w = (r, w')"
  shows "\<exists>es s. trace w' = trace w @ es \<and> \<not> list_ex output_event es \<and>
           astep\<^sup>*\<^sup>* (ATrimmed a) s \<and> branch_matches es s r"
proof -
  let ?m = "if over_limit sz then MsgTooBig else MsgSmall"
  let ?w0 = "w\<lparr>trace := trace w @ [Print ?m]\<rparr>"
  have run: "(if over_limit sz then pbind (split_audio en a ''audio_parts'' 300)
          (\<lambda>parts. pbind (transcribe_parts en parts []) join_transcriptions)
        else transcribe_audio en a) ?w0 = (r, w')"
    using assms by (simp add: transcribe_branch_def py_print_def pyio_simps split: if_splits)
  have "\<exists>es s. trace w' = trace ?w0 @ es \<and> \<not> list_ex output_event es \<and>
           astep\<^sup>*\<^sup>* (ATrimmed a) s \<and> branch_matches es s r"
  proof (cases "over_limit sz")
    case True
    with run show ?thesis by (intro split_branch_refines) simp
  next
    case False
    with run show ?thesis by (intro whole_branch_refines) simp
  qed
  then obtain es s where "trace w' = trace ?w0 @ es" "\<not> list_ex output_event es"
    "astep\<^sup>*\<^sup>* (ATrimmed a) s" "branch_matches es s r" by blast
  then show ?thesis
    by (intro exI [of _ "Print ?m # es"] exI [of _ s])
      (simp add: branch_matches_prefix [of "[Print ?m]", simplified])
qed

subsection \<open>The output step\<close>

text \<open>From a run state with every unit transcribed, the output step ends in
  the written state (the file holds the join of the fragments) or in a halted
  state with all units submitted.\<close>

lemma write_output_refines:
  assumes wo: "write_output full w3 = (r, w')" and reach: "areach (ARun us ds)"
    and m: "length ds = length us" "map fst ds = us" "map fst rs = us"
      "map (response_value \<circ> snd) rs = map (Inr \<circ> snd) ds"
    and jn: "\<forall>x. full = JStr x \<longrightarrow> (\<exists>ss. map snd ds = map JStr ss \<and> x = join_with ''\<newline>'' ss)"
  shows "\<exists>s. areach s \<and> run_matches s r rs (fsys w')"
proof (cases r)
  case (Inl e)
  have "astep (ARun us ds) (AHalted (map fst ds) e)" using m(1) by (rule astep.finish_fail)
  with reach m Inl show ?thesis
    by (intro exI [of _ "AHalted (map fst ds) e"]) auto
next
  case (Inr u)
  from write_output_trace [OF wo] Inr obtain x where
    x: "full = JStr x" "map_of (files (fsys w')) OUTPUT_FILE = Some (Text x)"
    by auto
  with jn obtain ss where "map snd ds = map JStr ss" "x = join_with ''\<newline>'' ss" by blast
  with astep.finish [OF m(1)] have "astep (ARun us ds) (AWritten us ds x)" by simp
  with reach m x Inr show ?thesis
    by (intro exI [of _ "AWritten us ds x"]) auto
qed

end
