(* ===== verification/Commands.thy ===== *)
theory Commands
  imports Pipeline
begin

text \<open>
  The external commands a run of the script starts, in order: the
  \<^verbatim>\<open>silencedetect\<close> probe of the input, then the trimming re-encode when a
  silence end was found, then the segmenting command when the audio is over the
  limit, on the file trimming produced.  No other step of the script starts a
  process.
\<close>

fun execs :: "event list \<Rightarrow> string list list" where
  "execs [] = []"
| "execs (Exec c # es) = c # execs es"
| "execs (_ # es) = execs es"

fun no_exec :: "event \<Rightarrow> bool" where
  "no_exec (Exec _) = False"
| "no_exec _ = True"

subsection \<open>Steps that start no process\<close>

lemma execs_append [simp]: "execs (xs @ ys) = execs xs @ execs ys"
  by (induction xs rule: execs.induct) auto

lemma execs_no_exec: "list_all no_exec es \<Longrightarrow> execs es = []"
  by (induction es rule: execs.induct) auto

lemma no_exec_step:
  assumes "appends no_exec m" and "m w = (r, w')"
  shows "execs (trace w') = execs (trace w)"
proof -
  from assms obtain es where "trace w' = trace w @ es" "list_all no_exec es" by (rule appends_E)
  then show ?thesis by (simp add: execs_no_exec)
qed

lemma no_exec_then:
  assumes "appends no_exec m" and "pbind m f w = (r, w')"
  obtains "execs (trace w') = execs (trace w)"
  | a w1 where "m w = (Inr a, w1)" "execs (trace w1) = execs (trace w)" "f a w1 = (r, w')"
  using assms(2)
proof (cases rule: pbind_cases)
  case (1 e)
  with assms(1) show ?thesis using no_exec_step that(1) by blast
next
  case (2 a w1)
  with assms(1) show ?thesis using no_exec_step that(2) by blast
qed

lemma no_exec_get_file_size: "appends no_exec (get_file_size p)"
  and no_exec_write_output: "appends no_exec (write_output v)"
  and no_exec_transcribe_small: "appends no_exec (pthen (py_print m) (transcribe_audio en a))"
  and no_exec_transcribe_join:
    "appends no_exec (pbind (transcribe_parts en ps []) join_transcriptions)"
  unfolding get_file_size_def write_output_def join_transcriptions_def
  by (intro appends_intros; simp)+

subsection \<open>The commands of each step\<close>

lemma trim_silence_execs:
  assumes "trim_silence en fp op w = (r, w')"
  shows "\<exists>pre. execs (trace w') = execs (trace w) @ silencedetect_cmd fp # pre \<and>
    (pre = [] \<or> (\<exists>t. t \<noteq> [] \<and> pre = [trim_cmd fp t op])) \<and>
    (\<forall>a. r = Inr a \<longrightarrow> a = (if pre = [] then fp else op))"
  using assms unfolding trim_silence_def
proof (cases rule: pbind_cases)
  case (1 e)
  then show ?thesis
    by (intro exI [of _ "[]"]) (auto simp: detect_voice_start_apply split: sum.splits prod.splits)
next
  case (2 st w1)
  from 2(1) have w1: "execs (trace w1) = execs (trace w) @ [silencedetect_cmd fp]"
    by (auto simp: detect_voice_start_apply split: sum.splits prod.splits)
  show ?thesis
  proof (cases "st = None \<or> st = Some []")
    case True
    with 2(2) have "r = Inr fp" "execs (trace w') = execs (trace w1)"
      by (auto simp: trim_simps)
    with w1 show ?thesis by (intro exI [of _ "[]"]) simp
  next
    case False
    then obtain t where t: "st = Some t" "t \<noteq> []" by auto
    with 2(2) have "execs (trace w') = execs (trace w1) @ [trim_cmd fp t op]"
      "\<forall>a. r = Inr a \<longrightarrow> a = op"
      by (auto simp: trim_simps split: sum.splits prod.splits)
    with w1 t(2) show ?thesis by (intro exI [of _ "[trim_cmd fp t op]"]) auto
  qed
qed

lemma run_check_execs: "run_check en argv w = (r, w') \<Longrightarrow> execs (trace w') = execs (trace w) @ [argv]"
  by (auto simp: run_check_apply split: sum.splits prod.splits)

lemma split_audio_execs:
  assumes "split_audio en fp d n w = (r, w')"
  shows "execs (trace w') = execs (trace w) \<or>
    execs (trace w') = execs (trace w) @ [segment_cmd fp n (py_join d ''part_%03d.mp3'')]"
proof -
  have "appends no_exec (makedirs d)" by (intro appends_intros)
  from this assms [unfolded split_audio_def Let_def pthen_apply] show ?thesis
  proof (cases rule: no_exec_then)
    case (2 u w1)
    from 2(3) show ?thesis
    proof (cases rule: pbind_cases)
      case (1 e)
      with 2(2) show ?thesis by (simp add: run_check_execs)
    next
      case (2 u' w2)
      have "appends no_exec (pbind (listdir d) (\<lambda>names. ret (split_listing d names)))"
        by (intro appends_intros)
      from no_exec_step [OF this 2(2)] run_check_execs [OF 2(1)] \<open>execs (trace w1) = _\<close>
      show ?thesis by simp
    qed
  qed simp
qed

lemma transcribe_branch_execs:
  assumes "transcribe_branch en a sz w = (r, w')"
  shows "\<exists>seg. execs (trace w') = execs (trace w) @ seg \<and>
    (seg = [] \<or> seg = [segment_cmd a 300 (py_join ''audio_parts'' ''part_%03d.mp3'')])"
proof (cases "over_limit sz")
  case False
  with assms no_exec_step [OF no_exec_transcribe_small] show ?thesis
    by (simp add: transcribe_branch_def)
next
  case True
  have "appends no_exec (py_print MsgTooBig)" by (intro appends_intros) simp
  from this assms [unfolded transcribe_branch_def, simplified True if_True pthen_apply]
  show ?thesis
  proof (cases rule: no_exec_then)
    case (2 u w1)
    from 2(3) show ?thesis
    proof (cases rule: pbind_cases)
      case (1 e)
      from split_audio_execs [OF 1(1)] 2(2) show ?thesis by auto
    next
      case (2 ps w2)
      from split_audio_execs [OF 2(1)] no_exec_step [OF no_exec_transcribe_join 2(2)]
        \<open>execs (trace w1) = _\<close>
      show ?thesis by auto
    qed
  qed simp
qed

text \<open>After trimming: measuring starts no process, the branch at most the
  segmenting command, writing none.\<close>

lemma script_tail_execs:
  assumes "pbind (get_file_size a) (\<lambda>size. pbind (transcribe_branch en a size) write_output) w = (r, w')"
  shows "\<exists>seg. execs (trace w') = execs (trace w) @ seg \<and>
    (seg = [] \<or> seg = [segment_cmd a 300 (py_join ''audio_parts'' ''part_%03d.mp3'')])"
  using no_exec_get_file_size assms
proof (cases rule: no_exec_then)
  case 1
  then show ?thesis by (intro exI [of _ "[]"]) simp
next
  case (2 sz w2)
  from 2(3) show ?thesis
  proof (cases rule: pbind_cases)
    case (1 e)
    from transcribe_branch_execs [OF 1(1)] \<open>execs (trace w2) = _\<close> show ?thesis by simp
  next
    case (2 v w3)
    from transcribe_branch_execs [OF 2(1)] \<open>execs (trace w2) = _\<close>
      no_exec_step [OF no_exec_write_output 2(2)]
    show ?thesis by simp
  qed
qed

subsection \<open>The commands of a run\<close>

text \<open>C7 (the external commands of a run, in order): a run of the script first
  probes the configured input for silence; it re-encodes the input into the trimmed
  file, with a non-empty start time, only after that probe; and it starts at most one
  segmenting command, after those, on the trimmed file exactly when the trimming
  command ran.  No other process is started, whatever the tools and the service
  answer, errors included.\<close>

theorem transcribe_script_commands:
  assumes "transcribe_script en w = (r, w')"
  shows "\<exists>pre seg. execs (trace w') = execs (trace w) @ silencedetect_cmd AUDIO_FILE # pre @ seg \<and>
    (pre = [] \<or> (\<exists>t. t \<noteq> [] \<and> pre = [trim_cmd AUDIO_FILE t TRIMMED_AUDIO_FILE])) \<and>
    (seg = [] \<or> seg = [segment_cmd (if pre = [] then AUDIO_FILE else TRIMMED_AUDIO_FILE) 300
                           (py_join ''audio_parts'' ''part_%03d.mp3'')])"
  using assms unfolding transcribe_script_def
proof (cases rule: pbind_cases)
  case (1 e)
  from trim_silence_execs [OF 1(1)] obtain pre where
    "execs (trace w') = execs (trace w) @ silencedetect_cmd AUDIO_FILE # pre @ []"
    "pre = [] \<or> (\<exists>t. t \<noteq> [] \<and> pre = [trim_cmd AUDIO_FILE t TRIMMED_AUDIO_FILE])"
    by auto
  then show ?thesis by blast
next
  case (2 a w1)
  from trim_silence_execs [OF 2(1)] obtain pre where
    pre: "execs (trace w1) = execs (trace w) @ silencedetect_cmd AUDIO_FILE # pre"
      "pre = [] \<or> (\<exists>t. t \<noteq> [] \<and> pre = [trim_cmd AUDIO_FILE t TRIMMED_AUDIO_FILE])"
      "a = (if pre = [] then AUDIO_FILE else TRIMMED_AUDIO_FILE)"
    by blast
  from script_tail_execs [OF 2(2)] obtain seg where
    seg: "execs (trace w') = execs (trace w1) @ seg"
      "seg = [] \<or> seg = [segment_cmd a 300 (py_join ''audio_parts'' ''part_%03d.mp3'')]"
    by blast
  from seg(1) pre(1)
  have "execs (trace w') = execs (trace w) @ silencedetect_cmd AUDIO_FILE # pre @ seg" by simp
  with pre(2) seg(2) [unfolded pre(3)] show ?thesis by blast
qed

theorem transcribe_script_commands_witness:
  "execs (trace (snd (transcribe_script (chunk_env (\<lambda>_. 200)) big_world))) =
     [silencedetect_cmd AUDIO_FILE, segment_cmd AUDIO_FILE 300 (py_join ''audio_parts'' ''part_%03d.mp3'')] \<and>
   (\<exists>pre seg. execs (trace (snd (transcribe_script (chunk_env (\<lambda>_. 200)) big_world))) =
      execs (trace big_world) @ silencedetect_cmd AUDIO_FILE # pre @ seg \<and>
    (pre = [] \<or> (\<exists>t. t \<noteq> [] \<and> pre = [trim_cmd AUDIO_FILE t TRIMMED_AUDIO_FILE])) \<and>
    (seg = [] \<or> seg = [segment_cmd (if pre = [] then AUDIO_FILE else TRIMMED_AUDIO_FILE) 300
                           (py_join ''audio_parts'' ''part_%03d.mp3'')]))"
proof -
  have run: "transcribe_script (chunk_env (\<lambda>_. 200)) big_world =
      (fst (transcribe_script (chunk_env (\<lambda>_. 200)) big_world),
       snd (transcribe_script (chunk_env (\<lambda>_. 200)) big_world))" by simp
  have "execs (trace (snd (transcribe_script (chunk_env (\<lambda>_. 200)) big_world))) =
     [silencedetect_cmd AUDIO_FILE, segment_cmd AUDIO_FILE 300 (py_join ''audio_parts'' ''part_%03d.mp3'')]"
    by (simp add: script_eval segment_cmd_def py_join_def)
  from this transcribe_script_commands [OF run] show ?thesis by (rule conjI)
qed

end
