(* ===== verification/Ffmpeg.thy ===== *)
theory Ffmpeg
  imports Split
begin

text \<open>
  The external tool \<^verbatim>\<open>ffmpeg\<close>, as sections 4.1 and 4.2 of the specification
  describe the three invocations the script makes; the tool is not part of the
  repository, so these definitions are modelled from the specification.  The
  audio content is opaque: a recording is \<open>Audio bytes seconds\<close>, and the
  silences the filter would detect in a file are a parameter \<open>sil\<close> (start,
  end and duration as \<^verbatim>\<open>ffmpeg\<close> prints them).
  \<^item> \<^verbatim>\<open>silencedetect\<close>: prints a banner and one \<^verbatim>\<open>silence_start\<close> /
    \<^verbatim>\<open>silence_end\<close> line pair per silence (\<open>sd_log\<close>) on stderr;
  \<^item> the re-encode \<^verbatim>\<open>-ss t\<close>: writes the output file, the input without its
    first \<open>t\<close> seconds (whole seconds), at 128 kbit/s;
  \<^item> the segment muxer \<^verbatim>\<open>-f segment -segment_time n\<close>: reads \<open>n\<close> back from its
    decimal text, writes \<open>\<lceil>dur / n\<rceil>\<close> files of \<open>n\<close> seconds (the last one
    shorter) named by expanding \<^verbatim>\<open>%03d\<close> in the pattern, at 128 kbit/s.
  A missing or non-audio input makes each of them exit with code 1.
\<close>

subsection \<open>Reading the arguments\<close>

fun parse_digits :: "string \<Rightarrow> nat \<Rightarrow> nat option" where
  "parse_digits [] acc = Some acc"
| "parse_digits (c # cs) acc =
     (if is_re_digit c then parse_digits cs (10 * acc + (of_char c - 48)) else None)"

definition parse_nat :: "string \<Rightarrow> nat option" where
  "parse_nat s = (if s = [] then None else parse_digits s 0)"

text \<open>The whole seconds of a timestamp such as \<^verbatim>\<open>12.5\<close>.\<close>

definition secs_of :: "string \<Rightarrow> nat" where
  "secs_of t = (case parse_nat (takeWhile (\<lambda>c. c \<noteq> CHR ''.'') t) of Some k \<Rightarrow> k | None \<Rightarrow> 0)"

text \<open>\<^verbatim>\<open>printf\<close> of the output pattern: the first \<^verbatim>\<open>%03d\<close> is replaced by the
  padded number.\<close>

fun fmt03 :: "string \<Rightarrow> string \<Rightarrow> string" where
  "fmt03 [] s = []"
| "fmt03 (c # cs) s = (if c = CHR ''%'' \<and> take 3 cs = ''03d'' then s @ drop 3 cs else c # fmt03 cs s)"

subsection \<open>The invocations\<close>

definition audio_of :: "nat \<Rightarrow> fdata" where
  "audio_of secs = Audio (16000 * secs) secs"

definition seg_count :: "nat \<Rightarrow> nat \<Rightarrow> nat" where
  "seg_count dur n = (dur + n - 1) div n"

definition seg_dur :: "nat \<Rightarrow> nat \<Rightarrow> nat \<Rightarrow> nat" where
  "seg_dur dur n i = min n (dur - i * n)"

definition segment_files :: "path \<Rightarrow> nat \<Rightarrow> nat \<Rightarrow> (path \<times> fdata) list" where
  "segment_files pat dur n =
     map (\<lambda>i. (fmt03 pat (pad3 (nat_str i)), audio_of (seg_dur dur n i))) [0..<seg_count dur n]"

definition no_input :: "path \<Rightarrow> string" where
  "no_input fp = fp @ '': No such file or directory''"

definition sd_run :: "(path \<Rightarrow> (string \<times> string \<times> string) list) \<Rightarrow> path \<Rightarrow> fsys \<Rightarrow> int \<times> string \<times> fsys" where
  "sd_run sil fp fs =
     (case map_of (files fs) fp of
        Some (Audio _ _) \<Rightarrow> (0, ''ffmpeg version 6.1'' @ sd_log ''0x5f'' (sil fp) @ ''size=N/A'', fs)
      | _ \<Rightarrow> (1, no_input fp, fs))"

definition trim_run :: "path \<Rightarrow> string \<Rightarrow> path \<Rightarrow> fsys \<Rightarrow> int \<times> string \<times> fsys" where
  "trim_run fp st op fs =
     (case map_of (files fs) fp of
        Some (Audio _ dur) \<Rightarrow>
          (0, [], fs\<lparr>files := AList.update op (audio_of (dur - secs_of st)) (files fs)\<rparr>)
      | _ \<Rightarrow> (1, no_input fp, fs))"

definition seg_run :: "path \<Rightarrow> string \<Rightarrow> path \<Rightarrow> fsys \<Rightarrow> int \<times> string \<times> fsys" where
  "seg_run fp t pat fs =
     (case (map_of (files fs) fp, parse_nat t) of
        (Some (Audio _ dur), Some n) \<Rightarrow>
          if n = 0 then (1, ''Invalid segment_time'', fs)
          else (0, [], fs\<lparr>files := foldr (\<lambda>x. AList.update (fst x) (snd x))
                                      (segment_files pat dur n) (files fs)\<rparr>)
      | _ \<Rightarrow> (1, no_input fp, fs))"

definition ffmpeg_run ::
  "(path \<Rightarrow> (string \<times> string \<times> string) list) \<Rightarrow> string list \<Rightarrow> fsys \<Rightarrow> py_error + int \<times> string \<times> fsys" where
  "ffmpeg_run sil argv fs =
     Inr (if argv = silencedetect_cmd (argv ! 2) then sd_run sil (argv ! 2) fs
      else if argv = trim_cmd (argv ! 2) (argv ! 4) (argv ! 9) then trim_run (argv ! 2) (argv ! 4) (argv ! 9) fs
      else if argv = [''ffmpeg'', ''-i'', argv ! 2, ''-f'', ''segment'', ''-segment_time'', argv ! 6,
                      ''-c:a'', ''libmp3lame'', ''-b:a'', ''128k'', argv ! 11]
        then seg_run (argv ! 2) (argv ! 6) (argv ! 11) fs
      else (1, ''Unrecognized option'', fs))"

subsection \<open>The invocations the script makes\<close>

lemma ffmpeg_silencedetect: "ffmpeg_run sil (silencedetect_cmd fp) fs = Inr (sd_run sil fp fs)"
  by (simp add: ffmpeg_run_def silencedetect_cmd_def)

lemma ffmpeg_trim: "ffmpeg_run sil (trim_cmd fp st op) fs = Inr (trim_run fp st op fs)"
  by (simp add: ffmpeg_run_def silencedetect_cmd_def trim_cmd_def)

lemma ffmpeg_segment: "ffmpeg_run sil (segment_cmd fp n pat) fs = Inr (seg_run fp (nat_str n) pat fs)"
  by (simp add: ffmpeg_run_def silencedetect_cmd_def trim_cmd_def segment_cmd_def)

subsection \<open>Numbers\<close>

lemma parse_digits_append:
  "parse_digits (xs @ ys) acc = (case parse_digits xs acc of None \<Rightarrow> None | Some a \<Rightarrow> parse_digits ys a)"
  by (induction xs arbitrary: acc) auto

lemma is_re_digit_digit_char: "n < 10 \<Longrightarrow> is_re_digit (digit_char n)"
  by (simp add: is_re_digit_def of_char_digit_char)

lemma parse_digits_nat_str: "parse_digits (nat_str n) acc = Some (acc * 10 ^ length (nat_str n) + n)"
proof (induction n arbitrary: acc rule: nat_str.induct)
  case (1 n)
  show ?case
  proof (cases "n < 10")
    case True
    then show ?thesis by (simp add: is_re_digit_digit_char of_char_digit_char)
  next
    case False
    have "10 * (acc * 10 ^ length (nat_str (n div 10)) + n div 10) + n mod 10 =
          acc * (10 * 10 ^ length (nat_str (n div 10))) + n"
      by simp
    with False show ?thesis
      by (simp add: "1" parse_digits_append is_re_digit_digit_char of_char_digit_char)
  qed
qed

lemma nat_str_ne: "nat_str n \<noteq> []"
  by (cases "n < 10") simp_all

lemma parse_nat_nat_str: "parse_nat (nat_str n) = Some n"
  by (simp add: parse_nat_def parse_digits_nat_str nat_str_ne)

subsection \<open>The segment files in the folder\<close>

lemma fmt03_free: "CHR ''%'' \<notin> set a \<Longrightarrow> fmt03 (a @ b) s = a @ fmt03 b s"
  by (induction a) auto

lemma py_join_plain: "d \<noteq> [] \<Longrightarrow> CHR ''/'' \<notin> set d \<Longrightarrow> take 1 n \<noteq> ''/'' \<Longrightarrow> py_join d n = d @ ''/'' @ n"
  by (auto simp: py_join_def dest: last_in_set)

lemma seg_pattern:
  assumes "d \<noteq> []" "CHR ''/'' \<notin> set d" "CHR ''%'' \<notin> set d"
  shows "fmt03 (py_join d ''part_%03d.mp3'') (pad3 (nat_str i)) = py_join d (seg_name i)"
  using assms by (simp add: py_join_plain seg_name_def fmt03_free)

lemma keys_foldr_update:
  "fst ` set (foldr (\<lambda>x. AList.update (fst x) (snd x)) xs al) = fst ` set xs \<union> fst ` set al"
  by (induction xs) (auto simp: dom_update)

lemma set_dir_entries:
  "set (dir_entries fs d) = {n. \<exists>q \<in> fst ` set (files fs) \<union> set (dirs fs). child_name d q = Some n}"
  unfolding dir_entries_def List.map_filter_def by force

lemma seg_name_mp3: "endswith (seg_name i) ''.mp3''"
  by (simp add: seg_name_def endswith_def)

lemma seg_name_no_slash: "CHR ''/'' \<notin> set (seg_name i)"
  using nat_str_digits [of i] by (auto simp: seg_name_def pad3_def)

lemma child_name_self: "child_name d d = None"
  by (simp add: child_name_def Let_def)

text \<open>After the muxer ran in a folder, its \<^verbatim>\<open>.mp3\<close> entries are the names
  of the segments it wrote and the \<^verbatim>\<open>.mp3\<close> entries the folder held before.\<close>

lemma seg_entries_stale:
  assumes d: "d \<noteq> []" "CHR ''/'' \<notin> set d"
    and keys: "fst ` set (files fs') = py_join d ` seg_name ` {..<k} \<union> fst ` set (files fs)"
    and dirs: "set (dirs fs) \<subseteq> set (dirs fs')" "set (dirs fs') \<subseteq> insert d (set (dirs fs))"
  shows "set (filter (\<lambda>f. endswith f ''.mp3'') (dir_entries fs' d)) =
           seg_name ` {..<k} \<union> set (filter (\<lambda>f. endswith f ''.mp3'') (dir_entries fs d))"
proof (rule set_eqI)
  fix f
  let ?mp3 = "\<lambda>fs. set (filter (\<lambda>f. endswith f ''.mp3'') (dir_entries fs d))"
  have cn: "child_name d (py_join d (seg_name i)) = Some (seg_name i)" for i
    using d by (intro child_name_join) (auto simp: seg_name_no_slash seg_name_relative dest: last_in_set)
  show "f \<in> ?mp3 fs' \<longleftrightarrow> f \<in> seg_name ` {..<k} \<union> ?mp3 fs"
  proof
    assume "f \<in> ?mp3 fs'"
    then obtain q where q: "q \<in> fst ` set (files fs') \<union> set (dirs fs')" "child_name d q = Some f"
      and mp3: "endswith f ''.mp3''"
      by (auto simp: set_dir_entries)
    show "f \<in> seg_name ` {..<k} \<union> ?mp3 fs"
    proof (cases "f \<in> seg_name ` {..<k}")
      case False
      from q keys dirs(2) False have "q \<in> fst ` set (files fs) \<union> set (dirs fs)"
        by (auto simp: cn child_name_self)
      with q(2) mp3 show ?thesis by (auto simp: set_dir_entries)
    qed simp
  next
    assume "f \<in> seg_name ` {..<k} \<union> ?mp3 fs"
    then show "f \<in> ?mp3 fs'"
    proof (rule UnE)
      assume "f \<in> seg_name ` {..<k}"
      with keys show ?thesis
        by (auto simp: set_dir_entries cn seg_name_mp3 intro!: bexI [of _ "py_join d f"])
    next
      assume "f \<in> ?mp3 fs"
      with keys dirs(1) show ?thesis by (auto simp: set_dir_entries)
    qed
  qed
qed

lemma seg_names_distinct:
  assumes "k \<le> 1000"
  shows "distinct (map seg_name [0..<k])"
proof -
  have "inj_on seg_name (set [0..<k])"
  proof (rule inj_onI)
    fix i j
    assume "i \<in> set [0..<k]" "j \<in> set [0..<k]" and eq: "seg_name i = seg_name j"
    with assms have "i < 1000" "j < 1000" by auto
    with eq seg_name_less [of i j] seg_name_less [of j i] show "i = j"
      by (metis less_irrefl linorder_neqE_nat)
  qed
  then show ?thesis by (simp add: distinct_map)
qed

lemma segment_files_keys:
  assumes "d \<noteq> []" "CHR ''/'' \<notin> set d" "CHR ''%'' \<notin> set d"
  shows "fst ` set (segment_files (py_join d ''part_%03d.mp3'') dur n) = py_join d ` seg_name ` {..<seg_count dur n}"
  using assms by (auto simp: segment_files_def seg_pattern image_image atLeast0LessThan)

lemma map_of_foldr_update_in:
  "p \<in> fst ` set xs \<Longrightarrow> \<exists>v \<in> snd ` set xs. map_of (foldr (\<lambda>x. AList.update (fst x) (snd x)) xs al) p = Some v"
  by (induction xs) (auto simp: update_conv')

text \<open>Every segment the muxer writes is at most \<open>n\<close> seconds of 128 kbit/s audio.\<close>

lemma segment_file_small:
  assumes "d \<noteq> []" "CHR ''/'' \<notin> set d" "CHR ''%'' \<notin> set d"
    and "p \<in> py_join d ` seg_name ` {..<seg_count dur n}"
  shows "\<exists>dur'. map_of (foldr (\<lambda>x. AList.update (fst x) (snd x))
             (segment_files (py_join d ''part_%03d.mp3'') dur n) al) p = Some (audio_of dur') \<and> dur' \<le> n"
proof -
  from assms have "p \<in> fst ` set (segment_files (py_join d ''part_%03d.mp3'') dur n)"
    by (simp add: segment_files_keys)
  from map_of_foldr_update_in [OF this, of al] obtain v where
    v: "v \<in> snd ` set (segment_files (py_join d ''part_%03d.mp3'') dur n)"
      "map_of (foldr (\<lambda>x. AList.update (fst x) (snd x))
         (segment_files (py_join d ''part_%03d.mp3'') dur n) al) p = Some v"
    by blast
  from v(1) obtain i where "v = audio_of (seg_dur dur n i)" by (auto simp: segment_files_def)
  with v(2) show ?thesis by (intro exI [of _ "seg_dur dur n i"]) (simp add: seg_dur_def)
qed

text \<open>A split with the muxer, with the world it leaves: the folder exists
  and holds the muxer's segments, and the result is the listing of that folder.\<close>

lemma split_audio_ffmpeg_world:
  assumes ff: "run_proc en = ffmpeg_run sil"
    and inp: "map_of (files (fsys w)) fp = Some (Audio sz dur)" and n: "0 < n"
    and d: "d \<noteq> []" "CHR ''/'' \<notin> set d" "\<not> is_file (fsys w) d"
  defines "fs2 \<equiv> (fsys w)\<lparr>dirs := dirs (fsys w) @ filter (\<lambda>a. \<not> is_dir (fsys w) a) [d],
          files := foldr (\<lambda>x. AList.update (fst x) (snd x))
                     (segment_files (py_join d ''part_%03d.mp3'') dur n) (files (fsys w))\<rparr>"
  shows "split_audio en fp d n w =
    (Inr (split_listing d (dir_entries fs2 d)),
     w\<lparr>fsys := fs2, trace := trace w @ [Exec (segment_cmd fp n (py_join d ''part_%03d.mp3''))]\<rparr>)"
proof -
  define fs1 where "fs1 = (fsys w)\<lparr>dirs := dirs (fsys w) @ filter (\<lambda>a. \<not> is_dir (fsys w) a) [d]\<rparr>"
  define pat where "pat = py_join d ''part_%03d.mp3''"
  have mk: "makedirs d w = (Inr (), w\<lparr>fsys := fs1\<rparr>)"
    using d by (simp add: makedirs_def ancestors_no_slash fs1_def pyio_simps Let_def)
  have run: "run_proc en (segment_cmd fp n pat) fs1 = Inr (0, [], fs2)"
    using inp n by (simp add: ff ffmpeg_segment seg_run_def parse_nat_nat_str fs1_def fs2_def pat_def)
  have ls: "is_dir fs2 d" by (auto simp: is_dir_def fs2_def)
  show ?thesis
    unfolding split_audio_def Let_def pat_def [symmetric]
    by (simp add: pyio_simps mk run_check_apply run listdir_def ls)
qed

text \<open>The muxer adds its segments to the folder's files and at most the folder
  to the directories.\<close>

lemma seg_fsys_entries:
  assumes d: "d \<noteq> []" "CHR ''/'' \<notin> set d" "CHR ''%'' \<notin> set d"
  shows "set (filter (\<lambda>f. endswith f ''.mp3'')
           (dir_entries ((fsys w)\<lparr>dirs := dirs (fsys w) @ filter (\<lambda>a. \<not> is_dir (fsys w) a) [d],
              files := foldr (\<lambda>x. AList.update (fst x) (snd x))
                (segment_files (py_join d ''part_%03d.mp3'') dur n) (files (fsys w))\<rparr>) d)) =
         seg_name ` {..<seg_count dur n} \<union> set (filter (\<lambda>f. endswith f ''.mp3'') (dir_entries (fsys w) d))"
  using d(1,2) by (rule seg_entries_stale) (auto simp: keys_foldr_update segment_files_keys d)

text \<open>A split into a fresh folder: the muxer's parts in chronological order.\<close>

lemma split_audio_ffmpeg:
  assumes ff: "run_proc en = ffmpeg_run sil"
    and inp: "map_of (files (fsys w)) fp = Some (Audio sz dur)"
    and n: "0 < n" and k: "seg_count dur n \<le> 1000"
    and d: "d \<noteq> []" "CHR ''/'' \<notin> set d" "CHR ''%'' \<notin> set d" "\<not> is_file (fsys w) d"
    and fresh: "\<forall>f \<in> set (dir_entries (fsys w) d). \<not> endswith f ''.mp3''"
  shows "split_audio en fp d n w =
    (Inr (map (py_join d) (map seg_name [0..<seg_count dur n])),
     w\<lparr>fsys := (fsys w)\<lparr>dirs := dirs (fsys w) @ filter (\<lambda>a. \<not> is_dir (fsys w) a) [d],
          files := foldr (\<lambda>x. AList.update (fst x) (snd x))
                     (segment_files (py_join d ''part_%03d.mp3'') dur n) (files (fsys w))\<rparr>,
       trace := trace w @ [Exec (segment_cmd fp n (py_join d ''part_%03d.mp3''))]\<rparr>)"
proof -
  let ?fs2 = "(fsys w)\<lparr>dirs := dirs (fsys w) @ filter (\<lambda>a. \<not> is_dir (fsys w) a) [d],
          files := foldr (\<lambda>x. AList.update (fst x) (snd x))
                     (segment_files (py_join d ''part_%03d.mp3'') dur n) (files (fsys w))\<rparr>"
  from fresh have e: "set (filter (\<lambda>f. endswith f ''.mp3'') (dir_entries (fsys w) d)) = {}" by auto
  have "set (filter (\<lambda>f. endswith f ''.mp3'') (dir_entries ?fs2 d)) = seg_name ` {..<seg_count dur n}"
    using seg_fsys_entries [OF d(1-3), where w = w and dur = dur and n = n] unfolding e Un_empty_right .
  then have "mset (filter (\<lambda>f. endswith f ''.mp3'') (dir_entries ?fs2 d)) = mset (map seg_name [0..<seg_count dur n])"
    using seg_names_distinct [OF k] distinct_dir_entries
    by (subst set_eq_iff_mset_eq_distinct [symmetric]) (simp_all add: atLeast0LessThan)
  with k have "split_listing d (dir_entries ?fs2 d) = map (py_join d) (map seg_name [0..<seg_count dur n])"
    using split_listing_seg_names by blast
  with split_audio_ffmpeg_world [OF ff inp n d(1,2,4)] show ?thesis by simp
qed

lemma trim_silence_no_silence:
  assumes ff: "run_proc en = ffmpeg_run sil"
    and inp: "map_of (files (fsys w)) fp = Some (Audio sz dur)" and none: "sil fp = []"
  shows "trim_silence en fp op w =
           (Inr fp, w\<lparr>trace := trace w @ [Exec (silencedetect_cmd fp), Print MsgNoSilence]\<rparr>)"
proof -
  have "re_search (''ffmpeg version 6.1'' @ ''size=N/A'') = None"
    by (simp add: match_at_def silence_key_def)
  with none inp show ?thesis by (simp add: trim_simps ff ffmpeg_silencedetect sd_run_def)
qed

subsection \<open>Properties\<close>

text \<open>
  C13 (functional).  With the segment muxer the specification describes, a
  split of an input of \<open>dur\<close> seconds into a fresh folder (no
  \<^verbatim>\<open>.mp3\<close> entries yet) returns exactly \<open>\<lceil>dur / n\<rceil>\<close> units, the muxer's
  part names in chronological order, whenever there are at most 1000 of them
  (section 8: a 900-second file with 300-second segments gives 3 units).
\<close>

theorem split_audio_units:
  assumes ff: "run_proc en = ffmpeg_run sil"
    and inp: "map_of (files (fsys w)) fp = Some (Audio sz dur)"
    and n: "0 < n" and k: "seg_count dur n \<le> 1000"
    and d: "d \<noteq> []" "CHR ''/'' \<notin> set d" "CHR ''%'' \<notin> set d" "\<not> is_file (fsys w) d"
    and fresh: "\<forall>f \<in> set (dir_entries (fsys w) d). \<not> endswith f ''.mp3''"
  shows "\<exists>w'. split_audio en fp d n w = (Inr (map (py_join d) (map seg_name [0..<seg_count dur n])), w')"
  using split_audio_ffmpeg [OF assms] by blast

theorem split_audio_units_witness:
  "seg_count 900 300 = 3 \<and>
   (\<exists>w'. split_audio \<lparr>run_proc = ffmpeg_run (\<lambda>_. []), http_post = (\<lambda>_ _ _ _. Inl ConnectionError),
                        api_key = ''sk-test''\<rparr> ''audio/trimmed_lecture.mp4'' ''audio_parts'' 300
           \<lparr>fsys = \<lparr>files = [(''audio/trimmed_lecture.mp4'', Audio 14400000 900)], dirs = [''audio'']\<rparr>, trace = []\<rparr> =
         (Inr [''audio_parts/part_000.mp3'', ''audio_parts/part_001.mp3'', ''audio_parts/part_002.mp3''], w'))"
proof -
  let ?en = "\<lparr>run_proc = ffmpeg_run (\<lambda>_. []), http_post = (\<lambda>_ _ _ _. Inl ConnectionError),
              api_key = ''sk-test''\<rparr>"
  let ?w = "\<lparr>fsys = \<lparr>files = [(''audio/trimmed_lecture.mp4'', Audio 14400000 900)], dirs = [''audio'']\<rparr>, trace = []\<rparr>"
  have c: "seg_count 900 300 = 3" by (simp add: seg_count_def)
  have ff: "run_proc ?en = ffmpeg_run (\<lambda>_. [])" by simp
  have inp: "map_of (files (fsys ?w)) ''audio/trimmed_lecture.mp4'' = Some (Audio 14400000 900)" by simp
  have k: "seg_count 900 300 \<le> 1000" by (simp add: c)
  have d: "''audio_parts'' \<noteq> []" "CHR ''/'' \<notin> set ''audio_parts''" "CHR ''%'' \<notin> set ''audio_parts''"
    "\<not> is_file (fsys ?w) ''audio_parts''"
    by (simp_all add: is_file_def)
  have fresh: "\<forall>f \<in> set (dir_entries (fsys ?w) ''audio_parts''). \<not> endswith f ''.mp3''"
    by (simp add: dir_entries_def child_name_def)
  have l: "map (py_join ''audio_parts'') (map seg_name [0..<3]) =
      [''audio_parts/part_000.mp3'', ''audio_parts/part_001.mp3'', ''audio_parts/part_002.mp3'']"
    by (simp add: seg_name_def pad3_def py_join_def upt_rec digit_char_def replicate_1_2)
  from split_audio_units [OF ff inp _ k d fresh] c l show ?thesis by simp
qed

text \<open>
  C15 (functional).  The list \<^verbatim>\<open>split_audio\<close> returns is not the list of
  the files this run produced: with the segment muxer of the specification, it
  is sorted and duplicate-free, and its elements are the paths of the muxer's
  \<open>\<lceil>dur / n\<rceil>\<close> parts together with every \<^verbatim>\<open>.mp3\<close> entry the folder
  held before the run.  The folder is never emptied, so the parts of an earlier,
  longer recording are returned, and transcribed, too.
\<close>

theorem split_audio_keeps_stale_parts:
  assumes ff: "run_proc en = ffmpeg_run sil"
    and inp: "map_of (files (fsys w)) fp = Some (Audio sz dur)" and n: "0 < n"
    and d: "d \<noteq> []" "CHR ''/'' \<notin> set d" "CHR ''%'' \<notin> set d" "\<not> is_file (fsys w) d"
  shows "\<exists>ps w'. split_audio en fp d n w = (Inr ps, w') \<and> sorted ps \<and> distinct ps \<and>
           set ps = py_join d ` (seg_name ` {..<seg_count dur n} \<union>
                                 {f \<in> set (dir_entries (fsys w) d). endswith f ''.mp3''})"
proof -
  obtain w' where sp: "split_audio en fp d n w = (Inr (split_listing d (dir_entries (fsys w') d)), w')"
    and e: "set (filter (\<lambda>f. endswith f ''.mp3'') (dir_entries (fsys w') d)) =
              seg_name ` {..<seg_count dur n} \<union> set (filter (\<lambda>f. endswith f ''.mp3'') (dir_entries (fsys w) d))"
    using split_audio_ffmpeg_world [OF ff inp n d(1,2,4)] seg_fsys_entries [OF d(1-3)] by fastforce
  from split_audio_sorted_distinct [OF sp] e show ?thesis
    by (intro exI [of _ "split_listing d (dir_entries (fsys w') d)"] exI [of _ w'])
       (simp add: sp split_listing_def)
qed

theorem split_audio_keeps_stale_parts_witness:
  "\<exists>ps w'. split_audio \<lparr>run_proc = ffmpeg_run (\<lambda>_. []), http_post = (\<lambda>_ _ _ _. Inl ConnectionError),
                        api_key = ''sk-test''\<rparr> ''audio/trimmed_lecture.mp4'' ''audio_parts'' 300
      \<lparr>fsys = \<lparr>files = [(''audio/trimmed_lecture.mp4'', Audio 14400000 900),
                 (''audio_parts/part_000.mp3'', Audio 4800000 300), (''audio_parts/part_001.mp3'', Audio 4800000 300),
                 (''audio_parts/part_002.mp3'', Audio 4800000 300), (''audio_parts/part_003.mp3'', Audio 4800000 300),
                 (''audio_parts/part_004.mp3'', Audio 4800000 300)],
               dirs = [''audio'', ''audio_parts'']\<rparr>, trace = []\<rparr> = (Inr ps, w') \<and>
    seg_count 900 300 = 3 \<and> ''audio_parts/part_004.mp3'' \<in> set ps"
proof -
  let ?en = "\<lparr>run_proc = ffmpeg_run (\<lambda>_. []), http_post = (\<lambda>_ _ _ _. Inl ConnectionError),
              api_key = ''sk-test''\<rparr>"
  let ?w = "\<lparr>fsys = \<lparr>files = [(''audio/trimmed_lecture.mp4'', Audio 14400000 900),
                 (''audio_parts/part_000.mp3'', Audio 4800000 300), (''audio_parts/part_001.mp3'', Audio 4800000 300),
                 (''audio_parts/part_002.mp3'', Audio 4800000 300), (''audio_parts/part_003.mp3'', Audio 4800000 300),
                 (''audio_parts/part_004.mp3'', Audio 4800000 300)],
               dirs = [''audio'', ''audio_parts'']\<rparr>, trace = []\<rparr>"
  have ff: "run_proc ?en = ffmpeg_run (\<lambda>_. [])" by simp
  have inp: "map_of (files (fsys ?w)) ''audio/trimmed_lecture.mp4'' = Some (Audio 14400000 900)" by simp
  have d: "''audio_parts'' \<noteq> []" "CHR ''/'' \<notin> set ''audio_parts''" "CHR ''%'' \<notin> set ''audio_parts''"
    "\<not> is_file (fsys ?w) ''audio_parts''"
    by (simp_all add: is_file_def)
  have c: "seg_count 900 300 = 3" by (simp add: seg_count_def)
  have st: "''part_004.mp3'' \<in> {f \<in> set (dir_entries (fsys ?w) ''audio_parts''). endswith f ''.mp3''}"
    by (simp add: dir_entries_def child_name_def endswith_def)
  have j: "py_join ''audio_parts'' ''part_004.mp3'' = ''audio_parts/part_004.mp3''" by (simp add: py_join_def)
  have n: "0 < (300::nat)" by simp
  from split_audio_keeps_stale_parts [OF ff inp n d] obtain ps w' where
    r: "split_audio ?en ''audio/trimmed_lecture.mp4'' ''audio_parts'' 300 ?w = (Inr ps, w')" and
    s: "set ps = py_join ''audio_parts'' ` (seg_name ` {..<seg_count 900 300} \<union>
          {f \<in> set (dir_entries (fsys ?w) ''audio_parts''). endswith f ''.mp3''})"
    by (elim exE conjE)
  from st have "py_join ''audio_parts'' ''part_004.mp3'' \<in> set ps" unfolding s by (rule imageI [OF UnI2])
  with r c j show ?thesis by (intro exI [of _ ps] exI [of _ w']) simp
qed

text \<open>
  C25 (functional).  With the \<^verbatim>\<open>ffmpeg\<close> the specification describes,
  \<^verbatim>\<open>trim_silence\<close> on a recording without detected silence returns the input
  path unchanged after the probe alone, with no copy made (section 8, second
  property); on a recording whose first detected silence ends at \<open>e\<close>, it
  re-encodes from exactly that timestamp as the tool printed it (section 8, first
  property) and returns the output path, which then holds the recording without
  its first \<open>e\<close> whole seconds.
\<close>

theorem trim_silence_ffmpeg:
  assumes ff: "run_proc en = ffmpeg_run sil"
    and inp: "map_of (files (fsys w)) fp = Some (Audio sz dur)"
    and num: "\<forall>(st, e, du) \<in> set (take 1 (sil fp)). is_num_text st \<and> is_num_text e"
  shows "trim_silence en fp op w =
    (case sil fp of
       [] \<Rightarrow> (Inr fp, w\<lparr>trace := trace w @ [Exec (silencedetect_cmd fp), Print MsgNoSilence]\<rparr>)
     | (st, e, du) # _ \<Rightarrow>
         (Inr op, w\<lparr>fsys := (fsys w)\<lparr>files := AList.update op (audio_of (dur - secs_of e)) (files (fsys w))\<rparr>,
                    trace := trace w @ [Exec (silencedetect_cmd fp), Print (MsgTrimming e),
                                        Exec (trim_cmd fp e op)]\<rparr>))"
proof (cases "sil fp")
  case Nil
  with trim_silence_no_silence [OF ff inp Nil] show ?thesis by simp
next
  case (Cons x ivs)
  then obtain st e du where x: "sil fp = (st, e, du) # ivs" by (cases x) auto
  with num have st: "is_num_text st" and e: "is_num_text e" by auto
  have "re_search (''ffmpeg version 6.1'' @ sd_log ''0x5f'' ((st, e, du) # ivs) @ ''size=N/A'') = Some e"
    using _ _ st e by (rule re_search_sd_log) (simp_all add: match_at_def silence_key_def)
  moreover from e have "e \<noteq> []" by (simp add: is_num_text_def)
  ultimately show ?thesis
    using x inp by (simp add: trim_simps ff ffmpeg_silencedetect ffmpeg_trim sd_run_def trim_run_def)
qed

theorem trim_silence_ffmpeg_witness:
  "trim_silence \<lparr>run_proc = ffmpeg_run (\<lambda>_. [(''0'', ''2.5'', ''2.5'')]),
                  http_post = (\<lambda>_ _ _ _. Inl ConnectionError), api_key = ''sk-test''\<rparr>
      ''in.mp4'' ''out.mp4'' \<lparr>fsys = \<lparr>files = [(''in.mp4'', Audio 14400000 900)], dirs = []\<rparr>, trace = []\<rparr> =
   (Inr ''out.mp4'', \<lparr>fsys = \<lparr>files = [(''in.mp4'', Audio 14400000 900), (''out.mp4'', audio_of 898)], dirs = []\<rparr>,
      trace = [Exec (silencedetect_cmd ''in.mp4''), Print (MsgTrimming ''2.5''),
               Exec (trim_cmd ''in.mp4'' ''2.5'' ''out.mp4'')]\<rparr>)"
proof -
  let ?en = "\<lparr>run_proc = ffmpeg_run (\<lambda>_. [(''0'', ''2.5'', ''2.5'')]),
              http_post = (\<lambda>_ _ _ _. Inl ConnectionError), api_key = ''sk-test''\<rparr>"
  let ?w = "\<lparr>fsys = \<lparr>files = [(''in.mp4'', Audio 14400000 900)], dirs = []\<rparr>, trace = []\<rparr>"
  have ff: "run_proc ?en = ffmpeg_run (\<lambda>_. [(''0'', ''2.5'', ''2.5'')])" by simp
  have inp: "map_of (files (fsys ?w)) ''in.mp4'' = Some (Audio 14400000 900)" by simp
  have num: "\<forall>(st, e, du) \<in> set (take 1 ((\<lambda>_. [(''0'', ''2.5'', ''2.5'')]) ''in.mp4'')).
               is_num_text st \<and> is_num_text e"
    by (simp add: is_num_text_def is_num_char_def is_re_digit_def)
  have s: "secs_of ''2.5'' = 2" by (simp add: secs_of_def parse_nat_def is_re_digit_def)
  from trim_silence_ffmpeg [OF ff inp num, of "''out.mp4''"] s show ?thesis by simp
qed

end
