(* ===== verification/Whisper.thy ===== *)
theory Whisper
  imports Transcribe
begin

text \<open>
  The remote transcription service, as sections 4.2, 4.3 and 6 of the
  specification describe it; it is not part of the repository, so it is
  modelled from the specification.  One endpoint takes a multipart upload
  (field \<^verbatim>\<open>file\<close> and the form fields) with a bearer credential, answers
  a JSON object with a \<^verbatim>\<open>text\<close> entry on success, and a non-2xx status with
  an error body on failure; it enforces an upload size cap (the reason for the
  script's 25 MiB threshold, section 4.2), here the parameter \<open>cap\<close> in bytes.
  The transcript of a file is opaque: the parameter \<open>tr\<close>.
\<close>

definition text_reply :: "string \<Rightarrow> response" where
  "text_reply t = \<lparr>status_code = 200, resp_json = Some (JObj [(''text'', JStr t)])\<rparr>"

definition error_reply :: "nat \<Rightarrow> string \<Rightarrow> response" where
  "error_reply st msg = \<lparr>status_code = st, resp_json = Some (JObj [(''error'', JObj [(''message'', JStr msg)])])\<rparr>"

definition whisper_service ::
  "nat \<Rightarrow> string \<Rightarrow> (path \<Rightarrow> string) \<Rightarrow> string \<Rightarrow> (string \<times> string) list \<Rightarrow>
   (string \<times> path \<times> fdata) list \<Rightarrow> (string \<times> string) list \<Rightarrow> py_error + response" where
  "whisper_service cap key tr url headers fl data =
     Inr (if url \<noteq> whisper_url then error_reply 404 ''Not found''
          else if map_of headers ''Authorization'' \<noteq> Some (''Bearer '' @ key)
            then error_reply 401 ''Incorrect API key provided''
          else if map_of data ''model'' \<noteq> Some ''whisper-1'' then error_reply 400 ''Invalid model''
          else (case fl of
                  [(field, p, Audio sz _)] \<Rightarrow>
                    if field \<noteq> ''file'' then error_reply 400 ''No file provided''
                    else if cap < sz then error_reply 413 ''Maximum content size limit exceeded''
                    else text_reply (tr p)
                | _ \<Rightarrow> error_reply 400 ''Invalid file format''))"

subsection \<open>The uploads the script makes\<close>

lemma whisper_upload:
  "whisper_service cap (api_key en) tr whisper_url (auth_headers en) [(''file'', p, Audio sz dur)] whisper_form =
     Inr (if cap < sz then error_reply 413 ''Maximum content size limit exceeded'' else text_reply (tr p))"
  by (simp add: whisper_service_def auth_headers_def whisper_form_def)

lemma transcribe_audio_upload:
  assumes "http_post en = whisper_service cap (api_key en) tr"
    and "map_of (files (fsys w)) p = Some (Audio sz dur)"
  shows "transcribe_audio en p w =
    (if cap < sz
     then (Inl (HTTPError 413), w\<lparr>trace := trace w @ [Print (MsgSending p),
             Posted p (error_reply 413 ''Maximum content size limit exceeded'')]\<rparr>)
     else (Inr (JStr (tr p)), w\<lparr>trace := trace w @ [Print (MsgSending p), Posted p (text_reply (tr p))]\<rparr>))"
  using assms
  by (simp add: transcribe_audio_apply whisper_upload response_value_def text_reply_def error_reply_def)

subsection \<open>Properties\<close>

text \<open>
  C21 (functional).  Against the service of the specification, called with the
  script's own credential, \<^verbatim>\<open>transcribe_audio\<close> returns the service's
  transcript of a recording exactly when the recording is within the upload cap,
  and raises \<^verbatim>\<open>HTTPError\<close> 413 otherwise; either way after one request.
\<close>

theorem transcribe_audio_whisper:
  assumes "http_post en = whisper_service cap (api_key en) tr"
    and "map_of (files (fsys w)) p = Some (Audio sz dur)"
  shows "fst (transcribe_audio en p w) = (if sz \<le> cap then Inr (JStr (tr p)) else Inl (HTTPError 413)) \<and>
         trace (snd (transcribe_audio en p w)) =
           trace w @ [Print (MsgSending p),
             Posted p (if sz \<le> cap then text_reply (tr p)
                       else error_reply 413 ''Maximum content size limit exceeded'')]"
  using transcribe_audio_upload [OF assms] by simp

theorem transcribe_audio_whisper_witness:
  "fst (transcribe_audio \<lparr>run_proc = (\<lambda>_ fs. Inr (0, [], fs)),
        http_post = whisper_service 26214400 ''sk-test'' (\<lambda>p. ''lecture of '' @ p), api_key = ''sk-test''\<rparr>
      ''big.mp3'' \<lparr>fsys = \<lparr>files = [(''big.mp3'', Audio 30000000 1900)], dirs = []\<rparr>, trace = []\<rparr>) =
   Inl (HTTPError 413)"
proof -
  have h1: "http_post \<lparr>run_proc = (\<lambda>_ fs. Inr (0, [], fs)),
          http_post = whisper_service 26214400 ''sk-test'' (\<lambda>p. ''lecture of '' @ p), api_key = ''sk-test''\<rparr> =
        whisper_service 26214400 (api_key \<lparr>run_proc = (\<lambda>_ fs. Inr (0, [], fs)),
          http_post = whisper_service 26214400 ''sk-test'' (\<lambda>p. ''lecture of '' @ p), api_key = ''sk-test''\<rparr>)
          (\<lambda>p. ''lecture of '' @ p)" by simp
  have h2: "map_of (files (fsys \<lparr>fsys = \<lparr>files = [(''big.mp3'', Audio 30000000 1900)], dirs = []\<rparr>,
      trace = []\<rparr>)) ''big.mp3'' = Some (Audio 30000000 1900)" by simp
  from transcribe_audio_whisper [OF h1 h2] show ?thesis by simp
qed

end
