(* ===== verification/Spec2Isabelle.thy ===== *)
theory Spec2Isabelle
  imports Refinement Commands Ffmpeg Whisper
begin

text \<open>
  \<^bold>\<open>A verification development of \<^verbatim>\<open>src/transcribe.py\<close>.\<close>

  The program is one Python script that turns a recorded lecture into text.
  Its parts and their interaction:
  \<^item> \<^verbatim>\<open>detect_voice_start\<close> (lines 17--33) runs \<^verbatim>\<open>ffmpeg\<close> with the
    \<^verbatim>\<open>silencedetect\<close> filter and scans its stderr with the regular expression
    \<^verbatim>\<open>silence_end:\s*([\d\.]+)\<close>;
  \<^item> \<^verbatim>\<open>trim_silence\<close> (lines 35--50) re-encodes the recording from that time
    on, or keeps the original;
  \<^item> \<^verbatim>\<open>get_file_size\<close> (lines 14--15) measures the result in MiB against the
    25 MiB limit of the transcription service;
  \<^item> \<^verbatim>\<open>split_audio\<close> (lines 52--67) cuts a large recording into five-minute
    MP3 parts with the \<^verbatim>\<open>ffmpeg\<close> segment muxer and returns their sorted paths;
  \<^item> \<^verbatim>\<open>transcribe_audio\<close> (lines 70--85) posts one file to the Whisper endpoint
    and returns the \<^verbatim>\<open>"text"\<close> of the JSON answer;
  \<^item> the module-level script (lines 87--109) chains them: trim, measure,
    transcribe the parts in order and join them with newlines (or transcribe the
    whole file), and write \<^verbatim>\<open>output/lecture.txt\<close>.

  \<^bold>\<open>Model.\<close>  Every function is a shallow embedding in the exception-and-state
  monad \<open>'a pyio\<close> of theory \<^theory_text>\<open>Prelude\<close>: a function from the world (a file table,
  a directory list and the trace of observable actions) to a result, \<open>Inl\<close> for
  an uncaught Python exception, and the world after it.  Nothing in the script
  catches an exception, so \<open>pbind\<close> propagates every \<open>Inl\<close>.  The
  collaborators outside the repository are parameters of the record \<open>env\<close>:
  \<open>run_proc\<close> is \<^verbatim>\<open>subprocess.run\<close> of \<^verbatim>\<open>ffmpeg\<close> (exit code, stderr and the
  file system it leaves), \<open>http_post\<close> is \<^verbatim>\<open>requests.post\<close> (a transport
  exception or a response with status and decoded JSON), \<open>api_key\<close> is
  \<^verbatim>\<open>config.OPENAI_API_KEY\<close>.  The theorems hold for every environment, that is
  for every behaviour of \<^verbatim>\<open>ffmpeg\<close> and of the service.  Observable actions
  are trace events: process runs (\<open>Exec\<close>), prints (\<open>Print\<close>), requests with
  their responses (\<open>Posted\<close>), opening and writing a file (\<open>Opened\<close>,
  \<open>Wrote\<close>).

  \<^bold>\<open>Theories.\<close>
  \<^item> \<^theory_text>\<open>Prelude\<close>: values, exceptions, world, environment, the monad and its
    evaluation rules (collection \<open>pyio_simps\<close>), the bind case lemmas.
  \<^item> \<^theory_text>\<open>PyOs\<close>: the parts of \<^verbatim>\<open>os\<close>, \<^verbatim>\<open>open\<close>, \<^verbatim>\<open>print\<close>,
    \<^verbatim>\<open>subprocess\<close> and \<^verbatim>\<open>str\<close> the script uses (\<open>py_join\<close>, \<open>makedirs\<close>,
    \<open>listdir\<close>, \<open>getsize\<close>, \<open>open_write\<close>, \<open>write_text\<close>, \<open>proc_run\<close>,
    \<open>run_check\<close>, \<open>py_str_join\<close>, \<open>nat_str\<close>).
  \<^item> \<^theory_text>\<open>SilenceDetect\<close>: \<open>detect_voice_start\<close>; \<open>match_at\<close>/\<open>re_search\<close> are
    Python's backtracking-free scan for this pattern, proved equal to the
    declarative leftmost-greedy match \<open>regex_at\<close>; \<open>sd_log\<close> is the stderr
    format of the filter (from the specification, as \<^verbatim>\<open>ffmpeg\<close> is not in
    the repository).
  \<^item> \<^theory_text>\<open>Trim\<close>: \<open>trim_silence\<close> on every branch.
  \<^item> \<^theory_text>\<open>FileSize\<close>: the constants and \<open>get_file_size\<close>; the float division
    is the exact rational quotient, which decides the comparison with 25 the
    same way.
  \<^item> \<^theory_text>\<open>Split\<close>: \<open>split_audio\<close>, the muxer's names \<open>seg_name\<close> and the order
    of \<^verbatim>\<open>sorted\<close> on them.
  \<^item> \<^theory_text>\<open>Transcribe\<close>: \<open>transcribe_audio\<close>, \<open>raise_for_status\<close>,
    \<open>json_text\<close>, and \<open>response_value\<close>, what the code makes of a response.
  \<^item> \<^theory_text>\<open>Pipeline\<close>: the script as \<open>transcribe_script\<close> (with its
    \<open>transcribe_branch\<close> and \<open>write_output\<close> blocks and the loop
    \<open>transcribe_parts\<close>), and the trace accounting: \<open>quiet\<close> steps append
    only prints and process runs (the generic \<open>appends\<close> rules of the
    prelude, collection \<open>appends_intros\<close>), \<open>posted\<close> lists
    the requests of a trace, \<open>fail_last\<close> says a failed loop was stopped by its
    last request at most, and \<open>transcribe_script_cases\<close> splits every run
    into one that stopped before the output step and one that reached it.
  \<^item> \<^theory_text>\<open>PipelineSpec\<close>: the pipeline of section 4.4 of the specification as
    an abstract machine (\<open>astep\<close>, an inductive step relation over
    \<open>astate\<close>): trim, choose an admissible unit list, transcribe the units in
    order, write their newline join, or halt.  Its invariant \<open>ainv\<close> holds in
    every reachable state (rule induction) and every run of it is finite
    (\<open>astep_wf\<close>, by a lexicographic rank).
  \<^item> \<^theory_text>\<open>Refinement\<close>: the simulation of the script by that machine, built
    from the loop (\<open>transcribe_parts_refines\<close>), the branch
    (\<open>transcribe_branch_refines\<close>), the output step
    (\<open>write_output_refines\<close>) and the phases of the script;
    \<open>run_matches\<close> relates a final abstract state to the run's outcome, its
    requests and the output file.
  \<^item> \<^theory_text>\<open>Commands\<close>: the external processes a run starts, read off its
    trace by \<open>execs\<close>; the steps that start none are \<open>appends no_exec\<close>,
    and each of trimming, splitting and the branch contributes a known
    command list.
  \<^item> \<^theory_text>\<open>Ffmpeg\<close>: the three \<^verbatim>\<open>ffmpeg\<close> invocations as the
    specification describes them (\<open>ffmpeg_run\<close>: the \<^verbatim>\<open>silencedetect\<close>
    probe \<open>sd_run\<close>, the re-encode \<open>trim_run\<close>, the segment muxer
    \<open>seg_run\<close> writing \<open>seg_count dur n\<close> parts named by \<open>fmt03\<close>), an
    environment under which \<^verbatim>\<open>split_audio\<close> and \<^verbatim>\<open>trim_silence\<close> are computed
    in closed form (\<open>split_audio_ffmpeg_world\<close>, \<open>split_audio_ffmpeg\<close>,
    \<open>trim_silence_no_silence\<close>).
  \<^item> \<^theory_text>\<open>Whisper\<close>: the transcription endpoint as the specification describes
    it (\<open>whisper_service\<close>: URL, bearer key, model, the \<^verbatim>\<open>file\<close> field and an
    upload cap in bytes; a text reply or an error status), and what
    \<open>transcribe_audio\<close> makes of its answers (\<open>transcribe_audio_upload\<close>).
  \<^item> this theory: the properties of the whole script.

  \<^bold>\<open>What is shown.\<close>  The scan finds exactly the leftmost match and returns
  the first silence's end on \<^verbatim>\<open>ffmpeg\<close>'s output; trimming behaves as
  written on each branch; the size test splits exactly above 26214400 bytes;
  the part list is sorted, duplicate-free and chronological up to 1000 parts,
  and with the specification's muxer it holds, besides this run's
  \<open>\<lceil>dur / n\<rceil>\<close> parts, every \<^verbatim>\<open>.mp3\<close> left in the folder by earlier runs; a transcription request
  returns the text for every status outside 400--599 and raises otherwise; the
  loop sends one request per part in order.  End to end: a successful run
  writes exactly the accepted texts, joined by newlines, to
  \<^verbatim>\<open>output/lecture.txt\<close>; a rejected request ends the run with its
  \<^verbatim>\<open>HTTPError\<close> before the output file is opened; and the only failure
  that touches the output file is a transcript that is not a string, which
  leaves the file empty; in a cooperative run the service's text completes
  the run exactly when it is a \<^verbatim>\<open>str\<close>.  The script refines the specification's abstract
  pipeline; the files it posts are always a prefix of one admissible unit list;
  it starts only the detection
  probe, at most one re-encode and at most one segmenting command, in that
  order, and segments the trimmed file exactly when it was produced; with the
  specification's \<^verbatim>\<open>ffmpeg\<close>, a split gives \<open>\<lceil>dur / 300\<rceil>\<close> units in
  chronological order, trimming cuts at the first silence's end, and a long
  recording is transcribed end to end into the parts' texts in order.  Against the
  specification's service with a cap of at least 25 MiB every upload is accepted
  whatever the recording's size (parts of 300 seconds are 4800000 bytes), while
  against a smaller cap a recording between the cap and the hard-coded 25 MiB is
  sent whole and rejected with 413.

  \<^bold>\<open>Fixtures.\<close>  The witnesses run the model on small concrete worlds
  (\<open>empty_world\<close>, \<open>big_world\<close> of 30000000 bytes) with stand-in
  environments (\<open>fixed_env\<close>, \<open>parts_env\<close>, \<open>chunk_env\<close>, and
  \<open>ffmpeg_run\<close> with a text-answering service) and evaluate it by
  the simplifier.  No loop of the script can diverge: the only loop,
  \<^verbatim>\<open>for part in parts\<close>, runs over a finite list and is the structural
  recursion \<open>transcribe_parts\<close>, so no fuel is needed and every definition is
  total.  For the same reason the development states no termination theorem:
  termination of that loop holds whatever its body does and says nothing about
  the script.

  \<^bold>\<open>Not modelled.\<close>  The audio content: a recording is its size and
  duration, and which silences \<^verbatim>\<open>ffmpeg\<close> detects is a parameter; the
  other theorems hold for any \<open>run_proc\<close>, and \<^theory_text>\<open>Ffmpeg\<close> fixes only
  what sections 4.1--4.2 of the specification say of the tool (not its prompt
  before overwriting an existing output, nor codec details); the
  transcript the service computes from a file (the parameter \<open>tr\<close> of
  \<^theory_text>\<open>Whisper\<close>); network transport, timing and timeouts (there are none
  in the code), the text of the Ukrainian messages (only which message is
  printed), the encoding of characters above code point 255.
\<close>

text \<open>
  C1 (functional).  A run of the script that completes writes to
  \<^verbatim>\<open>output/lecture.txt\<close> exactly the texts of the responses it received, in
  the order of the requests, joined by newlines; every response of the run was
  accepted and carried a string.
\<close>

theorem transcribe_script_output:
  assumes "transcribe_script en w = (Inr (), w')"
  shows "\<exists>es ss. trace w' = trace w @ es \<and>
           map (response_value \<circ> snd) (posted es) = map (Inr \<circ> JStr) ss \<and>
           map_of (files (fsys w')) OUTPUT_FILE = Some (Text (join_with ''\<newline>'' ss))"
  using assms
proof (cases rule: transcribe_script_cases)
  case (written full w3 es)
  from written(2) obtain vs where
    vs: "map (response_value \<circ> snd) (posted es) = map Inr vs"
    and jn: "\<forall>s. full = JStr s \<longrightarrow> (\<exists>ss. vs = map JStr ss \<and> s = join_with ''\<newline>'' ss)"
    by (auto simp: branch_outcome_def)
  from write_output_trace [OF written(3)] obtain es4 s where
    es4: "trace w' = trace w3 @ es4" "posted es4 = []" and
    out: "full = JStr s" "map_of (files (fsys w')) OUTPUT_FILE = Some (Text s)"
    by blast
  from jn out(1) obtain ss where "vs = map JStr ss" "s = join_with ''\<newline>'' ss" by blast
  with written(1) vs es4 out show ?thesis
    by (intro exI [of _ "es @ es4"] exI [of _ ss]) simp
qed simp

theorem transcribe_script_output_witness:
  "fst (transcribe_script (chunk_env (\<lambda>_. 200)) big_world) = Inr () \<and>
   (\<exists>es ss. trace (snd (transcribe_script (chunk_env (\<lambda>_. 200)) big_world)) = trace big_world @ es \<and>
      map (response_value \<circ> snd) (posted es) = map (Inr \<circ> JStr) ss \<and>
      map_of (files (fsys (snd (transcribe_script (chunk_env (\<lambda>_. 200)) big_world)))) OUTPUT_FILE =
        Some (Text (join_with ''\<newline>'' ss)))"
proof -
  obtain r w' where run: "transcribe_script (chunk_env (\<lambda>_. 200)) big_world = (r, w')" by fastforce
  moreover from run have "r = Inr ()" by (simp add: script_eval)
  ultimately show ?thesis using transcribe_script_output [of "chunk_env (\<lambda>_. 200)" big_world w'] by simp
qed

text \<open>
  C2 (safety).  If any response of a run has a status in 400--599, the run
  ends with the \<^verbatim>\<open>HTTPError\<close> of that status (so it was the last request),
  and the run never opened or wrote a file: the output of an earlier run is
  left untouched.
\<close>

theorem transcribe_script_http_error:
  assumes run: "transcribe_script en w = (r, w')" and es: "trace w' = trace w @ es"
    and mem: "(p, resp) \<in> set (posted es)"
    and st: "400 \<le> status_code resp" "status_code resp < 600"
  shows "r = Inl (HTTPError (status_code resp)) \<and> \<not> list_ex output_event es"
proof -
  have bad: "\<not> accepted (p, resp)" "response_value resp = Inl (HTTPError (status_code resp))"
    using st by (simp_all add: accepted_def response_value_def)
  from run show ?thesis
  proof (cases rule: transcribe_script_cases)
    case (stopped e es')
    with es have "es = es'" by simp
    with stopped mem bad show ?thesis by (auto simp: branch_outcome_def dest: fail_last_mem)
  next
    case (written full w3 es3)
    from written(2) obtain vs where "map (response_value \<circ> snd) (posted es3) = map Inr vs"
      by (auto simp: branch_outcome_def)
    note ok = all_accepted [OF this]
    from write_output_trace [OF written(3)] obtain es4 where
      "trace w' = trace w3 @ es4" "posted es4 = []" by blast
    with es written(1) have "es = es3 @ es4" by simp
    with \<open>posted es4 = []\<close> mem ok bad(1) show ?thesis by (simp add: list_all_iff)
  qed
qed

theorem transcribe_script_http_error_witness:
  "fst (transcribe_script (chunk_env (\<lambda>p. if p = ''audio_parts/part_001.mp3'' then 503 else 200)) big_world)
     = Inl (HTTPError 503) \<and>
   \<not> list_ex output_event (trace (snd (transcribe_script
         (chunk_env (\<lambda>p. if p = ''audio_parts/part_001.mp3'' then 503 else 200)) big_world)))"
proof -
  let ?en = "chunk_env (\<lambda>p. if p = ''audio_parts/part_001.mp3'' then 503 else 200)"
  let ?resp = "\<lparr>status_code = 503, resp_json = Some (JObj [(''text'', JStr ''audio_parts/part_001.mp3'')])\<rparr>"
  obtain r w' where run: "transcribe_script ?en big_world = (r, w')" by fastforce
  have tr: "trace big_world = []" by (simp add: big_world_def)
  from run have "(''audio_parts/part_001.mp3'', ?resp) \<in> set (posted (trace w'))"
    by (simp add: script_eval) (clarify, simp)
  from transcribe_script_http_error [OF run _ this] run tr show ?thesis by simp
qed

text \<open>
  C3 (refinement).  The script refines the abstract pipeline of the
  specification (theory \<^theory_text>\<open>PipelineSpec\<close>): every run ends in a state the
  abstract machine reaches from its start, and the run matches it: a completed
  run posted exactly the abstract units in order, the code's reading of the
  responses is the abstract fragments, and the output file holds the abstract
  text; a failed run raised the abstract exception after posting exactly the
  units the abstract run submitted.
\<close>

theorem transcribe_script_refines:
  assumes run: "transcribe_script en w = (r, w')" and es: "trace w' = trace w @ es"
  shows "\<exists>s. areach s \<and> run_matches s r (posted es) (fsys w')"
  using run
proof (cases rule: transcribe_script_phases)
  case (early e es0)
  with es have "es = es0" by simp
  with early astep.trim_fail [of e] show ?thesis
    by (intro exI [of _ "AHalted [] e"]) auto
next
  case (main a sz w2 es0)
  have t: "astep AStart (ATrimmed a)" using main(1) by (rule astep.trim)
  show ?thesis
  proof (cases rule: pbind_cases [OF main(5)])
    case (1 e)
    from transcribe_branch_refines [OF 1(1)] obtain es3 s where
      "trace w' = trace w2 @ es3" "astep\<^sup>*\<^sup>* (ATrimmed a) s" "branch_matches es3 s (Inl e)"
      by blast
    with main(2,3) es 1(2) t show ?thesis
      by (intro exI [of _ s]) (auto simp: branch_matches_def intro: converse_rtranclp_into_rtranclp)
  next
    case (2 full w3)
    from transcribe_branch_refines [OF 2(1)] obtain es3 us ds where
      es3: "trace w3 = trace w2 @ es3" and run3: "astep\<^sup>*\<^sup>* (ATrimmed a) (ARun us ds)"
      and m: "length ds = length us" "map fst ds = us" "map fst (posted es3) = us"
        "map (response_value \<circ> snd) (posted es3) = map (Inr \<circ> snd) ds"
      and jn: "\<forall>x. full = JStr x \<longrightarrow> (\<exists>ss. map snd ds = map JStr ss \<and> x = join_with ''\<newline>'' ss)"
      by (auto simp: branch_matches_def)
    from write_output_trace [OF 2(2)] obtain es4 where es4: "trace w' = trace w3 @ es4" "posted es4 = []"
      by blast
    from t run3 have reach: "areach (ARun us ds)" by (rule converse_rtranclp_into_rtranclp)
    from es main(2) es3 es4(1) have "es = es0 @ es3 @ es4" by simp
    with main(3) es4(2) have pe: "posted es = posted es3" by simp
    from write_output_refines [OF 2(2) reach m(1,2) m(3,4) [folded pe] jn] show ?thesis .
  qed
qed

theorem transcribe_script_refines_witness:
  "fst (transcribe_script (chunk_env (\<lambda>_. 200)) big_world) = Inr () \<and>
   (\<exists>s. areach s \<and> run_matches s (fst (transcribe_script (chunk_env (\<lambda>_. 200)) big_world))
      (posted (trace (snd (transcribe_script (chunk_env (\<lambda>_. 200)) big_world))))
      (fsys (snd (transcribe_script (chunk_env (\<lambda>_. 200)) big_world))))"
proof -
  obtain r w' where run: "transcribe_script (chunk_env (\<lambda>_. 200)) big_world = (r, w')" by fastforce
  moreover from run have "r = Inr ()" by (simp add: script_eval)
  moreover have "trace w' = trace big_world @ trace w'" by (simp add: big_world_def)
  ultimately show ?thesis using transcribe_script_refines [of "chunk_env (\<lambda>_. 200)" big_world r w'] by simp
qed

text \<open>
  C4 (invariant).  The files a run posts to the service are, in order, a prefix
  of one admissible unit list (the single trimmed or original file, or a sorted
  list of segments without duplicates), and a completed run posted all of them:
  the number and order of the fragments match the units (section 3 of the
  specification), whatever the run's outcome.
\<close>

theorem transcribe_script_units:
  assumes run: "transcribe_script en w = (r, w')" and es: "trace w' = trace w @ es"
  shows "\<exists>us. admissible_units us \<and> prefix (map fst (posted es)) us \<and>
           (r = Inr () \<longrightarrow> map fst (posted es) = us)"
proof -
  from transcribe_script_refines [OF run es] obtain s where
    "areach s" "run_matches s r (posted es) (fsys w')" by blast
  moreover from this(1) have "ainv s" by (rule areach_ainv)
  ultimately show ?thesis by (cases s) auto
qed

theorem transcribe_script_units_witness:
  "\<exists>us. admissible_units us \<and>
     prefix (map fst (posted (trace (snd (transcribe_script
       (chunk_env (\<lambda>p. if p = ''audio_parts/part_001.mp3'' then 503 else 200)) big_world))))) us \<and>
     (fst (transcribe_script (chunk_env (\<lambda>p. if p = ''audio_parts/part_001.mp3'' then 503 else 200))
        big_world) = Inr () \<longrightarrow>
      map fst (posted (trace (snd (transcribe_script
        (chunk_env (\<lambda>p. if p = ''audio_parts/part_001.mp3'' then 503 else 200)) big_world)))) = us)"
proof -
  let ?en = "chunk_env (\<lambda>p. if p = ''audio_parts/part_001.mp3'' then 503 else 200)"
  obtain r w' where run: "transcribe_script ?en big_world = (r, w')" by fastforce
  moreover have "trace w' = trace big_world @ trace w'" by (simp add: big_world_def)
  ultimately show ?thesis using transcribe_script_units [of ?en big_world r w' "trace w'"] by simp
qed

text \<open>
  C17 (error).  A failed run that touched the output file at all (opened or
  wrote it) failed because the transcript was not a string, and it leaves
  \<^verbatim>\<open>output/lecture.txt\<close> empty: the transcript of an earlier run is lost.
\<close>

theorem transcribe_script_truncates:
  assumes run: "transcribe_script en w = (Inl e, w')" and es: "trace w' = trace w @ es"
    and out: "list_ex output_event es"
  shows "e = TypeError ''write() argument must be str'' \<and>
         map_of (files (fsys w')) OUTPUT_FILE = Some (Text [])"
  using run
proof (cases rule: transcribe_script_cases)
  case (stopped e' es')
  with es out show ?thesis by (simp add: branch_outcome_def)
next
  case (written full w3 es3)
  from write_output_trace [OF written(3)] obtain es4 where es4: "trace w' = trace w3 @ es4" by blast
  with es written(1) have "es = es3 @ es4" by simp
  moreover from written(2) have "\<not> list_ex output_event es3" by (simp add: branch_outcome_def)
  ultimately have "list_ex output_event es4" using out by simp
  with write_output_Inl [OF written(3) es4] show ?thesis .
qed

theorem transcribe_script_truncates_witness:
  "fst (transcribe_script (fixed_env 0 [] (Inr \<lparr>status_code = 200, resp_json = Some (JObj [(''text'', JNull)])\<rparr>)) small_world)
     = Inl (TypeError ''write() argument must be str'') \<and>
   map_of (files (fsys (snd (transcribe_script
     (fixed_env 0 [] (Inr \<lparr>status_code = 200, resp_json = Some (JObj [(''text'', JNull)])\<rparr>)) small_world))))
     OUTPUT_FILE = Some (Text [])"
proof -
  let ?en = "fixed_env 0 [] (Inr \<lparr>status_code = 200, resp_json = Some (JObj [(''text'', JNull)])\<rparr>)"
  obtain r w' where run: "transcribe_script ?en small_world = (r, w')" by fastforce
  from run have r: "r = Inl (TypeError ''write() argument must be str'')"
    by (simp add: script_eval small_world_def fixed_env_def)
  from run have "list_ex output_event (trace w')"
    by (simp add: script_eval small_world_def fixed_env_def) (clarify, simp)
  moreover have "trace small_world = []" by (simp add: small_world_def)
  ultimately show ?thesis using transcribe_script_truncates [of ?en small_world _ w' "trace w'"] run r
    by simp
qed

text \<open>
  C18 (error).  A missing input recording is fatal at the size check: the
  detection run finds no marker, the original path is kept, and
  \<^verbatim>\<open>get_file_size\<close> raises \<^verbatim>\<open>FileNotFoundError\<close> before any request,
  split or output.
\<close>

theorem transcribe_script_missing_input:
  assumes "run_proc en (silencedetect_cmd AUDIO_FILE) (fsys w) = Inr (rc, err, fs')"
    and "re_search err = None"
    and "map_of (files fs') AUDIO_FILE = None" and "\<not> is_dir fs' AUDIO_FILE"
  shows "transcribe_script en w =
           (Inl (FileNotFoundError AUDIO_FILE),
            w\<lparr>fsys := fs', trace := trace w @ [Exec (silencedetect_cmd AUDIO_FILE), Print MsgNoSilence]\<rparr>)"
  using assms by (simp add: transcribe_script_def trim_simps get_file_size_def getsize_def)

theorem transcribe_script_missing_input_witness:
  "transcribe_script (fixed_env 1 ''No such file'' (Inl ConnectionError)) empty_world =
     (Inl (FileNotFoundError AUDIO_FILE),
      empty_world\<lparr>trace := [Exec (silencedetect_cmd AUDIO_FILE), Print MsgNoSilence]\<rparr>)"
proof -
  have h1: "run_proc (fixed_env 1 ''No such file'' (Inl ConnectionError)) (silencedetect_cmd AUDIO_FILE)
              (fsys empty_world) = Inr (1, ''No such file'', fsys empty_world)"
    by (simp add: fixed_env_def)
  have h2: "re_search ''No such file'' = None"
    by (simp add: match_at_def silence_key_def)
  have h3: "map_of (files (fsys empty_world)) AUDIO_FILE = None"
    and h4: "\<not> is_dir (fsys empty_world) AUDIO_FILE"
    by (simp_all add: empty_world_def is_dir_def)
  from transcribe_script_missing_input [OF h1 h2 h3 h4] show ?thesis
    by (simp add: empty_world_def)
qed

text \<open>A run in a cooperative environment with a small recording, up to the
  output step: the probe finds no marker, the size test sends the whole file, and
  the service's \<^verbatim>\<open>"text"\<close> value \<open>v\<close>, whatever its JSON type, is handed to
  the output step.\<close>

lemma cooperative_small_run:
  assumes ff: "\<And>argv fs. run_proc en argv fs = Inr (0, err, fs)" and nm: "re_search err = None"
    and api: "\<And>u h fl d. http_post en u h fl d =
                Inr \<lparr>status_code = 200, resp_json = Some (JObj [(''text'', v)])\<rparr>"
    and inp: "map_of (files (fsys w)) AUDIO_FILE = Some d" and small: "fdata_size d \<le> 26214400"
  shows "transcribe_script en w = write_output v (w\<lparr>trace := trace w @
           [Exec (silencedetect_cmd AUDIO_FILE), Print MsgNoSilence, Print MsgSmall,
            Print (MsgSending AUDIO_FILE),
            Posted AUDIO_FILE \<lparr>status_code = 200, resp_json = Some (JObj [(''text'', v)])\<rparr>]\<rparr>)"
proof -
  have nl: "\<not> over_limit (rat_of_nat (fdata_size d) / 1048576)"
    using over_limit_bytes [of "fdata_size d"] small by simp
  show ?thesis
    using ff nm api inp nl
    by (simp add: transcribe_script_def trim_simps get_file_size_def getsize_def
        transcribe_branch_def transcribe_audio_apply response_value_def)
qed

text \<open>
  C8 (type).  The transcript's type is checked only at the write: with a
  cooperative environment whose service answers with a JSON value \<open>v\<close> as the
  \<^verbatim>\<open>"text"\<close>, the run completes exactly when \<open>v\<close> is a \<^verbatim>\<open>str\<close>; for any
  other JSON type (number, boolean, null, list, object) it raises
  \<^verbatim>\<open>TypeError\<close> at \<^verbatim>\<open>f.write\<close>, and \<^verbatim>\<open>output/lecture.txt\<close> is left
  empty.
\<close>

theorem transcribe_script_text_type:
  assumes ff: "\<And>argv fs. run_proc en argv fs = Inr (0, err, fs)" and nm: "re_search err = None"
    and api: "\<And>u h fl d. http_post en u h fl d =
                Inr \<lparr>status_code = 200, resp_json = Some (JObj [(''text'', v)])\<rparr>"
    and inp: "map_of (files (fsys w)) AUDIO_FILE = Some d" and small: "fdata_size d \<le> 26214400"
    and out: "\<not> is_file (fsys w) ''output''" "\<not> is_dir (fsys w) OUTPUT_FILE"
  shows "\<exists>w'. transcribe_script en w =
           ((case v of JStr _ \<Rightarrow> Inr () | _ \<Rightarrow> Inl (TypeError ''write() argument must be str'')), w') \<and>
         map_of (files (fsys w')) OUTPUT_FILE = Some (Text (case v of JStr s \<Rightarrow> s | _ \<Rightarrow> []))"
  using cooperative_small_run [OF ff nm api inp small] write_output_typed out by simp

theorem transcribe_script_text_type_witness:
  "\<exists>w'. transcribe_script (fixed_env 0 ''size=N/A'' (Inr \<lparr>status_code = 200,
        resp_json = Some (JObj [(''text'', JNull)])\<rparr>)) small_world =
      (Inl (TypeError ''write() argument must be str''), w') \<and>
      map_of (files (fsys w')) OUTPUT_FILE = Some (Text [])"
proof -
  let ?en = "fixed_env 0 ''size=N/A'' (Inr \<lparr>status_code = 200, resp_json = Some (JObj [(''text'', JNull)])\<rparr>)"
  have ff: "\<And>argv fs. run_proc ?en argv fs = Inr (0, ''size=N/A'', fs)" by (simp add: fixed_env_def)
  have nm: "re_search ''size=N/A'' = None" by (simp add: match_at_def silence_key_def)
  have api: "\<And>u h fl d. http_post ?en u h fl d =
      Inr \<lparr>status_code = 200, resp_json = Some (JObj [(''text'', JNull)])\<rparr>"
    by (simp add: fixed_env_def)
  have inp: "map_of (files (fsys small_world)) AUDIO_FILE = Some (Audio 1000 60)"
    by (simp add: small_world_def AUDIO_FILE_def OUTPUT_FILE_def)
  have small: "fdata_size (Audio 1000 60) \<le> 26214400" by simp
  have out: "\<not> is_file (fsys small_world) ''output''" "\<not> is_dir (fsys small_world) OUTPUT_FILE"
    by (simp_all add: small_world_def is_file_def is_dir_def AUDIO_FILE_def OUTPUT_FILE_def)
  from transcribe_script_text_type [OF ff nm api inp small out] show ?thesis by simp
qed

text \<open>The over-limit branch with the specification's \<^verbatim>\<open>ffmpeg\<close> and a
  text-answering service: the parts of a fresh split are all transcribed and
  joined, and the folder's segments are the only files added.\<close>

lemma chunked_branch_ffmpeg:
  assumes ff: "run_proc en = ffmpeg_run sil"
    and ok: "\<And>p dur'. dur' \<le> 300 \<Longrightarrow> http_post en whisper_url (auth_headers en) [(''file'', p, audio_of dur')] whisper_form =
                Inr \<lparr>status_code = 200, resp_json = Some (JObj [(''text'', JStr (text_of p))])\<rparr>"
    and inp: "map_of (files (fsys w)) a = Some (Audio sz dur)" and k: "seg_count dur 300 \<le> 1000"
    and parts: "\<not> is_file (fsys w) ''audio_parts''"
      "\<forall>f \<in> set (dir_entries (fsys w) ''audio_parts''). \<not> endswith f ''.mp3''"
    and ol: "over_limit x"
  obtains w' where
    "transcribe_branch en a x w = (Inr (JStr (join_with ''\<newline>''
       (map text_of (map (py_join ''audio_parts'') (map seg_name [0..<seg_count dur 300]))))), w')"
    "fst ` set (files (fsys w')) =
       py_join ''audio_parts'' ` seg_name ` {..<seg_count dur 300} \<union> fst ` set (files (fsys w))"
    "set (dirs (fsys w')) \<subseteq> insert ''audio_parts'' (set (dirs (fsys w)))"
proof -
  let ?ps = "map (py_join ''audio_parts'') (map seg_name [0..<seg_count dur 300])"
  let ?w2 = "w\<lparr>trace := trace w @ [Print MsgTooBig]\<rparr>"
  have d: "''audio_parts'' \<noteq> []" "CHR ''/'' \<notin> set ''audio_parts''" "CHR ''%'' \<notin> set ''audio_parts''"
    by simp_all
  have sp: "split_audio en a ''audio_parts'' 300 ?w2 = (Inr ?ps,
      ?w2\<lparr>fsys := (fsys ?w2)\<lparr>dirs := dirs (fsys ?w2) @ filter (\<lambda>a. \<not> is_dir (fsys ?w2) a) [''audio_parts''],
          files := foldr (\<lambda>x. AList.update (fst x) (snd x))
                     (segment_files (py_join ''audio_parts'' ''part_%03d.mp3'') dur 300) (files (fsys ?w2))\<rparr>,
       trace := trace ?w2 @ [Exec (segment_cmd a 300 (py_join ''audio_parts'' ''part_%03d.mp3''))]\<rparr>)"
    by (rule split_audio_ffmpeg [OF ff _ _ k d]) (use inp parts in simp_all)
  obtain w3 where s: "split_audio en a ''audio_parts'' 300 ?w2 = (Inr ?ps, w3)"
    and fs3: "files (fsys w3) = foldr (\<lambda>x. AList.update (fst x) (snd x))
                 (segment_files (py_join ''audio_parts'' ''part_%03d.mp3'') dur 300) (files (fsys w))"
    and ds3: "set (dirs (fsys w3)) \<subseteq> insert ''audio_parts'' (set (dirs (fsys w)))"
    by (rule that [OF sp]) auto
  have keys3: "fst ` set (files (fsys w3)) =
      py_join ''audio_parts'' ` seg_name ` {..<seg_count dur 300} \<union> fst ` set (files (fsys w))"
    using d by (simp add: fs3 keys_foldr_update segment_files_keys)
  have ex: "\<forall>p \<in> set ?ps. \<exists>dt. map_of (files (fsys w3)) p = Some dt \<and>
      http_post en whisper_url (auth_headers en) [(''file'', p, dt)] whisper_form =
        Inr \<lparr>status_code = 200, resp_json = Some (JObj [(''text'', JStr (text_of p))])\<rparr>"
  proof
    fix p
    assume "p \<in> set ?ps"
    then have "p \<in> py_join ''audio_parts'' ` seg_name ` {..<seg_count dur 300}" by auto
    from segment_file_small [OF d this] obtain dur' where
      "map_of (files (fsys w3)) p = Some (audio_of dur')" "dur' \<le> 300"
      by (auto simp: fs3)
    with ok show "\<exists>dt. map_of (files (fsys w3)) p = Some dt \<and>
      http_post en whisper_url (auth_headers en) [(''file'', p, dt)] whisper_form =
        Inr \<lparr>status_code = 200, resp_json = Some (JObj [(''text'', JStr (text_of p))])\<rparr>" by blast
  qed
  from transcribe_parts_ok [OF ex, where acc = "[]"] obtain w4 where
    l: "transcribe_parts en ?ps [] w3 = (Inr (map (JStr \<circ> text_of) ?ps), w4)" and fs4: "fsys w4 = fsys w3"
    by auto
  have "map (JStr \<circ> text_of) ?ps = map JStr (map text_of ?ps)" by simp
  then have "py_str_join ''\<newline>'' (map (JStr \<circ> text_of) ?ps) = Inr (join_with ''\<newline>'' (map text_of ?ps))"
    by (simp only: py_str_join_strs)
  then have j: "join_transcriptions (map (JStr \<circ> text_of) ?ps) w4 =
      (Inr (JStr (join_with ''\<newline>'' (map text_of ?ps))), w4)"
    by (simp add: join_transcriptions_def pyio_simps)
  have "transcribe_branch en a x w = (Inr (JStr (join_with ''\<newline>'' (map text_of ?ps))), w4)"
    using ol s l j by (simp add: transcribe_branch_def pyio_simps py_print_def)
  with keys3 ds3 show ?thesis by (intro that [of w4]) (simp_all add: fs4)
qed

lemma get_file_size_audio:
  "map_of (files (fsys w)) p = Some (Audio sz dur) \<Longrightarrow>
   get_file_size p w = (Inr (of_nat sz / of_nat (1024 * 1024)), w)"
  by (simp add: get_file_size_def getsize_def pyio_simps)

text \<open>A whole run on a long recording without silence, with the
  specification's \<^verbatim>\<open>ffmpeg\<close> and a service that accepts every part.\<close>

lemma chunked_run_ffmpeg:
  assumes ff: "run_proc en = ffmpeg_run sil" and nosil: "sil AUDIO_FILE = []"
    and ok: "\<And>p dur'. dur' \<le> 300 \<Longrightarrow> http_post en whisper_url (auth_headers en) [(''file'', p, audio_of dur')] whisper_form =
                Inr \<lparr>status_code = 200, resp_json = Some (JObj [(''text'', JStr (text_of p))])\<rparr>"
    and inp: "map_of (files (fsys w)) AUDIO_FILE = Some (Audio sz dur)" and big: "26214400 < sz"
    and k: "seg_count dur 300 \<le> 1000"
    and parts: "\<not> is_file (fsys w) ''audio_parts''"
      "\<forall>f \<in> set (dir_entries (fsys w) ''audio_parts''). \<not> endswith f ''.mp3''"
    and out: "\<not> is_file (fsys w) ''output''" "\<not> is_dir (fsys w) OUTPUT_FILE"
  shows "\<exists>w'. transcribe_script en w = (Inr (), w') \<and>
           map_of (files (fsys w')) OUTPUT_FILE =
             Some (Text (join_with ''\<newline>''
               (map text_of (map (py_join ''audio_parts'') (map seg_name [0..<seg_count dur 300])))))"
proof -
  let ?txt = "join_with ''\<newline>'' (map text_of (map (py_join ''audio_parts'') (map seg_name [0..<seg_count dur 300])))"
  let ?w1 = "w\<lparr>trace := trace w @ [Exec (silencedetect_cmd AUDIO_FILE), Print MsgNoSilence]\<rparr>"
  have t: "trim_silence en AUDIO_FILE TRIMMED_AUDIO_FILE w = (Inr AUDIO_FILE, ?w1)"
    by (rule trim_silence_no_silence [OF ff inp nosil])
  have g: "get_file_size AUDIO_FILE ?w1 = (Inr (of_nat sz / of_nat (1024 * 1024)), ?w1)"
    using inp by (simp add: get_file_size_audio)
  have ol: "over_limit (of_nat sz / of_nat (1024 * 1024))"
    using big by (simp only: over_limit_bytes)
  from inp parts have inp1: "map_of (files (fsys ?w1)) AUDIO_FILE = Some (Audio sz dur)"
    and parts1: "\<not> is_file (fsys ?w1) ''audio_parts''"
      "\<forall>f \<in> set (dir_entries (fsys ?w1) ''audio_parts''). \<not> endswith f ''.mp3''"
    by simp_all
  obtain w4 where b: "transcribe_branch en AUDIO_FILE (of_nat sz / of_nat (1024 * 1024)) ?w1 = (Inr (JStr ?txt), w4)"
    and keys4: "fst ` set (files (fsys w4)) =
       py_join ''audio_parts'' ` seg_name ` {..<seg_count dur 300} \<union> fst ` set (files (fsys ?w1))"
    and ds4: "set (dirs (fsys w4)) \<subseteq> insert ''audio_parts'' (set (dirs (fsys ?w1)))"
    by (rule chunked_branch_ffmpeg [OF ff ok inp1 k parts1 ol])
  have nf: "''output'' \<notin> py_join ''audio_parts'' ` seg_name ` {..<seg_count dur 300}"
    by (auto simp: py_join_def seg_name_def)
  have out4: "\<not> is_file (fsys w4) ''output''" "\<not> is_dir (fsys w4) OUTPUT_FILE"
    using out(1) nf apply (simp add: is_file_def map_of_eq_None_iff keys4)
    using out(2) ds4 by (auto simp: is_dir_def OUTPUT_FILE_def)
  from write_output_ok [OF out4] obtain w5 where
    o: "write_output (JStr ?txt) w4 = (Inr (), w5)" and f5: "map_of (files (fsys w5)) OUTPUT_FILE = Some (Text ?txt)"
    by blast
  have "transcribe_script en w = (Inr (), w5)"
    using t g ol b o by (simp add: transcribe_script_def pyio_simps)
  with f5 show ?thesis by blast
qed

text \<open>
  C5 (functional).  With the \<^verbatim>\<open>ffmpeg\<close> the specification describes and a
  service that answers every upload with a text, a recording of \<open>dur\<close> seconds
  and more than 25 MiB without detected silence is cut into
  \<open>\<lceil>dur / 300\<rceil>\<close> parts, the run completes, and \<^verbatim>\<open>output/lecture.txt\<close>
  holds the texts of the parts in chronological order joined by newlines (for
  three units answered \<^verbatim>\<open>a\<close>, \<^verbatim>\<open>b\<close>, \<^verbatim>\<open>c\<close> it holds
  \<^verbatim>\<open>"a\nb\nc"\<close>, as section 8 of the specification requires).
\<close>

theorem transcribe_script_ffmpeg:
  assumes ff: "run_proc en = ffmpeg_run sil" and nosil: "sil AUDIO_FILE = []"
    and api: "\<And>u h fl dt. http_post en u h fl dt =
                Inr \<lparr>status_code = 200, resp_json = Some (JObj [(''text'', JStr (text_of (fst (snd (hd fl)))))])\<rparr>"
    and inp: "map_of (files (fsys w)) AUDIO_FILE = Some (Audio sz dur)" and big: "26214400 < sz"
    and k: "seg_count dur 300 \<le> 1000"
    and parts: "\<not> is_file (fsys w) ''audio_parts''"
      "\<forall>f \<in> set (dir_entries (fsys w) ''audio_parts''). \<not> endswith f ''.mp3''"
    and out: "\<not> is_file (fsys w) ''output''" "\<not> is_dir (fsys w) OUTPUT_FILE"
  shows "\<exists>w'. transcribe_script en w = (Inr (), w') \<and>
           map_of (files (fsys w')) OUTPUT_FILE =
             Some (Text (join_with ''\<newline>''
               (map text_of (map (py_join ''audio_parts'') (map seg_name [0..<seg_count dur 300])))))"
proof -
  have ok: "\<And>p dur'. dur' \<le> 300 \<Longrightarrow> http_post en whisper_url (auth_headers en) [(''file'', p, audio_of dur')] whisper_form =
                Inr \<lparr>status_code = 200, resp_json = Some (JObj [(''text'', JStr (text_of p))])\<rparr>"
    for p dur' using api by simp
  from chunked_run_ffmpeg [OF ff nosil ok inp big k parts out] show ?thesis .
qed

theorem transcribe_script_ffmpeg_witness:
  "\<exists>w'. transcribe_script
       \<lparr>run_proc = ffmpeg_run (\<lambda>_. []),
        http_post = (\<lambda>_ _ fl _. Inr \<lparr>status_code = 200, resp_json = Some (JObj [(''text'', JStr
           (if fst (snd (hd fl)) = ''audio_parts/part_000.mp3'' then ''a''
            else if fst (snd (hd fl)) = ''audio_parts/part_001.mp3'' then ''b'' else ''c''))])\<rparr>),
        api_key = ''sk-test''\<rparr>
       \<lparr>fsys = \<lparr>files = [(AUDIO_FILE, Audio 30000000 900)], dirs = [''audio'']\<rparr>, trace = []\<rparr> = (Inr (), w') \<and>
     map_of (files (fsys w')) OUTPUT_FILE = Some (Text ''a\<newline>b\<newline>c'')"
proof -
  let ?abc = "\<lambda>p. if p = ''audio_parts/part_000.mp3'' then ''a''
                else if p = ''audio_parts/part_001.mp3'' then ''b'' else ''c''"
  let ?en = "\<lparr>run_proc = ffmpeg_run (\<lambda>_. []),
        http_post = (\<lambda>_ _ fl _. Inr \<lparr>status_code = 200, resp_json = Some (JObj [(''text'', JStr
           (?abc (fst (snd (hd fl)))))])\<rparr>),
        api_key = ''sk-test''\<rparr>"
  let ?w = "\<lparr>fsys = \<lparr>files = [(AUDIO_FILE, Audio 30000000 900)], dirs = [''audio'']\<rparr>, trace = []\<rparr>"
  have ff: "run_proc ?en = ffmpeg_run (\<lambda>_. [])" by simp
  have nosil: "(\<lambda>_. [] :: (string \<times> string \<times> string) list) AUDIO_FILE = []" by simp
  have api: "\<And>u h fl dt. http_post ?en u h fl dt =
      Inr \<lparr>status_code = 200, resp_json = Some (JObj [(''text'', JStr (?abc (fst (snd (hd fl)))))])\<rparr>"
    by simp
  have inp: "map_of (files (fsys ?w)) AUDIO_FILE = Some (Audio 30000000 900)" by simp
  have big: "26214400 < (30000000::nat)" by simp
  have k: "seg_count 900 300 \<le> 1000" by (simp add: seg_count_def)
  have parts: "\<not> is_file (fsys ?w) ''audio_parts''"
    "\<forall>f \<in> set (dir_entries (fsys ?w) ''audio_parts''). \<not> endswith f ''.mp3''"
    by (simp_all add: is_file_def dir_entries_def child_name_def AUDIO_FILE_def)
  have out: "\<not> is_file (fsys ?w) ''output''" "\<not> is_dir (fsys ?w) OUTPUT_FILE"
    by (simp_all add: is_file_def is_dir_def AUDIO_FILE_def OUTPUT_FILE_def)
  have tx: "join_with ''\<newline>'' (map ?abc (map (py_join ''audio_parts'') (map seg_name [0..<seg_count 900 300])))
      = ''a\<newline>b\<newline>c''"
    by (simp add: seg_count_def seg_name_def pad3_def py_join_def upt_rec digit_char_def replicate_1_2)
  from transcribe_script_ffmpeg [where text_of = ?abc, OF ff nosil api inp big k parts out] tx
  show ?thesis by simp
qed

text \<open>A run on a recording of at most 25 MiB without silence, with the
  specification's \<^verbatim>\<open>ffmpeg\<close>: the probe, the size test, then the whole file
  is transcribed and the result handed to the output step.\<close>

lemma small_run_ffmpeg:
  assumes ff: "run_proc en = ffmpeg_run sil" and nosil: "sil AUDIO_FILE = []"
    and inp: "map_of (files (fsys w)) AUDIO_FILE = Some (Audio sz dur)" and small: "\<not> 26214400 < sz"
  shows "transcribe_script en w = pbind (transcribe_audio en AUDIO_FILE) write_output
           (w\<lparr>trace := trace w @ [Exec (silencedetect_cmd AUDIO_FILE), Print MsgNoSilence, Print MsgSmall]\<rparr>)"
proof -
  let ?w1 = "w\<lparr>trace := trace w @ [Exec (silencedetect_cmd AUDIO_FILE), Print MsgNoSilence]\<rparr>"
  have t: "trim_silence en AUDIO_FILE TRIMMED_AUDIO_FILE w = (Inr AUDIO_FILE, ?w1)"
    by (rule trim_silence_no_silence [OF ff inp nosil])
  have g: "get_file_size AUDIO_FILE ?w1 = (Inr (of_nat sz / of_nat (1024 * 1024)), ?w1)"
    using inp by (simp add: get_file_size_audio)
  have nol: "\<not> over_limit (of_nat sz / of_nat (1024 * 1024))"
    using over_limit_bytes [of sz] small by simp
  show ?thesis
    using t g nol by (simp add: transcribe_script_def transcribe_branch_def pyio_simps py_print_def)
qed

text \<open>
  C6 (bounds).  With the \<^verbatim>\<open>ffmpeg\<close> and the transcription service of the
  specification, whose upload cap is at least the script's threshold of 25 MiB,
  every upload the script makes is within the cap, whatever the size of the
  recording: a recording of at most 25 MiB is sent whole, a larger one in parts
  of at most 300 seconds (4800000 bytes); the run completes and
  \<^verbatim>\<open>output/lecture.txt\<close> holds the service's transcript, of the whole file
  or of the parts in order joined by newlines.
\<close>

theorem transcribe_script_service:
  assumes ff: "run_proc en = ffmpeg_run sil" and nosil: "sil AUDIO_FILE = []"
    and srv: "http_post en = whisper_service cap (api_key en) tr" and cap: "26214400 \<le> cap"
    and inp: "map_of (files (fsys w)) AUDIO_FILE = Some (Audio sz dur)" and k: "seg_count dur 300 \<le> 1000"
    and parts: "\<not> is_file (fsys w) ''audio_parts''"
      "\<forall>f \<in> set (dir_entries (fsys w) ''audio_parts''). \<not> endswith f ''.mp3''"
    and out: "\<not> is_file (fsys w) ''output''" "\<not> is_dir (fsys w) OUTPUT_FILE"
  shows "\<exists>w'. transcribe_script en w = (Inr (), w') \<and>
           map_of (files (fsys w')) OUTPUT_FILE = Some (Text
             (if 26214400 < sz
              then join_with ''\<newline>'' (map tr (map (py_join ''audio_parts'') (map seg_name [0..<seg_count dur 300])))
              else tr AUDIO_FILE))"
proof (cases "26214400 < sz")
  case True
  have ok: "http_post en whisper_url (auth_headers en) [(''file'', p, audio_of dur')] whisper_form =
      Inr \<lparr>status_code = 200, resp_json = Some (JObj [(''text'', JStr (tr p))])\<rparr>"
    if "dur' \<le> 300" for p dur'
  proof -
    from that cap have "\<not> cap < 16000 * dur'" by linarith
    then show ?thesis by (simp add: srv whisper_upload audio_of_def text_reply_def)
  qed
  from chunked_run_ffmpeg [OF ff nosil ok inp True k parts out] True show ?thesis by simp
next
  case False
  let ?w2 = "w\<lparr>trace := trace w @ [Exec (silencedetect_cmd AUDIO_FILE), Print MsgNoSilence, Print MsgSmall]\<rparr>"
  let ?w3 = "?w2\<lparr>trace := trace ?w2 @ [Print (MsgSending AUDIO_FILE), Posted AUDIO_FILE (text_reply (tr AUDIO_FILE))]\<rparr>"
  have ta: "transcribe_audio en AUDIO_FILE ?w2 = (Inr (JStr (tr AUDIO_FILE)), ?w3)"
    using transcribe_audio_upload [OF srv, of ?w2 AUDIO_FILE sz dur] inp False cap by simp
  from out have "\<not> is_file (fsys ?w3) ''output''" "\<not> is_dir (fsys ?w3) OUTPUT_FILE" by simp_all
  from write_output_ok [OF this] obtain w' where
    "write_output (JStr (tr AUDIO_FILE)) ?w3 = (Inr (), w')"
    "map_of (files (fsys w')) OUTPUT_FILE = Some (Text (tr AUDIO_FILE))" by blast
  with small_run_ffmpeg [OF ff nosil inp False] ta False show ?thesis by (simp add: pyio_simps)
qed

theorem transcribe_script_service_witness:
  "\<exists>w'. transcribe_script \<lparr>run_proc = ffmpeg_run (\<lambda>_. []),
        http_post = whisper_service 26214400 ''sk-test'' (\<lambda>p. ''text of '' @ p), api_key = ''sk-test''\<rparr>
      \<lparr>fsys = \<lparr>files = [(AUDIO_FILE, Audio 20000000 1250)], dirs = [''audio'']\<rparr>, trace = []\<rparr> = (Inr (), w') \<and>
    map_of (files (fsys w')) OUTPUT_FILE = Some (Text (''text of '' @ AUDIO_FILE))"
proof -
  let ?en = "\<lparr>run_proc = ffmpeg_run (\<lambda>_. []),
        http_post = whisper_service 26214400 ''sk-test'' (\<lambda>p. ''text of '' @ p), api_key = ''sk-test''\<rparr>"
  let ?w = "\<lparr>fsys = \<lparr>files = [(AUDIO_FILE, Audio 20000000 1250)], dirs = [''audio'']\<rparr>, trace = []\<rparr>"
  have ff: "run_proc ?en = ffmpeg_run (\<lambda>_. [])" by simp
  have nosil: "(\<lambda>_. [] :: (string \<times> string \<times> string) list) AUDIO_FILE = []" by simp
  have srv: "http_post ?en = whisper_service 26214400 (api_key ?en) (\<lambda>p. ''text of '' @ p)" by simp
  have cap: "26214400 \<le> (26214400::nat)" by simp
  have inp: "map_of (files (fsys ?w)) AUDIO_FILE = Some (Audio 20000000 1250)" by simp
  have k: "seg_count 1250 300 \<le> 1000" by (simp add: seg_count_def)
  have parts: "\<not> is_file (fsys ?w) ''audio_parts''"
    "\<forall>f \<in> set (dir_entries (fsys ?w) ''audio_parts''). \<not> endswith f ''.mp3''"
    by (simp_all add: is_file_def dir_entries_def child_name_def AUDIO_FILE_def)
  have out: "\<not> is_file (fsys ?w) ''output''" "\<not> is_dir (fsys ?w) OUTPUT_FILE"
    by (simp_all add: is_file_def is_dir_def AUDIO_FILE_def OUTPUT_FILE_def)
  from transcribe_script_service [OF ff nosil srv cap inp k parts out] show ?thesis by simp
qed

text \<open>
  C9 (error).  The threshold is hard-coded as 25 MiB (26214400 bytes), while the
  specification asks for the service's actual cap: against a service whose cap
  is below 25 MiB, a recording without silence whose size lies between that cap
  and 25 MiB is sent whole and rejected with \<^verbatim>\<open>HTTPError\<close> 413; the run
  fails after that single request, and no file is written.
\<close>

theorem transcribe_script_cap_rejected:
  assumes ff: "run_proc en = ffmpeg_run sil" and nosil: "sil AUDIO_FILE = []"
    and srv: "http_post en = whisper_service cap (api_key en) tr"
    and inp: "map_of (files (fsys w)) AUDIO_FILE = Some (Audio sz dur)"
    and over: "cap < sz" and small: "sz \<le> 26214400"
  shows "\<exists>w'. transcribe_script en w = (Inl (HTTPError 413), w') \<and> fsys w' = fsys w \<and>
           posted (trace w') = posted (trace w) @
             [(AUDIO_FILE, error_reply 413 ''Maximum content size limit exceeded'')]"
proof -
  have ns: "\<not> 26214400 < sz" using small by simp
  let ?w2 = "w\<lparr>trace := trace w @ [Exec (silencedetect_cmd AUDIO_FILE), Print MsgNoSilence, Print MsgSmall]\<rparr>"
  from transcribe_audio_upload [OF srv, of ?w2 AUDIO_FILE sz dur] inp over
  have "transcribe_audio en AUDIO_FILE ?w2 = (Inl (HTTPError 413), ?w2\<lparr>trace := trace ?w2 @
      [Print (MsgSending AUDIO_FILE), Posted AUDIO_FILE (error_reply 413 ''Maximum content size limit exceeded'')]\<rparr>)"
    by simp
  with small_run_ffmpeg [OF ff nosil inp ns] show ?thesis by (simp add: pyio_simps)
qed

theorem transcribe_script_cap_rejected_witness:
  "\<exists>w'. transcribe_script \<lparr>run_proc = ffmpeg_run (\<lambda>_. []),
        http_post = whisper_service 25000000 ''sk-test'' (\<lambda>p. ''text of '' @ p), api_key = ''sk-test''\<rparr>
      \<lparr>fsys = \<lparr>files = [(AUDIO_FILE, Audio 25500000 1590)], dirs = [''audio'']\<rparr>, trace = []\<rparr> =
      (Inl (HTTPError 413), w') \<and>
    fsys w' = \<lparr>files = [(AUDIO_FILE, Audio 25500000 1590)], dirs = [''audio'']\<rparr> \<and>
    posted (trace w') = [(AUDIO_FILE, error_reply 413 ''Maximum content size limit exceeded'')]"
proof -
  let ?en = "\<lparr>run_proc = ffmpeg_run (\<lambda>_. []),
        http_post = whisper_service 25000000 ''sk-test'' (\<lambda>p. ''text of '' @ p), api_key = ''sk-test''\<rparr>"
  let ?w = "\<lparr>fsys = \<lparr>files = [(AUDIO_FILE, Audio 25500000 1590)], dirs = [''audio'']\<rparr>, trace = []\<rparr>"
  have ff: "run_proc ?en = ffmpeg_run (\<lambda>_. [])" by simp
  have nosil: "(\<lambda>_. [] :: (string \<times> string \<times> string) list) AUDIO_FILE = []" by simp
  have srv: "http_post ?en = whisper_service 25000000 (api_key ?en) (\<lambda>p. ''text of '' @ p)" by simp
  have inp: "map_of (files (fsys ?w)) AUDIO_FILE = Some (Audio 25500000 1590)" by simp
  have over: "(25000000::nat) < 25500000" and small: "(25500000::nat) \<le> 26214400" by simp_all
  from transcribe_script_cap_rejected [OF ff nosil srv inp over small] show ?thesis by simp
qed

end
